(* ===== verification/Relay_Prelude.thy ===== *)
theory Relay_Prelude
  imports Main "HOL-Library.AList" "HOL-Library.Word"
begin

text \<open>
  The vocabulary every component shares: Python exceptions as values, results that may be
  an exception, Python strings as lists of code points, byte strings as lists of 8-bit
  words, dictionaries as association lists in insertion order (\<open>AList.update\<close> and
  \<open>AList.delete\<close> of the library are exactly the assignment and deletion of a Python
  dict), and the lemmas on them that the component proofs run on.
\<close>

section \<open>Exceptions and results\<close>

text \<open>
  The exceptions the modelled code can meet. \<open>JSONDecodeError\<close>, \<open>UnicodeError\<close> and
  \<open>BinasciiError\<close> are subclasses of \<open>ValueError\<close> in Python; \<open>is_value_error\<close> is what
  an \<open>except ValueError\<close> clause catches. \<open>DingTalkError\<close> is the
  exception class of services/dingtalk.py. \<open>LibError\<close> is any exception of a package outside
  the repository (cryptography, SQLAlchemy, the DingTalk SDK).
\<close>

datatype exc =
    ValueError | JSONDecodeError | UnicodeError | BinasciiError
  | TypeError | KeyError | AttributeError | IndexError | OverflowError
  | RuntimeError | UnboundLocalError | OSError | DingTalkError | LibError

type_synonym 'a res = "exc + 'a"

definition is_value_error :: "exc \<Rightarrow> bool" where
  "is_value_error e \<longleftrightarrow> e \<in> {ValueError, JSONDecodeError, UnicodeError, BinasciiError}"

definition rbind :: "'e + 'a \<Rightarrow> ('a \<Rightarrow> 'e + 'b) \<Rightarrow> 'e + 'b" where
  "rbind r f = (case r of Inl e \<Rightarrow> Inl e | Inr x \<Rightarrow> f x)"

definition res_ok :: "'e + 'a \<Rightarrow> bool" where
  "res_ok r = (case r of Inl _ \<Rightarrow> False | Inr _ \<Rightarrow> True)"

lemma rbind_simps [simp]:
  "rbind (Inl e) f = Inl e"
  "rbind (Inr x) f = f x"
  by (simp_all add: rbind_def)

text \<open>The collection \<open>outcome_iff\<close> says of each fallible step when it succeeds and with what; the components add theirs.\<close>

named_theorems outcome_iff "when a step of fallible code succeeds, and with what"

lemma rbind_Inr_iff [outcome_iff]: "rbind r f = Inr y \<longleftrightarrow> (\<exists>x. r = Inr x \<and> f x = Inr y)"
  by (cases r) auto

lemma rbind_Inl_iff:
  "rbind r f = Inl e \<longleftrightarrow> r = Inl e \<or> (\<exists>x. r = Inr x \<and> f x = Inl e)"
  by (cases r) auto

lemma res_ok_simps [simp]: "\<not> res_ok (Inl e)" "res_ok (Inr x)"
  by (simp_all add: res_ok_def)

lemma res_ok_iff: "res_ok r \<longleftrightarrow> (\<exists>x. r = Inr x)"
  by (cases r) auto

section \<open>Strings, bytes, dictionaries\<close>

text \<open>
  A Python string is the list of its code points; \<open>lit\<close> is a string literal of the
  source (ASCII). Literals stay folded in proofs: two are equal exactly when their texts are.
\<close>

type_synonym pystr = "nat list"
type_synonym byte = "8 word"
type_synonym bytes = "byte list"
type_synonym ('k, 'v) dict = "('k \<times> 'v) list"

definition lit :: "string \<Rightarrow> pystr" where
  "lit s = map of_char s"

definition dkeys :: "('k, 'v) dict \<Rightarrow> 'k list" where
  "dkeys d = map fst d"

definition dict_ok :: "('k, 'v) dict \<Rightarrow> bool" where
  "dict_ok d \<longleftrightarrow> distinct (map fst d)"

lemma lit_eq_iff [simp]: "lit a = lit b \<longleftrightarrow> a = b"
  by (simp add: lit_def inj_map_eq_map inj_def)

lemma lit_Nil [simp]: "lit [] = []"
  by (simp add: lit_def)

lemma lit_eq_Nil [simp]: "lit a = [] \<longleftrightarrow> a = []" "[] = lit a \<longleftrightarrow> a = []"
  by (auto simp: lit_def)

lemma length_lit [simp]: "length (lit a) = length a"
  by (simp add: lit_def)

lemma map_of_update [simp]: "map_of (AList.update k v d) = (map_of d)(k \<mapsto> v)"
  by (rule AList.update_conv')

lemma map_of_delete [simp]: "map_of (AList.delete k d) = (map_of d)(k := None)"
  by (rule AList.delete_conv')

lemma dict_ok_update [simp]: "dict_ok d \<Longrightarrow> dict_ok (AList.update k v d)"
  by (simp add: dict_ok_def AList.distinct_update)

lemma dict_ok_delete [simp]: "dict_ok d \<Longrightarrow> dict_ok (AList.delete k d)"
  by (simp add: dict_ok_def AList.distinct_delete)

lemma dict_ok_filter [simp]: "dict_ok d \<Longrightarrow> dict_ok (filter P d)"
  by (induction d) (auto simp: dict_ok_def)

lemma dict_ok_Nil [simp]: "dict_ok []"
  by (simp add: dict_ok_def)

lemma set_dkeys: "set (dkeys d) = dom (map_of d)"
  by (simp add: dkeys_def dom_map_of_conv_image_fst)

lemma map_of_filter_dict:
  "dict_ok d \<Longrightarrow>
    map_of (filter P d) k = (case map_of d k of None \<Rightarrow> None | Some v \<Rightarrow> if P (k, v) then Some v else None)"
proof (induction d)
  case (Cons p d)
  then have "map_of d (fst p) = None"
    by (auto simp: dict_ok_def map_of_eq_None_iff)
  with Cons show ?case
    by (cases p) (auto simp: dict_ok_def split: option.splits)
qed simp

lemma length_update_new:
  "map_of d k = None \<Longrightarrow> length (AList.update k v d) = Suc (length d)"
  by (induction d) (auto split: if_splits)

lemma length_update_old:
  "map_of d k \<noteq> None \<Longrightarrow> length (AList.update k v d) = length d"
  by (induction d) (auto split: if_splits)

lemma dict_memberD: "(k, v) \<in> set d \<Longrightarrow> dict_ok d \<Longrightarrow> map_of d k = Some v"
  by (simp add: dict_ok_def)

end
