(* ===== verification/Py_Text.thy ===== *)
theory Py_Text
  imports Relay_Prelude
begin

text \<open>
  What the forwarder uses of Python's text operations: \<open>str.join\<close>, \<open>str.split\<close> on a
  separator, \<open>str(int)\<close>, \<open>str.encode\<close> and \<open>bytes.decode\<close> for UTF-8, ASCII and Latin-1,
  with the exceptions of the strict codecs, and the round trips between them.
\<close>

section \<open>Joining and splitting\<close>

fun py_join :: "pystr \<Rightarrow> pystr list \<Rightarrow> pystr" where
  "py_join sep [] = []"
| "py_join sep [s] = s"
| "py_join sep (s # t # ts) = s @ sep @ py_join sep (t # ts)"

text \<open>\<open>s.split(c)\<close> for a one-character separator: always at least one piece.\<close>

fun split_char :: "nat \<Rightarrow> pystr \<Rightarrow> pystr list" where
  "split_char c [] = [[]]"
| "split_char c (x # xs) =
     (if x = c then [] # split_char c xs
      else (case split_char c xs of [] \<Rightarrow> [[x]] | p # ps \<Rightarrow> (x # p) # ps))"

text \<open>\<open>s.split("ab", 1)\<close> and \<open>"ab" in s\<close> for a two-character separator: the text before and
  after its first occurrence.\<close>

fun split_first2 :: "nat \<Rightarrow> nat \<Rightarrow> pystr \<Rightarrow> (pystr \<times> pystr) option" where
  "split_first2 a b (x # y # ys) =
     (if x = a \<and> y = b then Some ([], ys)
      else map_option (\<lambda>(p, q). (x # p, q)) (split_first2 a b (y # ys)))"
| "split_first2 a b _ = None"

text \<open>\<open>s.split("ab")\<close> for a two-character separator.\<close>

fun split2 :: "nat \<Rightarrow> nat \<Rightarrow> pystr \<Rightarrow> pystr list" where
  "split2 a b (x # y # ys) =
     (if x = a \<and> y = b then [] # split2 a b ys
      else (case split2 a b (y # ys) of [] \<Rightarrow> [[x]] | p # ps \<Rightarrow> (x # p) # ps))"
| "split2 a b [x] = [[x]]"
| "split2 a b [] = [[]]"

section \<open>Decimal integers\<close>

fun dec :: "nat \<Rightarrow> pystr" where
  "dec n = (if n < 10 then [48 + n] else dec (n div 10) @ [48 + n mod 10])"

declare dec.simps [simp del]

definition py_int_str :: "int \<Rightarrow> pystr" where
  "py_int_str i = (if i < 0 then 45 # dec (nat (- i)) else dec (nat i))"

definition is_digit :: "nat \<Rightarrow> bool" where
  "is_digit c \<longleftrightarrow> 48 \<le> c \<and> c \<le> 57"

definition dec_value :: "pystr \<Rightarrow> nat" where
  "dec_value ds = foldl (\<lambda>a d. a * 10 + (d - 48)) 0 ds"

text \<open>Hexadecimal digits: written in lower case, read in either.\<close>

definition hex_digit :: "nat \<Rightarrow> nat" where
  "hex_digit n = (if n < 10 then 48 + n else 87 + n)"

definition hex_val :: "nat \<Rightarrow> nat option" where
  "hex_val c =
     (if is_digit c then Some (c - 48)
      else if 97 \<le> c \<and> c \<le> 102 then Some (c - 87)
      else if 65 \<le> c \<and> c \<le> 70 then Some (c - 55)
      else None)"

section \<open>Codecs\<close>

definition is_surrogate :: "nat \<Rightarrow> bool" where
  "is_surrogate c \<longleftrightarrow> 0xD800 \<le> c \<and> c \<le> 0xDFFF"

definition utf8_char :: "nat \<Rightarrow> bytes res" where
  "utf8_char c =
     (if c < 0x80 then Inr [of_nat c]
      else if c < 0x800 then Inr [of_nat (0xC0 + c div 64), of_nat (0x80 + c mod 64)]
      else if is_surrogate c then Inl UnicodeError
      else if c < 0x10000 then
        Inr [of_nat (0xE0 + c div 4096), of_nat (0x80 + c div 64 mod 64), of_nat (0x80 + c mod 64)]
      else if c < 0x110000 then
        Inr [of_nat (0xF0 + c div 262144), of_nat (0x80 + c div 4096 mod 64),
             of_nat (0x80 + c div 64 mod 64), of_nat (0x80 + c mod 64)]
      else Inl UnicodeError)"

fun utf8_encode :: "pystr \<Rightarrow> bytes res" where
  "utf8_encode [] = Inr []"
| "utf8_encode (c # cs) =
     rbind (utf8_char c) (\<lambda>b. rbind (utf8_encode cs) (\<lambda>bs. Inr (b @ bs)))"

definition is_cont :: "byte \<Rightarrow> bool" where
  "is_cont b \<longleftrightarrow> 0x80 \<le> unat b \<and> unat b < 0xC0"

fun utf8_decode :: "bytes \<Rightarrow> pystr res" where
  "utf8_decode [] = Inr []"
| "utf8_decode (b # bs) =
     (let x = unat b in
      if x < 0x80 then rbind (utf8_decode bs) (\<lambda>cs. Inr (x # cs))
      else if 0xC2 \<le> x \<and> x < 0xE0 then
        (case bs of
           b1 # r \<Rightarrow>
             if is_cont b1
             then rbind (utf8_decode r) (\<lambda>cs. Inr (((x - 0xC0) * 64 + (unat b1 - 0x80)) # cs))
             else Inl UnicodeError
         | _ \<Rightarrow> Inl UnicodeError)
      else if 0xE0 \<le> x \<and> x < 0xF0 then
        (case bs of
           b1 # b2 # r \<Rightarrow>
             let v = (x - 0xE0) * 4096 + (unat b1 - 0x80) * 64 + (unat b2 - 0x80) in
             if is_cont b1 \<and> is_cont b2 \<and> 0x800 \<le> v \<and> \<not> is_surrogate v
             then rbind (utf8_decode r) (\<lambda>cs. Inr (v # cs))
             else Inl UnicodeError
         | _ \<Rightarrow> Inl UnicodeError)
      else if 0xF0 \<le> x \<and> x < 0xF5 then
        (case bs of
           b1 # b2 # b3 # r \<Rightarrow>
             let v = (x - 0xF0) * 262144 + (unat b1 - 0x80) * 4096 + (unat b2 - 0x80) * 64
                     + (unat b3 - 0x80) in
             if is_cont b1 \<and> is_cont b2 \<and> is_cont b3 \<and> 0x10000 \<le> v \<and> v < 0x110000
             then rbind (utf8_decode r) (\<lambda>cs. Inr (v # cs))
             else Inl UnicodeError
         | _ \<Rightarrow> Inl UnicodeError)
      else Inl UnicodeError)"

declare utf8_decode.simps [simp del]

definition ascii_encode :: "pystr \<Rightarrow> bytes res" where
  "ascii_encode s = (if \<forall>c \<in> set s. c < 128 then Inr (map of_nat s) else Inl UnicodeError)"

definition latin1_decode :: "bytes \<Rightarrow> pystr" where
  "latin1_decode bs = map unat bs"

section \<open>Lemmas on joining and splitting\<close>

lemma py_join_Cons: "ts \<noteq> [] \<Longrightarrow> py_join sep (s # ts) = s @ sep @ py_join sep ts"
  by (cases ts) simp_all

lemma split_char_nonempty [simp]: "split_char c s \<noteq> []"
  by (induction s) (auto split: list.splits)

lemma split_char_append_sep:
  "c \<notin> set p \<Longrightarrow> split_char c (p @ c # s) = p # split_char c s"
  by (induction p) (auto split: list.splits)

lemma split_char_no_sep: "c \<notin> set p \<Longrightarrow> split_char c p = [p]"
  by (induction p) auto

text \<open>A joined list of separator-free pieces splits back into the pieces.\<close>

lemma split_char_join:
  "ps \<noteq> [] \<Longrightarrow> \<forall>p \<in> set ps. c \<notin> set p \<Longrightarrow> split_char c (py_join [c] ps) = ps"
proof (induction ps)
  case (Cons p ps)
  then show ?case
    by (cases "ps = []") (simp_all add: split_char_append_sep split_char_no_sep py_join_Cons)
qed simp

lemma py_join_inject:
  assumes eq: "py_join [c] ps = py_join [c] qs" and "length ps = length qs" and "ps \<noteq> []"
    and "\<forall>p \<in> set ps. c \<notin> set p" and "\<forall>q \<in> set qs. c \<notin> set q"
  shows "ps = qs"
proof -
  from assms(2,3) have ne: "qs \<noteq> []" by auto
  have "ps = split_char c (py_join [c] ps)"
    by (simp only: split_char_join [OF assms(3,4)])
  also have "\<dots> = qs"
    unfolding eq by (rule split_char_join [OF ne assms(5)])
  finally show ?thesis .
qed

section \<open>Lemmas on decimals\<close>

lemma dec_digits: "\<forall>c \<in> set (dec n). is_digit c"
proof (induction n rule: dec.induct)
  case (1 n)
  show ?case
    using 1 by (subst dec.simps) (auto simp: is_digit_def)
qed

lemma dec_nonempty [simp]: "dec n \<noteq> []"
  by (subst dec.simps) simp

lemma dec_value_snoc: "dec_value (ds @ [d]) = dec_value ds * 10 + (d - 48)"
  by (simp add: dec_value_def)

lemma dec_value_dec [simp]: "dec_value (dec n) = n"
proof (induction n rule: dec.induct)
  case (1 n)
  show ?case
  proof (cases "n < 10")
    case True
    then show ?thesis by (subst dec.simps) (simp add: dec_value_def)
  next
    case False
    with 1 show ?thesis by (subst dec.simps) (simp add: dec_value_snoc)
  qed
qed

lemma dec_no_leading_zero: "0 < n \<Longrightarrow> hd (dec n) \<noteq> 48"
proof (induction n rule: dec.induct)
  case (1 n)
  show ?case
  proof (cases "n < 10")
    case True
    with "1.prems" show ?thesis by (subst dec.simps) simp
  next
    case False
    then have "0 < n div 10" by simp
    with False 1 show ?thesis by (subst dec.simps) simp
  qed
qed

lemma dec_0 [simp]: "dec 0 = [48]"
  by (subst dec.simps) simp

lemma py_int_str_nonempty [simp]: "py_int_str i \<noteq> []"
  by (simp add: py_int_str_def)

lemma py_int_str_chars: "c \<in> set (py_int_str i) \<Longrightarrow> c = 45 \<or> is_digit c"
  using dec_digits by (auto simp: py_int_str_def split: if_splits)

lemma dec_inject [simp]: "dec m = dec n \<longleftrightarrow> m = n"
  by (metis dec_value_dec)

lemma hd_dec_digit: "is_digit (hd (dec n))"
  using dec_digits [of n] by (cases "dec n") auto

lemma py_int_str_inject [simp]: "py_int_str i = py_int_str j \<longleftrightarrow> i = j"
proof -
  have no_sign: "dec n \<noteq> 45 # xs" for n xs
    using hd_dec_digit [of n] by (cases "dec n") (auto simp: is_digit_def)
  then show ?thesis
    using no_sign [symmetric] by (auto simp: py_int_str_def)
qed

lemma hex_val_digit: "n < 16 \<Longrightarrow> hex_val (hex_digit n) = Some n"
  by (auto simp: hex_val_def hex_digit_def is_digit_def)

section \<open>Lemmas on the codecs\<close>

lemma unat_byte [simp]: "n < 256 \<Longrightarrow> unat (of_nat n :: byte) = n"
  by (simp add: unat_of_nat)

lemma unat_byte_less [simp]: "unat (b :: byte) < 256"
  using unsigned_less [of b, where ?'a = nat] by simp

lemma utf8_decode_Nil [simp]: "utf8_decode [] = Inr []"
  by (simp add: utf8_decode.simps)

lemma utf8_char_cases:
  assumes "utf8_char c = Inr b"
  obtains (one) "c < 0x80" "b = [of_nat c]"
  | (two) "0x80 \<le> c" "c < 0x800" "b = [of_nat (0xC0 + c div 64), of_nat (0x80 + c mod 64)]"
  | (three) "0x800 \<le> c" "c < 0x10000" "\<not> is_surrogate c"
      "b = [of_nat (0xE0 + c div 4096), of_nat (0x80 + c div 64 mod 64), of_nat (0x80 + c mod 64)]"
  | (four) "0x10000 \<le> c" "c < 0x110000"
      "b = [of_nat (0xF0 + c div 262144), of_nat (0x80 + c div 4096 mod 64),
            of_nat (0x80 + c div 64 mod 64), of_nat (0x80 + c mod 64)]"
  using assms by (auto simp: utf8_char_def not_less split: if_splits)

lemma unat_cont: "unat (of_nat (0x80 + n mod 64) :: byte) = 0x80 + n mod 64"
  by (rule unat_byte) (use mod_less_divisor [of 64 n] in linarith)

lemma is_cont_byte: "is_cont (of_nat (0x80 + n mod 64))"
  unfolding is_cont_def unat_cont using mod_less_divisor [of 64 n] by simp

lemma div_mod_64: "n div 64 * 64 + n mod 64 = (n :: nat)"
  by simp

lemma div_mod_4096: "n div 4096 * 4096 + n div 64 mod 64 * 64 + n mod 64 = (n :: nat)"
proof -
  have "n div 64 div 64 = n div 4096"
    by (simp add: div_mult2_eq [symmetric])
  then show ?thesis
    using div_mod_64 [of n] div_mod_64 [of "n div 64"] by linarith
qed

lemma div_mod_262144:
  "n div 262144 * 262144 + n div 4096 mod 64 * 4096 + n div 64 mod 64 * 64 + n mod 64 = (n :: nat)"
proof -
  have "n div 4096 div 64 * 64 + n div 4096 mod 64 = n div 4096"
    by (rule div_mod_64)
  then have "n div 262144 * 64 + n div 4096 mod 64 = n div 4096"
    by (simp add: div_mult2_eq [symmetric])
  then show ?thesis
    using div_mod_4096 [of n] by linarith
qed

lemma utf8_decode_char:
  assumes "utf8_char c = Inr b"
  shows "utf8_decode (b @ bs) = rbind (utf8_decode bs) (\<lambda>cs. Inr (c # cs))"
  using assms
proof (cases rule: utf8_char_cases)
  case one
  then show ?thesis by (simp add: utf8_decode.simps(2))
next
  case two
  have u: "unat (of_nat (0xC0 + c div 64) :: byte) = 0xC0 + c div 64"
    by (rule unat_byte) (use two(2) in linarith)
  have r: "0xC2 \<le> 0xC0 + c div 64" "0xC0 + c div 64 < 0xE0"
    using two(1,2) by linarith+
  show ?thesis
    unfolding two(3) append_Cons append_Nil utf8_decode.simps(2) u Let_def
    using r div_mod_64 [of c] by (simp add: unat_cont is_cont_byte del: of_nat_add)
next
  case three
  have u: "unat (of_nat (0xE0 + c div 4096) :: byte) = 0xE0 + c div 4096"
    by (rule unat_byte) (use three(2) in linarith)
  have r: "0xE0 \<le> 0xE0 + c div 4096" "0xE0 + c div 4096 < 0xF0"
    using three(2) by linarith+
  show ?thesis
    unfolding three(4) append_Cons append_Nil utf8_decode.simps(2) u Let_def
    using r three(1,3) div_mod_4096 [of c]
    by (simp add: unat_cont is_cont_byte add.assoc del: of_nat_add)
next
  case four
  have u: "unat (of_nat (0xF0 + c div 262144) :: byte) = 0xF0 + c div 262144"
    by (rule unat_byte) (use four(2) in linarith)
  have r: "0xF0 \<le> 0xF0 + c div 262144" "0xF0 + c div 262144 < 0xF5"
    using four(2) by linarith+
  show ?thesis
    unfolding four(3) append_Cons append_Nil utf8_decode.simps(2) u Let_def
    using r four(1,2) div_mod_262144 [of c]
    by (simp add: unat_cont is_cont_byte add.assoc del: of_nat_add)
qed

lemma utf8_decode_encode: "utf8_encode s = Inr bs \<Longrightarrow> utf8_decode bs = Inr s"
proof (induction s arbitrary: bs)
  case (Cons c s)
  then obtain b bs' where "utf8_char c = Inr b" "utf8_encode s = Inr bs'" "bs = b @ bs'"
    by (auto simp: outcome_iff)
  with Cons.IH show ?case by (simp add: utf8_decode_char)
qed simp

lemma utf8_encode_inject: "utf8_encode s = Inr bs \<Longrightarrow> utf8_encode t = Inr bs \<Longrightarrow> s = t"
  using utf8_decode_encode [of s bs] utf8_decode_encode [of t bs] by simp

lemma utf8_encode_append:
  "utf8_encode (s @ t) = rbind (utf8_encode s) (\<lambda>a. rbind (utf8_encode t) (\<lambda>b. Inr (a @ b)))"
proof (induction s)
  case Nil
  then show ?case by (cases "utf8_encode t") simp_all
next
  case (Cons c s)
  then show ?case
    by (cases "utf8_char c"; cases "utf8_encode s"; cases "utf8_encode t") simp_all
qed

definition scalar_text :: "pystr \<Rightarrow> bool" where
  "scalar_text s \<longleftrightarrow> (\<forall>c \<in> set s. c < 0x110000 \<and> \<not> is_surrogate c)"

lemma utf8_encode_ascii: "\<forall>c \<in> set s. c < 128 \<Longrightarrow> utf8_encode s = Inr (map of_nat s)"
  by (induction s) (simp_all add: utf8_char_def)

lemma utf8_encode_scalar: "scalar_text s \<Longrightarrow> \<exists>bs. utf8_encode s = Inr bs"
proof (induction s)
  case (Cons c s)
  then have "\<exists>b. utf8_char c = Inr b"
    by (auto simp: scalar_text_def utf8_char_def)
  with Cons show ?case by (auto simp: scalar_text_def)
qed simp

lemma scalar_text_Nil [simp]: "scalar_text []"
  by (simp add: scalar_text_def)

lemma scalar_text_Cons [simp]:
  "scalar_text (c # s) \<longleftrightarrow> c < 0x110000 \<and> \<not> is_surrogate c \<and> scalar_text s"
  by (auto simp: scalar_text_def)

lemma scalar_text_append [simp]: "scalar_text (s @ t) \<longleftrightarrow> scalar_text s \<and> scalar_text t"
  by (auto simp: scalar_text_def)

lemma scalar_text_ascii: "\<forall>c \<in> set s. c < 128 \<Longrightarrow> scalar_text s"
  by (auto simp: scalar_text_def is_surrogate_def)

lemma of_char_less_256: "(of_char c :: nat) < 256"
  using nat_of_char_less_256 by (simp add: of_char_def)

lemma lit_scalar [simp]: "scalar_text (lit s)"
proof -
  have "(of_char c :: nat) < 0x110000 \<and> \<not> is_surrogate (of_char c)" for c
    using of_char_less_256 [of c] unfolding is_surrogate_def by linarith
  then show ?thesis by (auto simp: scalar_text_def lit_def)
qed

lemma py_int_str_scalar [simp]: "scalar_text (py_int_str i)"
proof (rule scalar_text_ascii, rule ballI)
  fix c
  assume "c \<in> set (py_int_str i)"
  from py_int_str_chars [OF this] show "c < 128" by (auto simp: is_digit_def)
qed

lemma scalar_text_join:
  "scalar_text sep \<Longrightarrow> \<forall>p \<in> set ps. scalar_text p \<Longrightarrow> scalar_text (py_join sep ps)"
proof (induction ps)
  case (Cons p ps)
  then show ?case by (cases "ps = []") (simp_all add: py_join_Cons)
qed simp

end
