(* ===== verification/Base64_Hex.thy ===== *)
theory Base64_Hex
  imports Py_Text
begin

text \<open>
  forwarder/app/crypto/base64.py: base64 in the line format of OpenSSL (64 characters per
  line, a newline at the end), its tolerant decoder, and hexadecimal text. The standard
  library's \<open>b64encode\<close>, the non-strict \<open>a2b_base64\<close> behind \<open>b64decode\<close>, \<open>bytes.hex\<close> and
  \<open>bytes.fromhex\<close> are written out below it.
\<close>

section \<open>The standard library's base64\<close>

definition b64_char :: "nat \<Rightarrow> nat" where
  "b64_char n =
     (if n < 26 then 65 + n
      else if n < 52 then 97 + (n - 26)
      else if n < 62 then 48 + (n - 52)
      else if n = 62 then 43 else 47)"

definition b64_val :: "nat \<Rightarrow> nat option" where
  "b64_val c =
     (if 65 \<le> c \<and> c \<le> 90 then Some (c - 65)
      else if 97 \<le> c \<and> c \<le> 122 then Some (c - 97 + 26)
      else if 48 \<le> c \<and> c \<le> 57 then Some (c - 48 + 52)
      else if c = 43 then Some 62
      else if c = 47 then Some 63
      else None)"

fun std_b64encode :: "bytes \<Rightarrow> pystr" where
  "std_b64encode [] = []"
| "std_b64encode [a] =
     [b64_char (unat a div 4), b64_char (unat a mod 4 * 16), 61, 61]"
| "std_b64encode [a, b] =
     [b64_char (unat a div 4), b64_char (unat a mod 4 * 16 + unat b div 16),
      b64_char (unat b mod 16 * 4), 61]"
| "std_b64encode (a # b # c # r) =
     [b64_char (unat a div 4), b64_char (unat a mod 4 * 16 + unat b div 16),
      b64_char (unat b mod 16 * 4 + unat c div 64), b64_char (unat c mod 64)]
     @ std_b64encode r"

text \<open>The decoder's loop: the position in the quadruple, the bits left over from the last
  character, and the padding characters seen; characters outside the alphabet are skipped.\<close>

fun a2b :: "nat \<Rightarrow> nat \<Rightarrow> nat \<Rightarrow> pystr \<Rightarrow> bytes res" where
  "a2b pos left pads [] = (if pos = 0 then Inr [] else Inl BinasciiError)"
| "a2b pos left pads (c # cs) =
     (if c = 61 then
        (if 2 \<le> pos \<and> 4 \<le> pos + (pads + 1) then Inr []
         else a2b pos left (if 2 \<le> pos then pads + 1 else pads) cs)
      else
        (case b64_val c of
           None \<Rightarrow> a2b pos left pads cs
         | Some v \<Rightarrow>
             if pos = 0 then a2b 1 v 0 cs
             else if pos = 1 then
               rbind (a2b 2 (v mod 16) 0 cs) (\<lambda>bs. Inr (of_nat (left * 4 + v div 16) # bs))
             else if pos = 2 then
               rbind (a2b 3 (v mod 4) 0 cs) (\<lambda>bs. Inr (of_nat (left * 16 + v div 4) # bs))
             else
               rbind (a2b 0 0 0 cs) (\<lambda>bs. Inr (of_nat (left * 64 + v) # bs))))"

text \<open>\<open>base64.b64decode(str)\<close>: a string with a character beyond ASCII is a \<open>ValueError\<close>.\<close>

definition std_b64decode :: "pystr \<Rightarrow> bytes res" where
  "std_b64decode s = (if \<exists>c \<in> set s. 128 \<le> c then Inl ValueError else a2b 0 0 0 s)"

section \<open>The repository's functions\<close>

text \<open>\<open>[raw[i:i+64] for i in range(0, len(raw), 64)]\<close>.\<close>

function chunks64 :: "pystr \<Rightarrow> pystr list" where
  "chunks64 raw = (if raw = [] then [] else take 64 raw # chunks64 (drop 64 raw))"
  by pat_completeness auto
termination
  by (relation "measure length") auto

declare chunks64.simps [simp del]

definition b64_encode :: "bytes \<Rightarrow> pystr" where
  "b64_encode data = py_join [10] (chunks64 (std_b64encode data)) @ [10]"

definition b64_decode :: "pystr \<Rightarrow> bytes res" where
  "b64_decode encoded =
     std_b64decode (filter (\<lambda>c. c \<noteq> 32) (filter (\<lambda>c. c \<noteq> 13) (filter (\<lambda>c. c \<noteq> 10) encoded)))"

definition hex_encode :: "bytes \<Rightarrow> pystr" where
  "hex_encode data = concat (map (\<lambda>b. [hex_digit (unat b div 16), hex_digit (unat b mod 16)]) data)"

text \<open>\<open>uuid.uuid4\<close> of 16 random bytes, with the version and the variant in their places, as text.\<close>

unbundle bit_operations_syntax

definition uuid4_bytes :: "bytes \<Rightarrow> bytes" where
  "uuid4_bytes rnd = rnd[6 := (rnd ! 6 AND 0x0F) OR 0x40, 8 := (rnd ! 8 AND 0x3F) OR 0x80]"

definition generate_uuid :: "bytes \<Rightarrow> pystr" where
  "generate_uuid rnd =
     (let h = hex_encode (uuid4_bytes rnd)
      in take 8 h @ [45] @ take 4 (drop 8 h) @ [45] @ take 4 (drop 12 h) @ [45] @ take 4 (drop 16 h) @ [45] @ drop 20 h)"

text \<open>\<open>bytes.fromhex\<close>: pairs of digits, white space allowed between pairs only.\<close>

definition is_ascii_space :: "nat \<Rightarrow> bool" where
  "is_ascii_space c \<longleftrightarrow> c = 32 \<or> (9 \<le> c \<and> c \<le> 13)"

fun hex_decode :: "pystr \<Rightarrow> bytes res" where
  "hex_decode [] = Inr []"
| "hex_decode (c # cs) =
     (if is_ascii_space c then hex_decode cs
      else
        (case cs of
           [] \<Rightarrow> Inl ValueError
         | d # ds \<Rightarrow>
             (case (hex_val c, hex_val d) of
                (Some h, Some l) \<Rightarrow>
                  rbind (hex_decode ds) (\<lambda>bs. Inr (of_nat (16 * h + l) # bs))
              | _ \<Rightarrow> Inl ValueError)))"

section \<open>Lemmas on the alphabet\<close>

lemma b64_val_char [simp]: "n < 64 \<Longrightarrow> b64_val (b64_char n) = Some n"
  by (auto simp: b64_val_def b64_char_def)

lemma b64_char_range:
  "n < 64 \<Longrightarrow> b64_char n < 128 \<and> b64_char n \<noteq> 61 \<and> b64_char n \<noteq> 10 \<and> b64_char n \<noteq> 13 \<and> b64_char n \<noteq> 32
     \<and> b64_char n \<noteq> 124"
  by (auto simp: b64_char_def)

lemma a2b_char [simp]:
  "n < 64 \<Longrightarrow> a2b pos left pads (b64_char n # cs) =
     (if pos = 0 then a2b 1 n 0 cs
      else if pos = 1 then rbind (a2b 2 (n mod 16) 0 cs) (\<lambda>bs. Inr (of_nat (left * 4 + n div 16) # bs))
      else if pos = 2 then rbind (a2b 3 (n mod 4) 0 cs) (\<lambda>bs. Inr (of_nat (left * 16 + n div 4) # bs))
      else rbind (a2b 0 0 0 cs) (\<lambda>bs. Inr (of_nat (left * 64 + n) # bs)))"
  using b64_char_range [of n] by simp

declare a2b.simps(2) [simp del]

section \<open>The base64 round trip\<close>

lemma sextet_bounds:
  "unat (a :: byte) div 4 < 64"
  "unat (a :: byte) mod 4 * 16 < 64"
  "unat (a :: byte) mod 4 * 16 + unat (b :: byte) div 16 < 64"
  "unat (b :: byte) mod 16 * 4 < 64"
  "unat (b :: byte) mod 16 * 4 + unat (c :: byte) div 64 < 64"
  "unat (c :: byte) mod 64 < 64"
  using unat_byte_less [of a] unat_byte_less [of b] unat_byte_less [of c] by linarith+

lemma byte_join:
  "(of_nat (unat a div 4 * 4 + unat a mod 4 * 16 div 16) :: byte) = a"
  "(of_nat (unat a div 4 * 4 + (unat a mod 4 * 16 + unat (b :: byte) div 16) div 16) :: byte) = a"
  "(of_nat ((unat (a :: byte) mod 4 * 16 + unat b div 16) mod 16 * 16 + unat b mod 16 * 4 div 4) :: byte) = b"
  "(of_nat ((unat (a :: byte) mod 4 * 16 + unat b div 16) mod 16 * 16
      + (unat b mod 16 * 4 + unat (c :: byte) div 64) div 4) :: byte) = b"
  "(of_nat ((unat (b :: byte) mod 16 * 4 + unat c div 64) mod 4 * 64 + unat c mod 64) :: byte) = c"
proof -
  have n: "(of_nat n :: byte) = x" if "n = unat x" for n x
    using that by simp
  have b: "unat b div 16 < 16" and c: "unat c div 64 < 4"
    using unat_byte_less [of b] unat_byte_less [of c] by linarith+
  have m: "unat b div 16 * 16 + unat b mod 16 = unat b" "unat c div 64 * 64 + unat c mod 64 = unat c"
    by simp_all
  show "(of_nat (unat a div 4 * 4 + unat a mod 4 * 16 div 16) :: byte) = a"
    by (rule n) simp
  show "(of_nat (unat a div 4 * 4 + (unat a mod 4 * 16 + unat (b :: byte) div 16) div 16) :: byte) = a"
    by (rule n) (use b in simp)
  show "(of_nat ((unat (a :: byte) mod 4 * 16 + unat b div 16) mod 16 * 16 + unat b mod 16 * 4 div 4) :: byte) = b"
    by (rule n) (use b m in simp)
  show "(of_nat ((unat (a :: byte) mod 4 * 16 + unat b div 16) mod 16 * 16
      + (unat b mod 16 * 4 + unat (c :: byte) div 64) div 4) :: byte) = b"
    by (rule n) (use b c m in simp)
  show "(of_nat ((unat (b :: byte) mod 16 * 4 + unat c div 64) mod 4 * 64 + unat c mod 64) :: byte) = c"
    by (rule n) (use c m in simp)
qed

text \<open>One quadruple of the encoded text, for each amount of padding.\<close>

lemma a2b_quad:
  assumes "x < 64" "y < 64"
  shows "a2b 0 0 0 (b64_char x # b64_char y # 61 # 61 # cs) = Inr [of_nat (x * 4 + y div 16)]"
    and "z < 64 \<Longrightarrow> a2b 0 0 0 (b64_char x # b64_char y # b64_char z # 61 # cs) =
      Inr [of_nat (x * 4 + y div 16), of_nat (y mod 16 * 16 + z div 4)]"
    and "z < 64 \<Longrightarrow> w < 64 \<Longrightarrow>
      a2b 0 0 0 (b64_char x # b64_char y # b64_char z # b64_char w # cs) =
      rbind (a2b 0 0 0 cs) (\<lambda>bs. Inr (of_nat (x * 4 + y div 16) # of_nat (y mod 16 * 16 + z div 4)
        # of_nat (z mod 4 * 64 + w) # bs))"
  using assms
  by (simp_all add: a2b.simps(2) [of _ _ _ 61] del: of_nat_add of_nat_mult)
    (cases "a2b 0 0 0 cs"; simp del: of_nat_add of_nat_mult)

lemma a2b_std_b64encode: "a2b 0 0 0 (std_b64encode bs) = Inr bs"
proof (induction bs rule: std_b64encode.induct)
  case (2 a)
  show ?case
    unfolding std_b64encode.simps a2b_quad(1) [OF sextet_bounds(1,2)] byte_join ..
next
  case (3 a b)
  show ?case
    unfolding std_b64encode.simps a2b_quad(2) [OF sextet_bounds(1,3,4)] byte_join ..
next
  case (4 a b c r)
  show ?case
    unfolding std_b64encode.simps append_Cons append_Nil
      a2b_quad(3) [OF sextet_bounds(1,3,5,6)] byte_join 4 rbind_simps ..
qed simp

lemma std_b64encode_chars:
  "x \<in> set (std_b64encode bs) \<Longrightarrow> x < 128 \<and> x \<noteq> 10 \<and> x \<noteq> 13 \<and> x \<noteq> 32 \<and> x \<noteq> 124"
  by (induction bs rule: std_b64encode.induct) (auto simp: b64_char_range sextet_bounds)

section \<open>The line format\<close>

lemma concat_chunks64: "concat (chunks64 raw) = raw"
proof (induction raw rule: chunks64.induct)
  case (1 raw)
  then show ?case by (subst chunks64.simps) simp
qed

lemma chunks64_length: "\<forall>l \<in> set (chunks64 raw). 0 < length l \<and> length l \<le> 64"
proof (induction raw rule: chunks64.induct)
  case (1 raw)
  then show ?case by (subst chunks64.simps) auto
qed

lemma set_chunks64: "l \<in> set (chunks64 raw) \<Longrightarrow> set l \<subseteq> set raw"
  using concat_chunks64 [of raw] by (metis UN_upper set_concat)

lemma filter_py_join:
  "\<not> P c \<Longrightarrow> filter P (py_join [c] ls) = concat (map (filter P) ls)"
proof (induction ls)
  case (Cons l ls)
  then show ?case by (cases "ls = []") (simp_all add: py_join_Cons)
qed simp

lemma b64_encode_strip:
  "filter (\<lambda>c. c \<noteq> 10) (b64_encode data) = std_b64encode data"
proof -
  have "map (filter (\<lambda>c. c \<noteq> 10)) (chunks64 (std_b64encode data)) = chunks64 (std_b64encode data)"
    using set_chunks64 [of _ "std_b64encode data"] std_b64encode_chars [of _ data]
    by (intro map_idI) (auto simp: filter_id_conv)
  then show ?thesis
    by (simp add: b64_encode_def filter_py_join concat_chunks64)
qed

lemma b64_decode_encode [simp]: "b64_decode (b64_encode data) = Inr data"
proof -
  have "filter (\<lambda>c. c \<noteq> 32) (filter (\<lambda>c. c \<noteq> 13) (std_b64encode data)) = std_b64encode data"
    using std_b64encode_chars [of _ data] by (auto simp: filter_id_conv)
  moreover have "\<not> (\<exists>c \<in> set (std_b64encode data). 128 \<le> c)"
    using std_b64encode_chars [of _ data] by (auto simp: not_le)
  ultimately show ?thesis
    by (simp add: b64_decode_def b64_encode_strip std_b64decode_def a2b_std_b64encode)
qed

lemma b64_encode_chars:
  "c \<in> set (b64_encode data) \<Longrightarrow> c < 128 \<and> c \<noteq> 124"
proof -
  assume c: "c \<in> set (b64_encode data)"
  have join: "set (py_join [10] ls) \<subseteq> insert 10 (\<Union> (set ` set ls))" for ls :: "pystr list"
  proof (induction ls)
    case (Cons l ls)
    then show ?case by (cases "ls = []") (auto simp: py_join_Cons)
  qed simp
  from c have "c = 10 \<or> c \<in> set (std_b64encode data)"
    using join [of "chunks64 (std_b64encode data)"] set_chunks64 [of _ "std_b64encode data"]
    by (auto simp: b64_encode_def)
  then show ?thesis using std_b64encode_chars [of c data] by auto
qed

lemma b64_encode_scalar [simp]: "scalar_text (b64_encode data)"
  using b64_encode_chars [of _ data] by (blast intro: scalar_text_ascii)

lemma b64_encode_inject [simp]: "b64_encode a = b64_encode b \<longleftrightarrow> a = b"
  by (metis b64_decode_encode sum.inject(2))

lemma py_join_snoc_Nil: "ls \<noteq> [] \<Longrightarrow> py_join sep (ls @ [[]]) = py_join sep ls @ sep"
proof (induction ls)
  case (Cons l ls)
  then show ?case by (cases "ls = []") (simp_all add: py_join_Cons)
qed simp

text \<open>The encoder's text is lines of at most 64 characters, each ended by a newline.\<close>

lemma b64_encode_lines:
  "split_char 10 (b64_encode data) =
     (if data = [] then [[], []] else chunks64 (std_b64encode data) @ [[]])"
proof (cases "data = []")
  case True
  then show ?thesis by (simp add: b64_encode_def chunks64.simps)
next
  case False
  let ?ls = "chunks64 (std_b64encode data)"
  have "std_b64encode data \<noteq> []"
    using False by (cases data rule: std_b64encode.cases) auto
  then have ne: "?ls \<noteq> []" by (subst chunks64.simps) simp
  then have "b64_encode data = py_join [10] (?ls @ [[]])"
    by (simp add: b64_encode_def py_join_snoc_Nil)
  moreover have "\<forall>p \<in> set (?ls @ [[]]). 10 \<notin> set p"
    using set_chunks64 [of _ "std_b64encode data"] std_b64encode_chars [of 10 data] by auto
  ultimately have "split_char 10 (b64_encode data) = ?ls @ [[]]"
    using split_char_join [of "?ls @ [[]]" 10] by simp
  then show ?thesis using False by simp
qed

section \<open>The hexadecimal round trip\<close>

lemma hex_digit_not_space: "n < 16 \<Longrightarrow> \<not> is_ascii_space (hex_digit n)"
  by (auto simp: is_ascii_space_def hex_digit_def)

lemma hex_decode_encode: "hex_decode (hex_encode data) = Inr data"
proof (induction data)
  case (Cons b data)
  have lt: "unat b div 16 < 16" "unat b mod 16 < 16"
    using unat_byte_less [of b] by linarith+
  have j: "(of_nat (16 * (unat b div 16) + unat b mod 16) :: byte) = b" by simp
  have "hex_encode (b # data) = hex_digit (unat b div 16) # hex_digit (unat b mod 16) # hex_encode data"
    by (simp add: hex_encode_def)
  with lt Cons j show ?case
    by (simp add: hex_digit_not_space hex_val_digit del: of_nat_add of_nat_mult)
qed (simp add: hex_encode_def)

section \<open>Message ids\<close>

lemma hex_encode_length: "length (hex_encode data) = 2 * length data"
  by (induction data) (simp_all add: hex_encode_def)

lemma hex_encode_chars: "c \<in> set (hex_encode data) \<Longrightarrow> 48 \<le> c \<and> c \<le> 57 \<or> 97 \<le> c \<and> c \<le> 102"
proof (induction data)
  case (Cons b data)
  have d: "48 \<le> hex_digit n \<and> hex_digit n \<le> 57 \<or> 97 \<le> hex_digit n \<and> hex_digit n \<le> 102" if "n < 16" for n
    using that by (auto simp: hex_digit_def)
  have lt: "unat b div 16 < 16" "unat b mod 16 < 16" using unat_byte_less [of b] by linarith+
  have "hex_encode (b # data) = hex_digit (unat b div 16) # hex_digit (unat b mod 16) # hex_encode data"
    by (simp add: hex_encode_def)
  then have "c = hex_digit (unat b div 16) \<or> c = hex_digit (unat b mod 16) \<or> c \<in> set (hex_encode data)"
    using Cons.prems by simp
  then show ?case using d [OF lt(1)] d [OF lt(2)] Cons.IH by auto
qed (simp add: hex_encode_def)

text \<open>The id of a message is 36 characters of hexadecimal digits and dashes: encodable, and without the separator of the signing
  payload.\<close>

lemma generate_uuid_text:
  assumes "length rnd = 16"
  shows "length (generate_uuid rnd) = 36" and "scalar_text (generate_uuid rnd)" and "124 \<notin> set (generate_uuid rnd)"
proof -
  have l: "length (hex_encode (uuid4_bytes rnd)) = 32" using assms by (simp add: hex_encode_length uuid4_bytes_def)
  then show "length (generate_uuid rnd) = 36" by (simp add: generate_uuid_def Let_def)
  have c: "c = 45 \<or> 48 \<le> c \<and> c \<le> 57 \<or> 97 \<le> c \<and> c \<le> 102" if "c \<in> set (generate_uuid rnd)" for c
    using that hex_encode_chars [of c "uuid4_bytes rnd"]
    by (auto simp: generate_uuid_def Let_def dest: in_set_takeD in_set_dropD)
  show "124 \<notin> set (generate_uuid rnd)" using c by fastforce
  show "scalar_text (generate_uuid rnd)" unfolding scalar_text_def is_surrogate_def using c by fastforce
qed

section \<open>Properties\<close>

text \<open>Base64 in the OpenSSL line format: decoding gives the bytes back; the text ends with a newline,
  its lines are the 64-character pieces of the standard encoding, none longer than 64; and it is ASCII without the
  separator \<open>|\<close> of the signing payload.\<close>

lemma base64_line_roundtrip:
  "b64_decode (b64_encode data) = Inr data \<and>
   split_char 10 (b64_encode data) =
     (if data = [] then [[], []] else chunks64 (std_b64encode data) @ [[]]) \<and>
   list_all (\<lambda>l. length l \<le> 64) (split_char 10 (b64_encode data)) \<and>
   list_all (\<lambda>c. c < 128 \<and> c \<noteq> 124) (b64_encode data)"
  using b64_encode_chars [of _ data] chunks64_length [of "std_b64encode data"]
  by (auto simp: b64_encode_lines list_all_iff)

text \<open>Hexadecimal text gives the bytes back, in either letter case.\<close>

lemma hex_roundtrip:
  "hex_decode (hex_encode data) = Inr data \<and>
   hex_decode (map (\<lambda>c. if 97 \<le> c then c - 32 else c) (hex_encode data)) = Inr data \<and>
   length (hex_encode data) = 2 * length data"
proof -
  have "hex_decode (map (\<lambda>c. if 97 \<le> c then c - 32 else c) (hex_encode data)) = Inr data"
  proof (induction data)
    case (Cons b data)
    let ?up = "\<lambda>c. if 97 \<le> c then c - 32 else c :: nat"
    have lt: "unat b div 16 < 16" "unat b mod 16 < 16"
      using unat_byte_less [of b] by linarith+
    have j: "(of_nat (16 * (unat b div 16) + unat b mod 16) :: byte) = b" by simp
    have v: "hex_val (?up (hex_digit n)) = Some n \<and> \<not> is_ascii_space (?up (hex_digit n))" if "n < 16" for n
      using that by (auto simp: hex_digit_def hex_val_def is_ascii_space_def is_digit_def)
    have "hex_encode (b # data) = hex_digit (unat b div 16) # hex_digit (unat b mod 16) # hex_encode data"
      by (simp add: hex_encode_def)
    then show ?case using Cons v [OF lt(1)] v [OF lt(2)] j by simp
  qed (simp add: hex_encode_def)
  moreover have "length (hex_encode data) = 2 * length data"
    by (induction data) (simp_all add: hex_encode_def)
  ultimately show ?thesis by (simp add: hex_decode_encode)
qed

end
