(* ===== verification/Py_Hash.thy ===== *)
theory Py_Hash
  imports Py_Text
begin

text \<open>
  What the forwarder uses of Python's hashlib and hmac: SHA-1 (for the WebSocket accept key), SHA-256
  (for the session key) and HMAC-SHA-256 (for the callback signature), on byte strings, as executable
  definitions over 32-bit words; and the big-endian conversions of \<open>struct\<close> and \<open>int.to_bytes\<close>.
\<close>

unbundle bit_operations_syntax

section \<open>Big-endian integers\<close>

primrec be_bytes :: "nat \<Rightarrow> nat \<Rightarrow> bytes" where
  "be_bytes 0 n = []"
| "be_bytes (Suc k) n = of_nat (n div 256 ^ k) # be_bytes k n"

definition be_val :: "bytes \<Rightarrow> nat" where
  "be_val bs = foldl (\<lambda>a b. a * 256 + unat b) 0 bs"

lemma length_be_bytes [simp]: "length (be_bytes k n) = k"
  by (induction k) simp_all

lemma foldl_be_val: "foldl (\<lambda>a b. a * 256 + unat b) m bs = m * 256 ^ length bs + be_val bs"
proof (induction bs arbitrary: m)
  case (Cons b bs)
  have "foldl (\<lambda>a b. a * 256 + unat b) m (b # bs) = (m * 256 + unat b) * 256 ^ length bs + be_val bs"
    by (simp add: Cons.IH)
  moreover have "be_val (b # bs) = unat b * 256 ^ length bs + be_val bs"
    unfolding be_val_def by (simp add: Cons.IH [of "unat b"] be_val_def)
  ultimately show ?case by (simp add: algebra_simps)
qed (simp add: be_val_def)

lemma be_val_Cons: "be_val (b # bs) = unat b * 256 ^ length bs + be_val bs"
  using foldl_be_val [of "unat b" bs] by (simp add: be_val_def)

lemma be_val_Nil [simp]: "be_val [] = 0"
  by (simp add: be_val_def)

lemma be_val_be_bytes: "be_val (be_bytes k n) = n mod 256 ^ k"
proof (induction k)
  case (Suc k)
  have "unat (of_nat (n div 256 ^ k) :: byte) = n div 256 ^ k mod 256"
    by (simp add: unat_of_nat)
  then have "be_val (be_bytes (Suc k) n) = n div 256 ^ k mod 256 * 256 ^ k + n mod 256 ^ k"
    by (simp add: be_val_Cons Suc)
  also have "\<dots> = n mod 256 ^ Suc k"
    using mod_mult2_eq [of n "256 ^ k" 256] by (simp add: algebra_simps)
  finally show ?case .
qed simp

section \<open>Padding and blocks, common to both hashes\<close>

definition sha_pad :: "bytes \<Rightarrow> bytes" where
  "sha_pad m =
     m @ [0x80] @ replicate ((119 - length m mod 64) mod 64) 0 @ be_bytes 8 (8 * length m)"

fun words32 :: "bytes \<Rightarrow> 32 word list" where
  "words32 (a # b # c # d # r) = of_nat (be_val [a, b, c, d]) # words32 r"
| "words32 _ = []"

function blocks16 :: "32 word list \<Rightarrow> 32 word list list" where
  "blocks16 ws = (if ws = [] then [] else take 16 ws # blocks16 (drop 16 ws))"
  by pat_completeness auto
termination
  by (relation "measure length") auto

declare blocks16.simps [simp del]

definition words_bytes :: "32 word list \<Rightarrow> bytes" where
  "words_bytes ws = concat (map (\<lambda>w. be_bytes 4 (unat w)) ws)"

text \<open>Extends the 16 words of a block, one word per step, by a function of the words so far.\<close>

primrec schedule :: "(32 word list \<Rightarrow> 32 word) \<Rightarrow> nat \<Rightarrow> 32 word list \<Rightarrow> 32 word list" where
  "schedule f 0 ws = ws"
| "schedule f (Suc n) ws = schedule f n (ws @ [f ws])"

lemma schedule_snoc: "schedule f n ws = ws @ drop (length ws) (schedule f n ws)"
proof (induction n arbitrary: ws)
  case (Suc n)
  have "schedule f n (ws @ [f ws]) = (ws @ [f ws]) @ drop (length (ws @ [f ws])) (schedule f n (ws @ [f ws]))"
    by (rule Suc.IH)
  then show ?case by (metis append.assoc append_eq_conv_conj schedule.simps(2))
qed simp

lemma length_schedule [simp]: "length (schedule f n ws) = length ws + n"
  by (induction n arbitrary: ws) simp_all

text \<open>Rotation by \<open>n\<close> bits, for \<open>0 < n < 32\<close>.\<close>

definition rotl :: "nat \<Rightarrow> 32 word \<Rightarrow> 32 word" where
  "rotl n w = push_bit n w OR drop_bit (32 - n) w"

definition rotr :: "nat \<Rightarrow> 32 word \<Rightarrow> 32 word" where
  "rotr n w = drop_bit n w OR push_bit (32 - n) w"

section \<open>SHA-1\<close>

definition sha1_next :: "32 word list \<Rightarrow> 32 word" where
  "sha1_next ws =
     (let t = length ws
      in rotl 1 (ws ! (t - 3) XOR ws ! (t - 8) XOR ws ! (t - 14) XOR ws ! (t - 16)))"

definition sha1_f :: "nat \<Rightarrow> 32 word \<Rightarrow> 32 word \<Rightarrow> 32 word \<Rightarrow> 32 word" where
  "sha1_f t b c d =
     (if t < 20 then (b AND c) OR (NOT b AND d)
      else if t < 40 then b XOR c XOR d
      else if t < 60 then (b AND c) OR (b AND d) OR (c AND d)
      else b XOR c XOR d)"

definition sha1_k :: "nat \<Rightarrow> 32 word" where
  "sha1_k t =
     (if t < 20 then 0x5a827999 else if t < 40 then 0x6ed9eba1 else if t < 60 then 0x8f1bbcdc else 0xca62c1d6)"

fun sha1_round ::
    "nat \<times> 32 word \<Rightarrow> 32 word \<times> 32 word \<times> 32 word \<times> 32 word \<times> 32 word \<Rightarrow>
     32 word \<times> 32 word \<times> 32 word \<times> 32 word \<times> 32 word" where
  "sha1_round (t, w) (a, b, c, d, e) =
     (rotl 5 a + sha1_f t b c d + e + sha1_k t + w, a, rotl 30 b, c, d)"

fun sha1_block ::
    "32 word list \<Rightarrow> 32 word \<times> 32 word \<times> 32 word \<times> 32 word \<times> 32 word \<Rightarrow>
     32 word \<times> 32 word \<times> 32 word \<times> 32 word \<times> 32 word" where
  "sha1_block ws (a, b, c, d, e) =
     (case fold sha1_round (zip [0..<80] (schedule sha1_next 64 ws)) (a, b, c, d, e) of
        (a', b', c', d', e') \<Rightarrow> (a + a', b + b', c + c', d + d', e + e'))"

definition sha1 :: "bytes \<Rightarrow> bytes" where
  "sha1 m =
     (case fold sha1_block (blocks16 (words32 (sha_pad m)))
             (0x67452301, 0xefcdab89, 0x98badcfe, 0x10325476, 0xc3d2e1f0) of
        (a, b, c, d, e) \<Rightarrow> words_bytes [a, b, c, d, e])"

section \<open>SHA-256\<close>

definition sha256_K :: "32 word list" where
  "sha256_K =
    [1116352408, 1899447441, 3049323471, 3921009573, 961987163, 1508970993, 2453635748, 2870763221,
     3624381080, 310598401, 607225278, 1426881987, 1925078388, 2162078206, 2614888103, 3248222580,
     3835390401, 4022224774, 264347078, 604807628, 770255983, 1249150122, 1555081692, 1996064986,
     2554220882, 2821834349, 2952996808, 3210313671, 3336571891, 3584528711, 113926993, 338241895,
     666307205, 773529912, 1294757372, 1396182291, 1695183700, 1986661051, 2177026350, 2456956037,
     2730485921, 2820302411, 3259730800, 3345764771, 3516065817, 3600352804, 4094571909, 275423344,
     430227734, 506948616, 659060556, 883997877, 958139571, 1322822218, 1537002063, 1747873779,
     1955562222, 2024104815, 2227730452, 2361852424, 2428436474, 2756734187, 3204031479, 3329325298]"

definition sha256_next :: "32 word list \<Rightarrow> 32 word" where
  "sha256_next ws =
     (let t = length ws;
          x = ws ! (t - 15);
          y = ws ! (t - 2)
      in (rotr 17 y XOR rotr 19 y XOR drop_bit 10 y) + ws ! (t - 7)
         + (rotr 7 x XOR rotr 18 x XOR drop_bit 3 x) + ws ! (t - 16))"

type_synonym sha256_state =
  "32 word \<times> 32 word \<times> 32 word \<times> 32 word \<times> 32 word \<times> 32 word \<times> 32 word \<times> 32 word"

fun sha256_round :: "32 word \<times> 32 word \<Rightarrow> sha256_state \<Rightarrow> sha256_state" where
  "sha256_round (k, w) (a, b, c, d, e, f, g, h) =
     (let t1 = h + (rotr 6 e XOR rotr 11 e XOR rotr 25 e) + ((e AND f) XOR (NOT e AND g)) + k + w;
          t2 = (rotr 2 a XOR rotr 13 a XOR rotr 22 a) + ((a AND b) XOR (a AND c) XOR (b AND c))
      in (t1 + t2, a, b, c, d + t1, e, f, g))"

fun sha256_block :: "32 word list \<Rightarrow> sha256_state \<Rightarrow> sha256_state" where
  "sha256_block ws (a, b, c, d, e, f, g, h) =
     (case fold sha256_round (zip sha256_K (schedule sha256_next 48 ws)) (a, b, c, d, e, f, g, h) of
        (a', b', c', d', e', f', g', h') \<Rightarrow>
          (a + a', b + b', c + c', d + d', e + e', f + f', g + g', h + h'))"

definition sha256 :: "bytes \<Rightarrow> bytes" where
  "sha256 m =
     (case fold sha256_block (blocks16 (words32 (sha_pad m)))
             (0x6a09e667, 0xbb67ae85, 0x3c6ef372, 0xa54ff53a,
              0x510e527f, 0x9b05688c, 0x1f83d9ab, 0x5be0cd19) of
        (a, b, c, d, e, f, g, h) \<Rightarrow> words_bytes [a, b, c, d, e, f, g, h])"

section \<open>HMAC-SHA-256\<close>

definition hmac_sha256 :: "bytes \<Rightarrow> bytes \<Rightarrow> bytes" where
  "hmac_sha256 key m =
     (let k = (if 64 < length key then sha256 key else key);
          k64 = k @ replicate (64 - length k) 0
      in sha256 (map (\<lambda>b. b XOR 0x5c) k64 @ sha256 (map (\<lambda>b. b XOR 0x36) k64 @ m)))"

section \<open>Lengths\<close>

lemma length_words_bytes [simp]: "length (words_bytes ws) = 4 * length ws"
  by (induction ws) (simp_all add: words_bytes_def)

lemma length_sha1 [simp]: "length (sha1 m) = 20"
  by (simp add: sha1_def split: prod.split)

lemma length_sha256 [simp]: "length (sha256 m) = 32"
  by (simp add: sha256_def split: prod.split)

lemma length_hmac_sha256 [simp]: "length (hmac_sha256 k m) = 32"
  unfolding hmac_sha256_def Let_def by (rule length_sha256)

section \<open>Evaluating a hash on a literal message\<close>

lemma hash_numeral:
  "replicate (numeral k) x = x # replicate (pred_numeral k) x"
  "be_bytes (numeral k) n = of_nat (n div 256 ^ pred_numeral k) # be_bytes (pred_numeral k) n"
  "schedule f (numeral k) ws = schedule f (pred_numeral k) (ws @ [f ws])"
  "be_bytes 1 n = [of_nat n]"
  "schedule f 1 ws = ws @ [f ws]"
  by (simp_all add: numeral_eq_Suc One_nat_def)

lemmas hash_eval =
  hash_numeral sha_pad_def be_val_def blocks16.simps sha1_next_def sha1_f_def sha1_k_def rotl_def rotr_def
  words_bytes_def upt_conv_Cons

end
