(* ===== verification/Ws_Framing.thy ===== *)
theory Ws_Framing
  imports Base64_Hex Py_Hash
begin

text \<open>
  forwarder/app/ws/raw\_ws.py: the WebSocket opening handshake and framing (RFC 6455), and the connection
  object \<open>RawWebSocket\<close>. An asyncio stream is the list of the chunks its \<open>read\<close> calls return, an empty
  chunk being the end of the stream; when the list runs out, the call is still waiting.
\<close>

unbundle bit_operations_syntax

section \<open>Opcodes\<close>

datatype Opcode = TEXT | BINARY | CLOSE | PING | PONG

fun opcode_value :: "Opcode \<Rightarrow> byte" where
  "opcode_value TEXT = 0x1"
| "opcode_value BINARY = 0x2"
| "opcode_value CLOSE = 0x8"
| "opcode_value PING = 0x9"
| "opcode_value PONG = 0xA"

text \<open>\<open>Opcode(v)\<close>: continuation frames and reserved opcodes are no members of the enum.\<close>

definition opcode_of :: "byte \<Rightarrow> Opcode res" where
  "opcode_of v =
     (case find (\<lambda>o'. opcode_value o' = v) [TEXT, BINARY, CLOSE, PING, PONG] of
        None \<Rightarrow> Inl ValueError | Some o' \<Rightarrow> Inr o')"

section \<open>The opening handshake\<close>

definition WS_GUID :: pystr where
  "WS_GUID = lit ''258EAFA5-E914-47DA-95CA-C5AB0DC85B11''"

definition compute_accept_key :: "pystr \<Rightarrow> pystr res" where
  "compute_accept_key client_key =
     rbind (utf8_encode (client_key @ WS_GUID)) (\<lambda>data. Inr (std_b64encode (sha1 data)))"

text \<open>\<open>str.lower\<close> on the text of a Latin-1 decoded request.\<close>

definition lower_char :: "nat \<Rightarrow> nat" where
  "lower_char c = (if (65 \<le> c \<and> c \<le> 90) \<or> (192 \<le> c \<and> c \<le> 222 \<and> c \<noteq> 215) then c + 32 else c)"

definition py_lower :: "pystr \<Rightarrow> pystr" where
  "py_lower s = map lower_char s"

text \<open>The header lines: a line with \<open>": "\<close> is a header, the first empty line ends them, any other line
  is skipped.\<close>

fun header_lines :: "pystr list \<Rightarrow> (pystr, pystr) dict \<Rightarrow> (pystr, pystr) dict" where
  "header_lines [] hs = hs"
| "header_lines (l # ls) hs =
     (case split_first2 58 32 l of
        Some (key, value) \<Rightarrow> header_lines ls (AList.update (py_lower key) value hs)
      | None \<Rightarrow> if l = [] then hs else header_lines ls hs)"

definition parse_http_upgrade :: "bytes \<Rightarrow> (pystr, pystr) dict option" where
  "parse_http_upgrade data =
     (let lines = split2 13 10 (latin1_decode data);
          parts = split_char 32 (hd lines)
      in if length parts < 3 then None
         else Some (header_lines (tl lines)
                [(lit ''_method'', parts ! 0), (lit ''_path'', parts ! 1), (lit ''_version'', parts ! 2)]))"

definition CRLF :: pystr where "CRLF = [13, 10]"

definition build_upgrade_response :: "pystr \<Rightarrow> bytes res" where
  "build_upgrade_response accept_key =
     utf8_encode
       (lit ''HTTP/1.1 101 Switching Protocols'' @ CRLF @
        lit ''Upgrade: websocket'' @ CRLF @
        lit ''Connection: Upgrade'' @ CRLF @
        lit ''Sec-WebSocket-Accept: '' @ accept_key @ CRLF @
        CRLF)"

section \<open>Frames\<close>

text \<open>The length field: 7 bits, 16 bits, or 64 bits (\<open>struct.pack("!Q")\<close>; no byte string reaches
  the 64-bit limit).\<close>

definition encode_frame :: "bytes \<Rightarrow> Opcode \<Rightarrow> bytes" where
  "encode_frame payload opcode =
     (let len = length payload
      in [0x80 OR opcode_value opcode]
         @ (if len < 126 then [of_nat len]
            else if len < 65536 then 126 # be_bytes 2 len
            else 127 # be_bytes 8 len)
         @ payload)"

text \<open>\<open>payload[i] ^= mask_key[i % 4]\<close> for every index.\<close>

definition unmask :: "bytes \<Rightarrow> bytes \<Rightarrow> bytes" where
  "unmask mask_key payload = map (\<lambda>i. payload ! i XOR mask_key ! (i mod 4)) [0..<length payload]"

text \<open>The end of \<open>decode_frame\<close>, once the length is known and the header is \<open>pos\<close> bytes long.\<close>

definition decode_body :: "Opcode \<Rightarrow> bool \<Rightarrow> nat \<Rightarrow> nat \<Rightarrow> bytes \<Rightarrow> (Opcode \<times> bytes) option" where
  "decode_body opcode masked pos len data =
     (if masked \<and> length data < pos + 4 then None
      else
        (let mask_key = (if masked then take 4 (drop pos data) else []);
             pos1 = (if masked then pos + 4 else pos)
         in if length data < pos1 + len then None
            else
              (let payload = take len (drop pos1 data)
               in Some (opcode, if mask_key \<noteq> [] then unmask mask_key payload else payload))))"

definition decode_frame :: "bytes \<Rightarrow> (Opcode \<times> bytes) option res" where
  "decode_frame data =
     (if length data < 2 then Inr None
      else
        rbind (opcode_of (data ! 0 AND 0x0F)) (\<lambda>opcode.
          let masked = (data ! 1 AND 0x80 \<noteq> 0);
              len = unat (data ! 1 AND 0x7F)
          in if len = 126 then
               (if length data < 4 then Inr None
                else Inr (decode_body opcode masked 4 (be_val (take 2 (drop 2 data))) data))
             else if len = 127 then
               (if length data < 10 then Inr None
                else Inr (decode_body opcode masked 10 (be_val (take 8 (drop 2 data))) data))
             else Inr (decode_body opcode masked 2 len data)))"

section \<open>The connection\<close>

record raw_ws =
  rw_reader :: "bytes list"
  rw_out :: bytes
  rw_closed :: bool
  rw_writer_closed :: bool

text \<open>What a call that reads ends with: a value, no value (\<open>None\<close>), an exception, or still waiting.\<close>

datatype 'a io = Done 'a | Closed | Failed exc | Waiting

text \<open>\<open>recv\<close>: the buffer starts empty; after a control frame or a PONG it is emptied again, whatever
  else it held.\<close>

fun recv_loop :: "bytes \<Rightarrow> bytes list \<Rightarrow> raw_ws \<Rightarrow> pystr io \<times> raw_ws" where
  "recv_loop buf [] ws = (Waiting, ws\<lparr>rw_reader := []\<rparr>)"
| "recv_loop buf (chunk # chunks) ws =
     (if chunk = [] then (Closed, ws\<lparr>rw_reader := chunks, rw_closed := True\<rparr>)
      else
        (let buf1 = buf @ chunk
         in case decode_frame buf1 of
              Inl e \<Rightarrow> (Failed e, ws\<lparr>rw_reader := chunks\<rparr>)
            | Inr None \<Rightarrow> recv_loop buf1 chunks ws
            | Inr (Some (opcode, payload)) \<Rightarrow>
                if opcode = CLOSE then (Closed, ws\<lparr>rw_reader := chunks, rw_closed := True\<rparr>)
                else if opcode = PING then
                  recv_loop [] chunks (ws\<lparr>rw_out := rw_out ws @ encode_frame payload PONG\<rparr>)
                else if opcode = TEXT \<or> opcode = BINARY then
                  ((case utf8_decode payload of Inl e \<Rightarrow> Failed e | Inr s \<Rightarrow> Done s), ws\<lparr>rw_reader := chunks\<rparr>)
                else recv_loop [] chunks ws))"

definition ws_recv :: "raw_ws \<Rightarrow> pystr io \<times> raw_ws" where
  "ws_recv ws = recv_loop [] (rw_reader ws) ws"

definition ws_send :: "raw_ws \<Rightarrow> pystr \<Rightarrow> unit res \<times> raw_ws" where
  "ws_send ws text =
     (case utf8_encode text of
        Inl e \<Rightarrow> (Inl e, ws)
      | Inr data \<Rightarrow> (Inr (), ws\<lparr>rw_out := rw_out ws @ encode_frame data TEXT\<rparr>))"

definition ws_close :: "raw_ws \<Rightarrow> raw_ws" where
  "ws_close ws =
     (if \<not> rw_closed ws
      then ws\<lparr>rw_out := rw_out ws @ encode_frame [] CLOSE, rw_writer_closed := True, rw_closed := True\<rparr>
      else ws)"

text \<open>\<open>from_upgrade\<close>: reads until the blank line or 8192 bytes, answers, and hands the streams over;
  what was read after the blank line is dropped.\<close>

fun has_blank_line :: "bytes \<Rightarrow> bool" where
  "has_blank_line (a # b # c # d # r) =
     (a = 13 \<and> b = 10 \<and> c = 13 \<and> d = 10 \<or> has_blank_line (b # c # d # r))"
| "has_blank_line _ = False"

fun read_request :: "bytes \<Rightarrow> bytes list \<Rightarrow> bytes io \<times> bytes list" where
  "read_request data chunks =
     (if has_blank_line data \<or> 8192 \<le> length data then (Done data, chunks)
      else
        (case chunks of
           [] \<Rightarrow> (Waiting, [])
         | chunk # cs \<Rightarrow> if chunk = [] then (Closed, cs) else read_request (data @ chunk) cs))"

declare read_request.simps [simp del]

definition from_upgrade :: "bytes list \<Rightarrow> raw_ws io" where
  "from_upgrade chunks =
     (case read_request [] chunks of
        (Waiting, _) \<Rightarrow> Waiting
      | (Closed, _) \<Rightarrow> Closed
      | (Failed e, _) \<Rightarrow> Failed e
      | (Done data, rest) \<Rightarrow>
          (case parse_http_upgrade data of
             None \<Rightarrow> Closed
           | Some headers \<Rightarrow>
               (case map_of headers (lit ''sec-websocket-key'') of
                  None \<Rightarrow> Closed
                | Some client_key \<Rightarrow>
                    if client_key = [] then Closed
                    else
                      (case rbind (compute_accept_key client_key) build_upgrade_response of
                         Inl e \<Rightarrow> Failed e
                       | Inr response \<Rightarrow>
                           Done \<lparr>rw_reader = rest, rw_out = response, rw_closed = False,
                                 rw_writer_closed = False\<rparr>))))"

section \<open>The wire format, as a specification\<close>

text \<open>
  A frame as RFC 6455 lays it out: an unmasked one (from a server) or one masked with a 4-byte key (from a
  client). \<open>decode_frame\<close> is proved against it, and \<open>encode_frame\<close> is its unmasked half.
\<close>

definition frame_header :: "byte \<Rightarrow> Opcode \<Rightarrow> nat \<Rightarrow> bytes" where
  "frame_header m opcode n =
     (0x80 OR opcode_value opcode)
     # (if n < 126 then [m OR of_nat n]
        else if n < 65536 then (m OR 126) # be_bytes 2 n
        else (m OR 127) # be_bytes 8 n)"

definition wire_frame :: "bytes option \<Rightarrow> Opcode \<Rightarrow> bytes \<Rightarrow> bytes" where
  "wire_frame key opcode p =
     (case key of
        None \<Rightarrow> frame_header 0 opcode (length p) @ p
      | Some k \<Rightarrow> frame_header 0x80 opcode (length p) @ k @ unmask k p)"

lemma encode_frame_wire: "encode_frame p opcode = wire_frame None opcode p"
  by (simp add: encode_frame_def wire_frame_def frame_header_def Let_def)

lemma opcode_of_value [simp]: "opcode_of ((0x80 OR opcode_value opcode) AND 0x0F) = Inr opcode"
  by (cases opcode) (simp_all add: opcode_of_def)

lemma opcode_of_value' [simp]: "opcode_of (opcode_value opcode) = Inr opcode"
  by (cases opcode) (simp_all add: opcode_of_def)

lemma length_bits_all:
  "list_all (\<lambda>n. unat ((of_nat n :: byte) AND 0x7F) = n \<and> unat ((0x80 OR of_nat n :: byte) AND 0x7F) = n \<and>
     (of_nat n :: byte) AND 0x80 = 0 \<and> (0x80 OR of_nat n :: byte) AND 0x80 \<noteq> 0) [0..<128]"
  by (simp add: upt_conv_Cons)

lemma length_bits:
  assumes "n < 128" and "m = 0 \<or> m = (0x80 :: byte)"
  shows "unat ((m OR of_nat n) AND 0x7F) = n" and "(m OR of_nat n) AND 0x80 \<noteq> 0 \<longleftrightarrow> m \<noteq> 0"
  using length_bits_all assms by (auto simp: list_all_iff)

lemma length_header:
  "length (frame_header m opcode n) = (if n < 126 then 2 else if n < 65536 then 4 else 10)"
  by (simp add: frame_header_def)

lemma be_val_2: "n < 65536 \<Longrightarrow> be_val (be_bytes 2 n) = n"
  by (simp add: be_val_be_bytes)

lemma be_val_8: "n < 2 ^ 64 \<Longrightarrow> be_val (be_bytes 8 n) = n"
  by (simp add: be_val_be_bytes)

lemma decode_header:
  assumes m: "m = 0 \<or> m = (0x80 :: byte)" and n: "n < 2 ^ 64"
  shows "decode_frame (frame_header m opcode n @ rest) =
    Inr (decode_body opcode (m \<noteq> 0) (length (frame_header m opcode n)) n (frame_header m opcode n @ rest))"
proof -
  consider "n < 126" | "126 \<le> n" "n < 65536" | "65536 \<le> n" by linarith
  then show ?thesis
  proof cases
    case 1
    then show ?thesis using length_bits [of n m] m
      by (simp add: decode_frame_def frame_header_def Let_def numeral_2_eq_2)
  next
    case 2
    then show ?thesis using length_bits [of 126 m] m
      by (simp add: decode_frame_def frame_header_def Let_def be_val_2)
  next
    case 3
    then show ?thesis using length_bits [of 127 m] m n
      by (simp add: decode_frame_def frame_header_def Let_def be_val_8)
  qed
qed

lemma length_unmask [simp]: "length (unmask k p) = length p"
  by (simp add: unmask_def)

lemma unmask_unmask: "unmask k (unmask k p) = p"
  by (rule nth_equalityI) (simp_all add: unmask_def xor.assoc)

definition key_ok :: "bytes option \<Rightarrow> bool" where
  "key_ok key = (case key of None \<Rightarrow> True | Some k \<Rightarrow> length k = 4)"

lemma decode_wire:
  assumes "key_ok key" and "length p < 2 ^ 64"
  shows "decode_frame (wire_frame key opcode p @ rest) = Inr (Some (opcode, p))"
proof (cases key)
  case None
  then show ?thesis using assms(2)
    by (simp add: wire_frame_def decode_header decode_body_def Let_def)
next
  case (Some k)
  then have k: "length k = 4" "k \<noteq> []" using assms(1) by (auto simp: key_ok_def)
  then show ?thesis using assms(2) Some
    by (simp add: wire_frame_def decode_header decode_body_def Let_def unmask_unmask)
qed

lemma decode_short_header:
  assumes m: "m = 0 \<or> m = (0x80 :: byte)" and j: "j < length (frame_header m opcode n)"
  shows "decode_frame (take j (frame_header m opcode n)) = Inr None"
proof (cases "j < 2")
  case True
  then have "length (take j (frame_header m opcode n)) < 2" by simp
  then show ?thesis by (simp add: decode_frame_def)
next
  case False
  then obtain i where i: "j = Suc (Suc i)" by (metis add_2_eq_Suc le_Suc_ex not_less)
  then have n: "126 \<le> n" using j by (auto simp: length_header split: if_splits)
  show ?thesis
  proof (cases "n < 65536")
    case True
    then show ?thesis using j n i length_bits [of 126 m] m
      by (simp add: length_header frame_header_def decode_frame_def Let_def)
  next
    case False
    then show ?thesis using j n i length_bits [of 127 m] m
      by (simp add: length_header frame_header_def decode_frame_def Let_def)
  qed
qed

lemma decode_wire_prefix:
  assumes "key_ok key" and "length p < 2 ^ 64" and "j < length (wire_frame key opcode p)"
  shows "decode_frame (take j (wire_frame key opcode p)) = Inr None"
proof -
  define m :: byte where "m = (case key of None \<Rightarrow> 0 | Some k \<Rightarrow> 0x80)"
  define body where "body = (case key of None \<Rightarrow> p | Some k \<Rightarrow> k @ unmask k p)"
  let ?h = "frame_header m opcode (length p)"
  have w: "wire_frame key opcode p = ?h @ body"
    by (simp add: wire_frame_def m_def body_def split: option.split)
  have m: "m = 0 \<or> m = 0x80" by (simp add: m_def split: option.split)
  show ?thesis
  proof (cases "j < length ?h")
    case True
    then show ?thesis using decode_short_header [OF m True] by (simp add: w)
  next
    case False
    then have "take j (wire_frame key opcode p) = ?h @ take (j - length ?h) body" by (simp add: w)
    moreover have "decode_body opcode (m \<noteq> 0) (length ?h) (length p) (?h @ take (j - length ?h) body) = None"
      using assms(1,3) False
      by (auto simp: decode_body_def Let_def w m_def body_def key_ok_def split: option.splits)
    ultimately show ?thesis using decode_header [OF m assms(2)] by simp
  qed
qed

lemma recv_loop_chunks:
  assumes "key_ok key" and "length data < 2 ^ 64" and "opcode = TEXT \<or> opcode = BINARY"
  shows "buf @ concat chunks = wire_frame key opcode data \<Longrightarrow> chunks \<noteq> [] \<Longrightarrow> [] \<notin> set chunks \<Longrightarrow>
    recv_loop buf (chunks @ rest) ws =
      ((case utf8_decode data of Inl e \<Rightarrow> Failed e | Inr s \<Rightarrow> Done s), ws\<lparr>rw_reader := rest\<rparr>)"
proof (induction chunks arbitrary: buf)
  case (Cons c cs)
  show ?case
  proof (cases "cs = []")
    case True
    then have "buf @ c = wire_frame key opcode data" using Cons.prems(1) by simp
    then show ?thesis
      using True Cons.prems(3) assms(3) decode_wire [OF assms(1,2), of opcode "[]"] by auto
  next
    case False
    have ne: "concat cs \<noteq> []" using False Cons.prems(3) by (cases cs) auto
    have "buf @ c = take (length (buf @ c)) (wire_frame key opcode data)"
      unfolding Cons.prems(1) [symmetric] by simp
    moreover have "length (buf @ c) < length (wire_frame key opcode data)"
      unfolding Cons.prems(1) [symmetric] using ne by simp
    ultimately have "decode_frame (buf @ c) = Inr None"
      using decode_wire_prefix [OF assms(1,2)] by metis
    moreover have "recv_loop (buf @ c) (cs @ rest) ws =
        ((case utf8_decode data of Inl e \<Rightarrow> Failed e | Inr s \<Rightarrow> Done s), ws\<lparr>rw_reader := rest\<rparr>)"
      using Cons.IH [of "buf @ c"] Cons.prems False by simp
    ultimately show ?thesis using Cons.prems(3) by auto
  qed
qed simp

section \<open>Properties\<close>

text \<open>C37. Frames survive the wire: whatever the length class (7, 16 or 64 bits), masked with any 4-byte key or not,
  \<open>decode_frame\<close> gives back the opcode and the payload of an RFC 6455 frame and ignores what follows; it reports every
  strict prefix of a frame as incomplete; and \<open>encode_frame\<close> writes exactly the unmasked frame.\<close>

theorem frame_roundtrip:
  assumes "key_ok key" and "length payload < 2 ^ 64" and "j < length (wire_frame key opcode payload)"
  shows "decode_frame (wire_frame key opcode payload @ following) = Inr (Some (opcode, payload)) \<and>
    decode_frame (take j (wire_frame key opcode payload)) = Inr None \<and>
    encode_frame payload opcode = wire_frame None opcode payload"
  using decode_wire [OF assms(1,2)] decode_wire_prefix [OF assms] by (simp add: encode_frame_wire)

theorem frame_roundtrip_witness:
  "decode_frame (wire_frame (Some [1, 2, 3, 4]) TEXT (replicate 200 7) @ [9]) = Inr (Some (TEXT, replicate 200 7)) \<and>
   decode_frame (take 150 (wire_frame (Some [1, 2, 3, 4]) TEXT (replicate 200 7))) = Inr None \<and>
   encode_frame (replicate 200 7) TEXT = wire_frame None TEXT (replicate 200 7)"
proof (rule frame_roundtrip)
  show "key_ok (Some [1, 2, 3, 4])" by (simp add: key_ok_def)
  show "length (replicate 200 (7 :: byte)) < 2 ^ 64" by simp
  show "150 < length (wire_frame (Some [1, 2, 3, 4]) TEXT (replicate 200 7))" by (simp add: wire_frame_def)
qed

text \<open>\<open>recv\<close> does not depend on how the network cuts a message: a masked text frame that arrives in
  any non-empty chunks is received as its text, nothing is written, and the chunks after it are left in the stream.\<close>

lemma recv_any_chunking:
  assumes "length k = 4" and "utf8_encode s = Inr data" and "length data < 2 ^ 64"
    and "concat chunks = wire_frame (Some k) TEXT data" and "[] \<notin> set chunks"
    and "rw_reader ws = chunks @ rest"
  shows "ws_recv ws = (Done s, ws\<lparr>rw_reader := rest\<rparr>)"
proof -
  have "chunks \<noteq> []" using assms(4) by (auto simp: wire_frame_def frame_header_def)
  then show ?thesis
    using recv_loop_chunks [of "Some k" data TEXT "[]" chunks rest ws] assms utf8_decode_encode [OF assms(2)]
    by (simp add: ws_recv_def key_ok_def)
qed

lemma recv_any_chunking_example:
  "ws_recv \<lparr>rw_reader = [[0x81], [0x82, 1], [2, 3, 4, 0x49], [0x6b], [5]], rw_out = [], rw_closed = False, rw_writer_closed = False\<rparr> =
   (Done (lit ''Hi''), \<lparr>rw_reader = [[5]], rw_out = [], rw_closed = False, rw_writer_closed = False\<rparr>)"
proof -
  have u: "utf8_encode (lit ''Hi'') = Inr [0x48, 0x69]" by (simp add: lit_def utf8_char_def)
  have m: "unmask [1, 2, 3, 4] [0x48, 0x69] = [0x49, 0x6b]" by (simp add: unmask_def upt_conv_Cons)
  have "ws_recv \<lparr>rw_reader = [[0x81], [0x82, 1], [2, 3, 4, 0x49], [0x6b], [5]], rw_out = [], rw_closed = False, rw_writer_closed = False\<rparr> =
    (Done (lit ''Hi''), \<lparr>rw_reader = [[0x81], [0x82, 1], [2, 3, 4, 0x49], [0x6b], [5]], rw_out = [], rw_closed = False, rw_writer_closed = False\<rparr>\<lparr>rw_reader := [[5]]\<rparr>)"
    by (rule recv_any_chunking [where k = "[1, 2, 3, 4]" and data = "[0x48, 0x69]"
        and chunks = "[[0x81], [0x82, 1], [2, 3, 4, 0x49], [0x6b]]"])
      (simp_all add: u m wire_frame_def frame_header_def)
  then show ?thesis by simp
qed

text \<open>What shares a chunk with a message is lost: anything that follows a text frame in the same chunk is
  dropped when \<open>recv\<close> returns, and a text frame that follows a PING in the same chunk is dropped when the PONG is
  sent, so pipelined messages disappear without an error.\<close>

lemma pipelined_frames_lost:
  assumes "key_ok k" and "utf8_encode s = Inr data" and "length data < 2 ^ 64" and "length ping < 2 ^ 64"
  shows "ws_recv (ws\<lparr>rw_reader := (wire_frame k TEXT data @ following) # chunks\<rparr>) =
      (Done s, ws\<lparr>rw_reader := chunks\<rparr>) \<and>
    ws_recv (ws\<lparr>rw_reader := (wire_frame k PING ping @ following) # chunks\<rparr>) =
      ws_recv (ws\<lparr>rw_reader := chunks, rw_out := rw_out ws @ wire_frame None PONG ping\<rparr>)"
proof -
  have ne: "wire_frame k c x \<noteq> []" for c x
    by (simp add: wire_frame_def frame_header_def split: option.split)
  have comm: "w\<lparr>rw_reader := a, rw_out := b\<rparr> = w\<lparr>rw_out := b, rw_reader := a\<rparr>" for w :: raw_ws and a b
    by simp
  have upd: "recv_loop buf cs (w\<lparr>rw_reader := a\<rparr>) = recv_loop buf cs w" for buf cs w a
    by (induction buf cs w rule: recv_loop.induct)
      (auto simp: Let_def comm split: sum.split option.split)
  show ?thesis
    using ne upd decode_wire [OF assms(1,3), of TEXT following] decode_wire [OF assms(1,4), of PING following]
      utf8_decode_encode [OF assms(2)]
    by (simp add: ws_recv_def encode_frame_wire comm)
qed

lemma pipelined_frames_lost_example:
  "ws_recv \<lparr>rw_reader = [wire_frame None TEXT [0x48] @ wire_frame None TEXT [0x49]], rw_out = [], rw_closed = False, rw_writer_closed = False\<rparr> =
   (Done (lit ''H''), \<lparr>rw_reader = [], rw_out = [], rw_closed = False, rw_writer_closed = False\<rparr>)"
  using pipelined_frames_lost [where k = None and s = "lit ''H''" and data = "[0x48]" and ping = "[]"
      and ws = "\<lparr>rw_reader = [], rw_out = [], rw_closed = False, rw_writer_closed = False\<rparr>"
      and following = "wire_frame None TEXT [0x49]" and chunks = "[]"]
  by (simp add: key_ok_def lit_def utf8_char_def)

end
