(* ===== verification/Ws_Accept_Sample.thy ===== *)
theory Ws_Accept_Sample
  imports Ws_Framing
begin

text \<open>
  The accept key of the opening handshake (\<open>compute_accept_key\<close> of forwarder/app/ws/raw\_ws.py) computed by the
  kernel on the sample of RFC 6455, in a theory of its own because the two blocks of SHA-1 take a minute.
\<close>

section \<open>The handshake on the sample of RFC 6455\<close>

text \<open>The sample key of section 1.3 of the RFC with the GUID, padded, is two blocks of SHA-1; the hash is
  computed block by block.\<close>

lemma sample_blocks:
  "blocks16 (words32 (sha_pad
     [0x64, 0x47, 0x68, 0x6c, 0x49, 0x48, 0x4e, 0x68, 0x62, 0x58, 0x42, 0x73, 0x5a, 0x53, 0x42, 0x75,
      0x62, 0x32, 0x35, 0x6a, 0x5a, 0x51, 0x3d, 0x3d, 0x32, 0x35, 0x38, 0x45, 0x41, 0x46, 0x41, 0x35,
      0x2d, 0x45, 0x39, 0x31, 0x34, 0x2d, 0x34, 0x37, 0x44, 0x41, 0x2d, 0x39, 0x35, 0x43, 0x41, 0x2d,
      0x43, 0x35, 0x41, 0x42, 0x30, 0x44, 0x43, 0x38, 0x35, 0x42, 0x31, 0x31])) =
   [[0x6447686c, 0x49484e68, 0x62584273, 0x5a534275, 0x6232356a, 0x5a513d3d, 0x32353845, 0x41464135,
     0x2d453931, 0x342d3437, 0x44412d39, 0x3543412d, 0x43354142, 0x30444338, 0x35423131, 0x80000000],
    [0x0, 0x0, 0x0, 0x0, 0x0, 0x0, 0x0, 0x0, 0x0, 0x0, 0x0, 0x0, 0x0, 0x0, 0x0, 0x1e0]]"
  by (simp add: hash_eval)

lemma sample_block1:
  "sha1_block
     [0x6447686c, 0x49484e68, 0x62584273, 0x5a534275, 0x6232356a, 0x5a513d3d, 0x32353845, 0x41464135,
      0x2d453931, 0x342d3437, 0x44412d39, 0x3543412d, 0x43354142, 0x30444338, 0x35423131, 0x80000000]
     (0x67452301, 0xefcdab89, 0x98badcfe, 0x10325476, 0xc3d2e1f0) =
   (0x5bcf7727, 0x7327416a, 0xbe7bfbf9, 0x5a781878, 0x5e46a4e2)"
  by (simp add: hash_eval)

lemma sample_block2:
  "sha1_block
     [0x0, 0x0, 0x0, 0x0, 0x0, 0x0, 0x0, 0x0, 0x0, 0x0, 0x0, 0x0, 0x0, 0x0, 0x0, 0x1e0]
     (0x5bcf7727, 0x7327416a, 0xbe7bfbf9, 0x5a781878, 0x5e46a4e2) =
   (0xb37a4f2c, 0xc0624f16, 0x90f64606, 0xcf385945, 0xb2bec4ea)"
  by (simp add: hash_eval)

lemma sample_sha1:
  "sha1
     [0x64, 0x47, 0x68, 0x6c, 0x49, 0x48, 0x4e, 0x68, 0x62, 0x58, 0x42, 0x73, 0x5a, 0x53, 0x42, 0x75,
      0x62, 0x32, 0x35, 0x6a, 0x5a, 0x51, 0x3d, 0x3d, 0x32, 0x35, 0x38, 0x45, 0x41, 0x46, 0x41, 0x35,
      0x2d, 0x45, 0x39, 0x31, 0x34, 0x2d, 0x34, 0x37, 0x44, 0x41, 0x2d, 0x39, 0x35, 0x43, 0x41, 0x2d,
      0x43, 0x35, 0x41, 0x42, 0x30, 0x44, 0x43, 0x38, 0x35, 0x42, 0x31, 0x31] =
   [0xb3, 0x7a, 0x4f, 0x2c, 0xc0, 0x62, 0x4f, 0x16, 0x90, 0xf6, 0x46, 0x6, 0xcf, 0x38, 0x59, 0x45,
    0xb2, 0xbe, 0xc4, 0xea]"
  unfolding sha1_def sample_blocks
  by (simp add: sample_block1 sample_block2 del: sha1_block.simps) (simp add: words_bytes_def hash_numeral)

text \<open>The accept key is the one RFC 6455 prescribes: for the sample key of its section 1.3,
  \<open>compute_accept_key\<close> computes the sample answer.\<close>

lemma accept_key_rfc_sample:
  "compute_accept_key (lit ''dGhlIHNhbXBsZSBub25jZQ=='') = Inr (lit ''s3pPLMBiTxaQ9kYGzzhZRbK+xOo='')"
proof -
  have "utf8_encode (lit ''dGhlIHNhbXBsZSBub25jZQ=='' @ WS_GUID) = Inr
     [0x64, 0x47, 0x68, 0x6c, 0x49, 0x48, 0x4e, 0x68, 0x62, 0x58, 0x42, 0x73, 0x5a, 0x53, 0x42, 0x75,
      0x62, 0x32, 0x35, 0x6a, 0x5a, 0x51, 0x3d, 0x3d, 0x32, 0x35, 0x38, 0x45, 0x41, 0x46, 0x41, 0x35,
      0x2d, 0x45, 0x39, 0x31, 0x34, 0x2d, 0x34, 0x37, 0x44, 0x41, 0x2d, 0x39, 0x35, 0x43, 0x41, 0x2d,
      0x43, 0x35, 0x41, 0x42, 0x30, 0x44, 0x43, 0x38, 0x35, 0x42, 0x31, 0x31]"
    by (simp add: lit_def WS_GUID_def utf8_char_def)
  then show ?thesis
    by (simp add: compute_accept_key_def sample_sha1) (simp add: b64_char_def lit_def)
qed

end
