(* ===== verification/Crypto_Primitives.thy ===== *)
theory Crypto_Primitives
  imports Base64_Hex Py_Hash
begin

text \<open>
  forwarder/app/crypto/aes_gcm.py, ecdsa.py and ecdh.py: the wrappers around the cryptography
  package. The package itself is not part of the repository: it is the record \<open>prims\<close>, an
  argument of every definition that calls it. What its documentation promises and the
  repository relies on is stated as \<open>gcm_ok\<close>, \<open>ecdsa_ok\<close> and \<open>pem_ok\<close> and assumed by name where it is used.
  Randomness is an argument as well: the bytes a call of \<open>os.urandom\<close>, of the
  signing function or of the key generator consumes.
\<close>

section \<open>The cryptography package, as a parameter\<close>

text \<open>
  \<open>p_seal\<close> and \<open>p_open\<close> are \<open>AESGCM(key).encrypt\<close> and \<open>decrypt\<close> (ciphertext and tag in one
  string); \<open>p_load_priv\<close> and \<open>p_load_pub\<close> read PEM data; \<open>p_sign\<close> signs with
  ECDSA over SHA-256; \<open>p_verify\<close> is False where the package raises.
\<close>

record ('sk, 'pk) prims =
  p_seal :: "bytes \<Rightarrow> bytes \<Rightarrow> bytes \<Rightarrow> bytes res"
  p_open :: "bytes \<Rightarrow> bytes \<Rightarrow> bytes \<Rightarrow> bytes res"
  p_load_priv :: "bytes \<Rightarrow> 'sk res"
  p_load_pub :: "bytes \<Rightarrow> 'pk res"
  p_generate :: "bytes \<Rightarrow> 'sk"
  p_public :: "'sk \<Rightarrow> 'pk"
  p_is_ec :: "'pk \<Rightarrow> bool"
  p_sign :: "'sk \<Rightarrow> bytes \<Rightarrow> bytes \<Rightarrow> bytes res"
  p_verify :: "'pk \<Rightarrow> bytes \<Rightarrow> bytes \<Rightarrow> bool"
  p_exchange :: "'sk \<Rightarrow> 'pk \<Rightarrow> bytes res"
  p_priv_pem :: "'sk \<Rightarrow> bytes"
  p_pub_pem :: "'pk \<Rightarrow> pystr"
  p_pub_der :: "'pk \<Rightarrow> bytes"
  p_load_der :: "bytes \<Rightarrow> 'pk res"

definition gcm_ok :: "('sk, 'pk) prims \<Rightarrow> bool" where
  "gcm_ok P \<longleftrightarrow>
     (\<forall>k iv m. length k = 32 \<longrightarrow> length iv = 12 \<longrightarrow> length m < 2 ^ 31 \<longrightarrow>
        (\<exists>c. p_seal P k iv m = Inr c \<and> length c = length m + 16 \<and> p_open P k iv c = Inr m))"

definition ecdsa_ok :: "('sk, 'pk) prims \<Rightarrow> bool" where
  "ecdsa_ok P \<longleftrightarrow>
     (\<forall>sk r d s. p_sign P sk r d = Inr s \<longrightarrow> p_verify P (p_public P sk) s d)"

definition pem_ok :: "('sk, 'pk) prims \<Rightarrow> bool" where
  "pem_ok P \<longleftrightarrow>
     (\<forall>sk. p_load_priv P (p_priv_pem P sk) = Inr sk \<and> p_priv_pem P sk \<noteq> []) \<and>
     (\<forall>pk. p_pub_pem P pk \<noteq> [] \<and> (\<forall>c \<in> set (p_pub_pem P pk). c < 128) \<and>
        p_load_pub P (map of_nat (p_pub_pem P pk)) = Inr pk)"

section \<open>AES-256-GCM (aes\_gcm.py)\<close>

definition KEY_SIZE :: nat where "KEY_SIZE = 32"
definition IV_SIZE :: nat where "IV_SIZE = 12"
definition TAG_SIZE :: nat where "TAG_SIZE = 16"

datatype gcm_error =
    GcmNoError
  | IvLength nat
  | TagLength nat
  | EncryptionFailed exc
  | TagVerificationFailed exc

record encrypt_result =
  er_ciphertext :: bytes
  er_iv :: bytes
  er_tag :: bytes
  er_ok :: bool
  er_error :: gcm_error

record gcm_decrypt_result =
  gd_plaintext :: bytes
  gd_ok :: bool
  gd_error :: gcm_error

definition empty_encrypt_result :: encrypt_result where
  "empty_encrypt_result =
     \<lparr>er_ciphertext = [], er_iv = [], er_tag = [], er_ok = False, er_error = GcmNoError\<rparr>"

definition empty_gcm_result :: gcm_decrypt_result where
  "empty_gcm_result = \<lparr>gd_plaintext = [], gd_ok = False, gd_error = GcmNoError\<rparr>"

record cipher =
  cipher_key :: bytes

definition new_cipher :: "bytes \<Rightarrow> cipher res" where
  "new_cipher key = (if length key \<noteq> KEY_SIZE then Inl ValueError else Inr \<lparr>cipher_key = key\<rparr>)"

definition cipher_from_hex :: "pystr \<Rightarrow> cipher res" where
  "cipher_from_hex hex_key =
     rbind (hex_decode hex_key)
       (\<lambda>key. if length key \<noteq> KEY_SIZE then Inl ValueError else new_cipher key)"

text \<open>\<open>encrypt(plaintext, iv)\<close>: \<open>fresh_iv\<close> is what \<open>random_bytes(12)\<close> returns if the IV is
  missing or empty. The last 16 bytes of the sealed text are the tag.\<close>

definition aes_encrypt ::
    "('sk, 'pk) prims \<Rightarrow> cipher \<Rightarrow> bytes \<Rightarrow> bytes \<Rightarrow> bytes option \<Rightarrow> encrypt_result" where
  "aes_encrypt P c fresh_iv plaintext iv =
     (let use_iv = (case iv of None \<Rightarrow> fresh_iv | Some v \<Rightarrow> if v = [] then fresh_iv else v)
      in if length use_iv \<noteq> IV_SIZE
         then empty_encrypt_result\<lparr>er_error := IvLength (length use_iv)\<rparr>
         else
           (case p_seal P (cipher_key c) use_iv plaintext of
              Inl e \<Rightarrow> empty_encrypt_result\<lparr>er_error := EncryptionFailed e\<rparr>
            | Inr ct_with_tag \<Rightarrow>
                empty_encrypt_result
                  \<lparr>er_ciphertext := take (length ct_with_tag - TAG_SIZE) ct_with_tag,
                   er_tag := drop (length ct_with_tag - TAG_SIZE) ct_with_tag,
                   er_iv := use_iv,
                   er_ok := True\<rparr>))"

definition aes_decrypt ::
    "('sk, 'pk) prims \<Rightarrow> cipher \<Rightarrow> bytes \<Rightarrow> bytes \<Rightarrow> bytes \<Rightarrow> gcm_decrypt_result" where
  "aes_decrypt P c ciphertext iv tag =
     (if length iv \<noteq> IV_SIZE then empty_gcm_result\<lparr>gd_error := IvLength (length iv)\<rparr>
      else if length tag \<noteq> TAG_SIZE then empty_gcm_result\<lparr>gd_error := TagLength (length tag)\<rparr>
      else
        (case p_open P (cipher_key c) iv (ciphertext @ tag) of
           Inl e \<Rightarrow> empty_gcm_result\<lparr>gd_error := TagVerificationFailed e\<rparr>
         | Inr m \<Rightarrow> empty_gcm_result\<lparr>gd_plaintext := m, gd_ok := True\<rparr>))"

section \<open>ECDSA (ecdsa.py)\<close>

record ('sk, 'pk) signer =
  sg_private :: "'sk option"
  sg_public :: "'pk option"

definition new_signer :: "('sk, 'pk) signer" where
  "new_signer = \<lparr>sg_private = None, sg_public = None\<rparr>"

definition from_private_key_data :: "('sk, 'pk) prims \<Rightarrow> bytes \<Rightarrow> ('sk, 'pk) signer res" where
  "from_private_key_data P pem =
     (if pem \<noteq> [] then rbind (p_load_priv P pem) (\<lambda>sk. Inr (new_signer\<lparr>sg_private := Some sk\<rparr>))
      else Inr new_signer)"

definition from_public_key_data :: "('sk, 'pk) prims \<Rightarrow> bytes \<Rightarrow> ('sk, 'pk) signer res" where
  "from_public_key_data P pem =
     (if pem \<noteq> [] then rbind (p_load_pub P pem) (\<lambda>pk. Inr (new_signer\<lparr>sg_public := Some pk\<rparr>))
      else Inr new_signer)"

text \<open>The file system, as far as the key files go: path to contents.\<close>

type_synonym files = "pystr \<Rightarrow> bytes option"

definition read_file :: "files \<Rightarrow> pystr \<Rightarrow> bytes res" where
  "read_file fs path = (case fs path of None \<Rightarrow> Inl OSError | Some b \<Rightarrow> Inr b)"

definition from_private_key_file ::
    "('sk, 'pk) prims \<Rightarrow> files \<Rightarrow> pystr \<Rightarrow> ('sk, 'pk) signer res" where
  "from_private_key_file P fs path = rbind (read_file fs path) (from_private_key_data P)"

definition from_public_key_file ::
    "('sk, 'pk) prims \<Rightarrow> files \<Rightarrow> pystr \<Rightarrow> ('sk, 'pk) signer res" where
  "from_public_key_file P fs path = rbind (read_file fs path) (from_public_key_data P)"

definition can_sign :: "('sk, 'pk) signer \<Rightarrow> bool" where
  "can_sign s \<longleftrightarrow> sg_private s \<noteq> None"

definition signer_sign :: "('sk, 'pk) prims \<Rightarrow> ('sk, 'pk) signer \<Rightarrow> bytes \<Rightarrow> bytes \<Rightarrow> bytes res" where
  "signer_sign P s rnd data =
     (case sg_private s of None \<Rightarrow> Inr [] | Some sk \<Rightarrow> p_sign P sk rnd data)"

text \<open>\<open>verify\<close> takes the public key if there is one, else the private key; whichever it took, it
  uses it only if it is an elliptic-curve public key and falls back to the public half of the
  private key otherwise.\<close>

definition signer_verify :: "('sk, 'pk) prims \<Rightarrow> ('sk, 'pk) signer \<Rightarrow> bytes \<Rightarrow> bytes \<Rightarrow> bool" where
  "signer_verify P s data signature =
     (let fallback = (case sg_private s of None \<Rightarrow> None | Some sk \<Rightarrow> Some (p_public P sk));
          pub_key = (case sg_public s of
                       Some pk \<Rightarrow> if p_is_ec P pk then Some pk else fallback
                     | None \<Rightarrow> fallback)
      in case pub_key of None \<Rightarrow> False | Some pk \<Rightarrow> p_verify P pk signature data)"

definition signer_public_key_der :: "('sk, 'pk) prims \<Rightarrow> ('sk, 'pk) signer \<Rightarrow> bytes" where
  "signer_public_key_der P s =
     (case sg_public s of
        Some pk \<Rightarrow> p_pub_der P pk
      | None \<Rightarrow>
          (case sg_private s of None \<Rightarrow> [] | Some sk \<Rightarrow> p_pub_der P (p_public P sk)))"

text \<open>\<open>generate_keypair\<close> (the same in ecdsa.py and ecdh.py): a fresh key pair, the private PEM
  written first and the public PEM second.\<close>

definition generate_keypair ::
    "('sk, 'pk) prims \<Rightarrow> bytes \<Rightarrow> pystr \<Rightarrow> pystr \<Rightarrow> files \<Rightarrow> files" where
  "generate_keypair P rnd private_path public_path fs =
     (let sk = p_generate P rnd;
          fs1 = fs(private_path \<mapsto> p_priv_pem P sk)
      in fs1(public_path \<mapsto> map of_nat (p_pub_pem P (p_public P sk))))"

section \<open>ECDH (ecdh.py)\<close>

record 'sk ecdh =
  ecdh_private :: 'sk

definition new_ecdh :: "('sk, 'pk) prims \<Rightarrow> bytes \<Rightarrow> 'sk ecdh" where
  "new_ecdh P rnd = \<lparr>ecdh_private = p_generate P rnd\<rparr>"

definition ecdh_from_private_key_file :: "('sk, 'pk) prims \<Rightarrow> files \<Rightarrow> pystr \<Rightarrow> 'sk ecdh res" where
  "ecdh_from_private_key_file P fs path =
     rbind (read_file fs path) (\<lambda>pem. rbind (p_load_priv P pem) (\<lambda>sk. Inr \<lparr>ecdh_private = sk\<rparr>))"

definition ecdh_public_key_der :: "('sk, 'pk) prims \<Rightarrow> 'sk ecdh \<Rightarrow> bytes" where
  "ecdh_public_key_der P e = p_pub_der P (p_public P (ecdh_private e))"

definition ecdh_public_key_pem :: "('sk, 'pk) prims \<Rightarrow> 'sk ecdh \<Rightarrow> pystr" where
  "ecdh_public_key_pem P e = p_pub_pem P (p_public P (ecdh_private e))"

definition derive_shared_secret :: "('sk, 'pk) prims \<Rightarrow> 'sk ecdh \<Rightarrow> bytes \<Rightarrow> bytes res" where
  "derive_shared_secret P e peer_pub_der =
     rbind (p_load_der P peer_pub_der) (\<lambda>peer_key.
       rbind (p_exchange P (ecdh_private e) peer_key) (\<lambda>raw_secret. Inr (sha256 raw_secret)))"

definition derive_shared_secret_pem :: "('sk, 'pk) prims \<Rightarrow> 'sk ecdh \<Rightarrow> pystr \<Rightarrow> bytes res" where
  "derive_shared_secret_pem P e peer_pub_pem =
     rbind (ascii_encode peer_pub_pem) (\<lambda>pem.
       rbind (p_load_pub P pem) (\<lambda>peer_key.
         rbind (p_exchange P (ecdh_private e) peer_key) (\<lambda>raw_secret. Inr (sha256 raw_secret))))"

text \<open>The documented behaviour of ECDH: both sides compute the same secret.\<close>

definition ecdh_ok :: "('sk, 'pk) prims \<Rightarrow> bool" where
  "ecdh_ok P \<longleftrightarrow>
     (\<forall>a b. \<exists>z. p_exchange P a (p_public P b) = Inr z \<and> p_exchange P b (p_public P a) = Inr z)"

section \<open>Lemmas\<close>

lemma new_cipher_Inr: "new_cipher key = Inr c \<longleftrightarrow> length key = 32 \<and> c = \<lparr>cipher_key = key\<rparr>"
  by (auto simp: new_cipher_def KEY_SIZE_def)

lemma aes_encrypt_ok:
  assumes "aes_encrypt P c fresh m iv = r" and "er_ok r"
  obtains ct where "p_seal P (cipher_key c) (er_iv r) m = Inr ct" "length (er_iv r) = 12"
    "er_ciphertext r @ er_tag r = ct" "er_tag r = drop (length ct - 16) ct"
  using assms
  by (auto simp: aes_encrypt_def Let_def empty_encrypt_result_def IV_SIZE_def TAG_SIZE_def
      split: if_splits sum.splits)

lemma aes_decrypt_ok_iff:
  "gd_ok (aes_decrypt P c ct iv tag) \<longleftrightarrow>
     length iv = 12 \<and> length tag = 16 \<and> res_ok (p_open P (cipher_key c) iv (ct @ tag))"
  by (auto simp: aes_decrypt_def empty_gcm_result_def IV_SIZE_def TAG_SIZE_def split: sum.splits)

lemma gcm_okD:
  assumes "gcm_ok P" and "length k = 32" "length iv = 12" "length m < 2 ^ 31"
  obtains c where "p_seal P k iv m = Inr c" "length c = length m + 16" "p_open P k iv c = Inr m"
  using assms unfolding gcm_ok_def by blast

lemma aes_encrypt_fresh:
  assumes "gcm_ok P" "length (cipher_key c) = 32" "length fresh = 12" "length m < 2 ^ 31"
  shows "er_ok (aes_encrypt P c fresh m None) \<and> er_iv (aes_encrypt P c fresh m None) = fresh \<and>
    length (er_tag (aes_encrypt P c fresh m None)) = 16 \<and>
    length (er_ciphertext (aes_encrypt P c fresh m None)) = length m"
proof -
  obtain ct where "p_seal P (cipher_key c) fresh m = Inr ct" "length ct = length m + 16"
    using gcm_okD [OF assms] .
  then show ?thesis
    using assms(3)
    by (simp add: aes_encrypt_def empty_encrypt_result_def IV_SIZE_def TAG_SIZE_def)
qed

lemma aes_decrypt_encrypt:
  assumes "gcm_ok P" "length (cipher_key c) = 32" "length fresh = 12" "length m < 2 ^ 31"
    and r: "r = aes_encrypt P c fresh m None"
  shows "aes_decrypt P c (er_ciphertext r) (er_iv r) (er_tag r) =
    empty_gcm_result\<lparr>gd_plaintext := m, gd_ok := True\<rparr>"
proof -
  obtain ct where "p_seal P (cipher_key c) fresh m = Inr ct" "length ct = length m + 16"
    "p_open P (cipher_key c) fresh ct = Inr m"
    using gcm_okD [OF assms(1-4)] .
  then show ?thesis
    using assms(3)
    by (simp add: r aes_encrypt_def aes_decrypt_def empty_encrypt_result_def IV_SIZE_def TAG_SIZE_def)
qed

lemma signer_verify_public:
  "sg_public s = Some pk \<Longrightarrow> p_is_ec P pk \<Longrightarrow> signer_verify P s d sig = p_verify P pk sig d"
  by (simp add: signer_verify_def)

lemma signer_verify_no_key: "sg_public s = None \<Longrightarrow> sg_private s = None \<Longrightarrow> \<not> signer_verify P s d sig"
  by (simp add: signer_verify_def)

section \<open>A concrete instance of the parameter\<close>

text \<open>
  A small instance of \<open>prims\<close> that satisfies the documented behaviour. It is no cipher; it shows
  that the hypotheses can hold together and gives the witnesses something to run.
\<close>

definition toy_prims :: "(bytes, bytes) prims" where
  "toy_prims =
     \<lparr>p_seal = (\<lambda>k iv m. Inr (m @ replicate 16 7)),
      p_open = (\<lambda>k iv c. if drop (length c - 16) c = replicate 16 7
                        then Inr (take (length c - 16) c) else Inl LibError),
      p_load_priv = (\<lambda>b. case b of [] \<Rightarrow> Inl ValueError | x # sk \<Rightarrow> if x = 75 then Inr sk else Inl ValueError),
      p_load_pub = (\<lambda>b. case b of [] \<Rightarrow> Inl ValueError
                    | x # r \<Rightarrow> if x = 80 then hex_decode (map unat r) else Inl ValueError),
      p_generate = (\<lambda>r. r),
      p_public = (\<lambda>sk. sk),
      p_is_ec = (\<lambda>pk. True),
      p_sign = (\<lambda>sk r d. Inr (sk @ [0] @ d)),
      p_verify = (\<lambda>pk s d. s = pk @ [0] @ d),
      p_exchange = (\<lambda>sk pk. Inr [sum_list sk + sum_list pk]),
      p_priv_pem = (\<lambda>sk. 75 # sk),
      p_pub_pem = (\<lambda>pk. 80 # hex_encode pk),
      p_pub_der = (\<lambda>pk. pk),
      p_load_der = (\<lambda>b. Inr b)\<rparr>"

lemma toy_gcm_ok: "gcm_ok toy_prims"
  by (simp add: gcm_ok_def toy_prims_def)

lemma toy_ecdsa_ok: "ecdsa_ok toy_prims"
  by (simp add: ecdsa_ok_def toy_prims_def)

lemma hex_encode_ascii: "c \<in> set (hex_encode b) \<Longrightarrow> c < 128"
proof -
  assume "c \<in> set (hex_encode b)"
  then obtain x where "x \<in> set b"
    and c: "c = hex_digit (unat x div 16) \<or> c = hex_digit (unat x mod 16)"
    by (auto simp: hex_encode_def)
  have "unat x div 16 < 16" "unat x mod 16 < 16"
    using unat_byte_less [of x] by linarith+
  with c show ?thesis by (auto simp: hex_digit_def)
qed

lemma toy_pem_ok: "pem_ok toy_prims"
proof -
  have "map unat (map (of_nat :: nat \<Rightarrow> byte) (hex_encode b)) = hex_encode b" for b
    by (rule map_idI [of _ "unat \<circ> (of_nat :: nat \<Rightarrow> byte)", simplified map_map [symmetric]])
      (use hex_encode_ascii [of _ b] in fastforce)
  then show ?thesis
    by (auto simp: pem_ok_def toy_prims_def hex_decode_encode dest: hex_encode_ascii)
qed

lemma toy_ecdh_ok: "ecdh_ok toy_prims"
  by (auto simp: ecdh_ok_def toy_prims_def add.commute min_def)

lemmas toy_ok = toy_gcm_ok toy_ecdsa_ok toy_pem_ok toy_ecdh_ok

section \<open>Properties\<close>

text \<open>The two sides of a key exchange derive the same session key from each other's public key,
  whether it travels as DER or as PEM, and the key has the length the cipher requires.\<close>

lemma session_key_agreement:
  assumes "ecdh_ok P" and "pem_ok P" and "\<forall>pk. p_load_der P (p_pub_der P pk) = Inr pk"
  shows "\<exists>key. derive_shared_secret P a (ecdh_public_key_der P b) = Inr key \<and>
    derive_shared_secret P b (ecdh_public_key_der P a) = Inr key \<and>
    derive_shared_secret_pem P a (ecdh_public_key_pem P b) = Inr key \<and>
    new_cipher key = Inr \<lparr>cipher_key = key\<rparr>"
proof -
  obtain z where z: "p_exchange P (ecdh_private a) (p_public P (ecdh_private b)) = Inr z"
    "p_exchange P (ecdh_private b) (p_public P (ecdh_private a)) = Inr z"
    using assms(1) unfolding ecdh_ok_def by blast
  have "ascii_encode (p_pub_pem P pk) = Inr (map of_nat (p_pub_pem P pk))" for pk
    using assms(2) by (auto simp: pem_ok_def ascii_encode_def not_le)
  then show ?thesis
    using z assms
    by (simp add: derive_shared_secret_def derive_shared_secret_pem_def ecdh_public_key_der_def
        ecdh_public_key_pem_def ecdh_ok_def pem_ok_def new_cipher_def KEY_SIZE_def)
qed

lemma session_key_agreement_example:
  "\<exists>key. derive_shared_secret toy_prims \<lparr>ecdh_private = [1]\<rparr> (ecdh_public_key_der toy_prims \<lparr>ecdh_private = [2]\<rparr>) = Inr key \<and>
    derive_shared_secret toy_prims \<lparr>ecdh_private = [2]\<rparr> (ecdh_public_key_der toy_prims \<lparr>ecdh_private = [1]\<rparr>) = Inr key \<and>
    derive_shared_secret_pem toy_prims \<lparr>ecdh_private = [1]\<rparr> (ecdh_public_key_pem toy_prims \<lparr>ecdh_private = [2]\<rparr>) = Inr key \<and>
    new_cipher key = Inr \<lparr>cipher_key = key\<rparr>"
  by (rule session_key_agreement [OF toy_ecdh_ok toy_pem_ok]) (simp add: toy_prims_def)

text \<open>The key files written by \<open>generate_keypair\<close> under two different paths load into a signer
  and a verifier that belong together: what the first signs the second verifies, the verifier can not sign (it
  returns the empty signature), and both name the same public key.\<close>

lemma keypair_files_sign_verify:
  assumes "pem_ok P" "ecdsa_ok P" and "\<forall>pk. p_is_ec P pk" and "private_path \<noteq> public_path"
    and "fs' = generate_keypair P rnd private_path public_path fs"
  shows "\<exists>s v. from_private_key_file P fs' private_path = Inr s \<and>
    from_public_key_file P fs' public_path = Inr v \<and>
    can_sign s \<and> \<not> can_sign v \<and> signer_sign P v r d = Inr [] \<and>
    signer_public_key_der P s = signer_public_key_der P v \<and>
    (case signer_sign P s r d of Inr sig \<Rightarrow> signer_verify P v d sig \<and> signer_verify P s d sig | Inl e \<Rightarrow> True)"
proof -
  let ?sk = "p_generate P rnd"
  have "p_load_priv P (p_priv_pem P ?sk) = Inr ?sk" "p_priv_pem P ?sk \<noteq> []"
    and "p_pub_pem P (p_public P ?sk) \<noteq> []"
    "p_load_pub P (map of_nat (p_pub_pem P (p_public P ?sk))) = Inr (p_public P ?sk)"
    using assms(1) by (simp_all add: pem_ok_def)
  then show ?thesis
    using assms(2-5)
    by (auto simp: generate_keypair_def Let_def from_private_key_file_def from_public_key_file_def
        read_file_def from_private_key_data_def from_public_key_data_def new_signer_def can_sign_def
        signer_sign_def signer_public_key_der_def signer_verify_def ecdsa_ok_def split: sum.splits)
qed

lemma keypair_files_sign_verify_example:
  "\<exists>s v. from_private_key_file toy_prims (generate_keypair toy_prims [5] (lit ''a'') (lit ''b'') (\<lambda>_. None)) (lit ''a'') = Inr s \<and>
    from_public_key_file toy_prims (generate_keypair toy_prims [5] (lit ''a'') (lit ''b'') (\<lambda>_. None)) (lit ''b'') = Inr v \<and>
    can_sign s \<and> \<not> can_sign v \<and> signer_sign toy_prims v [] [9] = Inr [] \<and>
    signer_public_key_der toy_prims s = signer_public_key_der toy_prims v \<and>
    (case signer_sign toy_prims s [] [9] of Inr sig \<Rightarrow> signer_verify toy_prims v [9] sig \<and> signer_verify toy_prims s [9] sig | Inl e \<Rightarrow> True)"
  by (rule keypair_files_sign_verify [OF toy_pem_ok toy_ecdsa_ok]) (simp_all add: toy_prims_def)

text \<open>AES-GCM as the code wraps it: with no IV given, encryption uses the fresh one and splits the
  sealed text into a ciphertext as long as the plaintext and a 16-byte tag; decrypting the three parts gives the plaintext
  back; a tag or an IV of another length is refused without touching the key.\<close>

lemma aes_gcm_roundtrip:
  assumes "gcm_ok P" and "length (cipher_key c) = 32" and "length fresh = 12" and "length m < 2 ^ 31"
    and "r = aes_encrypt P c fresh m None"
  shows "er_ok r \<and> er_iv r = fresh \<and> length (er_tag r) = 16 \<and> length (er_ciphertext r) = length m \<and>
    aes_decrypt P c (er_ciphertext r) (er_iv r) (er_tag r) = empty_gcm_result\<lparr>gd_plaintext := m, gd_ok := True\<rparr> \<and>
    aes_decrypt P c ct (er_iv r) (er_tag r @ [b]) = empty_gcm_result\<lparr>gd_error := TagLength 17\<rparr> \<and>
    aes_decrypt P c ct (b # er_iv r) tg = empty_gcm_result\<lparr>gd_error := IvLength 13\<rparr>"
  using aes_encrypt_fresh [OF assms(1-4)] aes_decrypt_encrypt [OF assms] assms(3)
  by (simp add: assms(5)) (simp add: aes_decrypt_def IV_SIZE_def TAG_SIZE_def)

lemma aes_gcm_roundtrip_example:
  "aes_decrypt toy_prims \<lparr>cipher_key = replicate 32 0\<rparr>
     (er_ciphertext (aes_encrypt toy_prims \<lparr>cipher_key = replicate 32 0\<rparr> (replicate 12 1) [1, 2, 3] None))
     (er_iv (aes_encrypt toy_prims \<lparr>cipher_key = replicate 32 0\<rparr> (replicate 12 1) [1, 2, 3] None))
     (er_tag (aes_encrypt toy_prims \<lparr>cipher_key = replicate 32 0\<rparr> (replicate 12 1) [1, 2, 3] None)) =
   empty_gcm_result\<lparr>gd_plaintext := [1, 2, 3], gd_ok := True\<rparr>"
proof -
  have "length (cipher_key \<lparr>cipher_key = replicate 32 (0 :: byte)\<rparr>) = 32" "length (replicate 12 (1 :: byte)) = 12"
    "length [1, 2, 3 :: byte] < 2 ^ 31" by simp_all
  from aes_gcm_roundtrip [OF toy_gcm_ok this refl] show ?thesis by blast
qed

end
