(* ===== verification/Py_Json.thy ===== *)
theory Py_Json
  imports Py_Text
begin

text \<open>
  Python's \<open>json\<close> module as the forwarder uses it: the values \<open>json.loads\<close> can return,
  \<open>json.dumps\<close> with its \<open>ensure_ascii\<close> and \<open>separators\<close> arguments, and the recursive-descent
  decoder of the standard library (strict mode). A float is kept as its text: the
  conversion to a double is not modelled. The digit limit of \<open>int\<close> and the recursion
  limit of the interpreter are not modelled either. The decoder takes fuel: \<open>loads\<close> gives it two units more than
  twice the number of characters, and \<open>pvalue_fuel\<close> shows that more fuel changes nothing.
\<close>

section \<open>Values\<close>

datatype json =
    JNull
  | JBool bool
  | JInt int
  | JFloat pystr
  | JStr pystr
  | JArr "json list"
  | JObj "(pystr \<times> json) list"

section \<open>Writing\<close>

definition hex4 :: "nat \<Rightarrow> pystr" where
  "hex4 c = [hex_digit (c div 4096), hex_digit (c div 256 mod 16),
             hex_digit (c div 16 mod 16), hex_digit (c mod 16)]"

definition u_escape :: "nat \<Rightarrow> pystr" where
  "u_escape c = [92, 117] @ hex4 c"

definition json_escape :: "bool \<Rightarrow> nat \<Rightarrow> pystr" where
  "json_escape ea c =
     (if c = 34 then [92, 34]
      else if c = 92 then [92, 92]
      else if c = 8 then [92, 98]
      else if c = 12 then [92, 102]
      else if c = 10 then [92, 110]
      else if c = 13 then [92, 114]
      else if c = 9 then [92, 116]
      else if c < 32 then u_escape c
      else if \<not> ea \<or> c < 127 then [c]
      else if c < 0x10000 then u_escape c
      else u_escape (0xD800 + (c - 0x10000) div 1024)
           @ u_escape (0xDC00 + (c - 0x10000) mod 1024))"

definition json_quote :: "bool \<Rightarrow> pystr \<Rightarrow> pystr" where
  "json_quote ea s = [34] @ concat (map (json_escape ea) s) @ [34]"

fun dumps :: "bool \<Rightarrow> pystr \<Rightarrow> pystr \<Rightarrow> json \<Rightarrow> pystr" where
  "dumps ea isep ksep JNull = lit ''null''"
| "dumps ea isep ksep (JBool b) = (if b then lit ''true'' else lit ''false'')"
| "dumps ea isep ksep (JInt i) = py_int_str i"
| "dumps ea isep ksep (JFloat t) = t"
| "dumps ea isep ksep (JStr s) = json_quote ea s"
| "dumps ea isep ksep (JArr vs) =
     [91] @ py_join isep (map (dumps ea isep ksep) vs) @ [93]"
| "dumps ea isep ksep (JObj kvs) =
     [123] @ py_join isep (map (\<lambda>(k, v). json_quote ea k @ ksep @ dumps ea isep ksep v) kvs) @ [125]"

text \<open>\<open>json.dumps(v)\<close>, and \<open>json.dumps(v, ensure_ascii=False, separators=(',', ':'))\<close>.\<close>

definition dumps_default :: "json \<Rightarrow> pystr" where
  "dumps_default = dumps True (lit '', '') (lit '': '')"

definition dumps_compact :: "json \<Rightarrow> pystr" where
  "dumps_compact = dumps False (lit '','') (lit '':'')"

section \<open>Reading\<close>

definition is_ws :: "nat \<Rightarrow> bool" where
  "is_ws c \<longleftrightarrow> c = 32 \<or> c = 9 \<or> c = 10 \<or> c = 13"

definition skip_ws :: "pystr \<Rightarrow> pystr" where
  "skip_ws = dropWhile is_ws"

definition hex_val4 :: "nat \<Rightarrow> nat \<Rightarrow> nat \<Rightarrow> nat \<Rightarrow> nat option" where
  "hex_val4 a b c d =
     (case (hex_val a, hex_val b, hex_val c, hex_val d) of
        (Some w, Some x, Some y, Some z) \<Rightarrow> Some (w * 4096 + x * 256 + y * 16 + z)
      | _ \<Rightarrow> None)"

definition is_high :: "nat \<Rightarrow> bool" where
  "is_high c \<longleftrightarrow> 0xD800 \<le> c \<and> c < 0xDC00"

definition is_low :: "nat \<Rightarrow> bool" where
  "is_low c \<longleftrightarrow> 0xDC00 \<le> c \<and> c < 0xE000"

definition simple_escape :: "nat \<Rightarrow> nat option" where
  "simple_escape e =
     (if e = 34 \<or> e = 92 \<or> e = 47 then Some e
      else if e = 98 then Some 8
      else if e = 102 then Some 12
      else if e = 110 then Some 10
      else if e = 114 then Some 13
      else if e = 116 then Some 9
      else None)"

text \<open>The string scanner, after the opening quote.\<close>

fun scan_string :: "pystr \<Rightarrow> (pystr \<times> pystr) option" where
  "scan_string [] = None"
| "scan_string (c # r) =
     (if c = 34 then Some ([], r)
      else if c < 32 then None
      else if c \<noteq> 92 then map_option (apfst (Cons c)) (scan_string r)
      else
        (case r of
           [] \<Rightarrow> None
         | e # r1 \<Rightarrow>
             if e \<noteq> 117 then
               (case simple_escape e of
                  None \<Rightarrow> None
                | Some x \<Rightarrow> map_option (apfst (Cons x)) (scan_string r1))
             else
               (case r1 of
                  a1 # a2 # a3 # a4 # r2 \<Rightarrow>
                    (case hex_val4 a1 a2 a3 a4 of
                       None \<Rightarrow> None
                     | Some u \<Rightarrow>
                         if is_high u then
                           (case r2 of
                              s1 # s2 # b1 # b2 # b3 # b4 # r3 \<Rightarrow>
                                if s1 = 92 \<and> s2 = 117 then
                                  (case hex_val4 b1 b2 b3 b4 of
                                     None \<Rightarrow> None
                                   | Some l \<Rightarrow>
                                       if is_low l
                                       then map_option (apfst (Cons (0x10000 + (u - 0xD800) * 1024 + (l - 0xDC00))))
                                              (scan_string r3)
                                       else map_option (apfst (Cons u)) (scan_string r2))
                                else map_option (apfst (Cons u)) (scan_string r2)
                            | _ \<Rightarrow> map_option (apfst (Cons u)) (scan_string r2))
                         else map_option (apfst (Cons u)) (scan_string r2))
                | _ \<Rightarrow> None)))"

declare scan_string.simps [simp del]

text \<open>The number scanner: sign, integer part without leading zeros, optional fraction,
  optional exponent; an \<open>int\<close> when neither is present.\<close>

definition scan_frac :: "pystr \<Rightarrow> pystr \<times> pystr" where
  "scan_frac r =
     (case r of
        c # d # _ \<Rightarrow> if c = 46 \<and> is_digit d
                    then ([46] @ takeWhile is_digit (tl r), dropWhile is_digit (tl r))
                    else ([], r)
      | _ \<Rightarrow> ([], r))"

definition scan_exp :: "pystr \<Rightarrow> pystr \<times> pystr" where
  "scan_exp r =
     (case r of
        e # r1 \<Rightarrow>
          if e = 101 \<or> e = 69 then
            (let (sg, r2) = (case r1 of s # r2 \<Rightarrow> if s = 43 \<or> s = 45 then ([s], r2) else ([], r1)
                             | [] \<Rightarrow> ([], r1))
             in if r2 \<noteq> [] \<and> is_digit (hd r2)
                then ([e] @ sg @ takeWhile is_digit r2, dropWhile is_digit r2)
                else ([], r))
          else ([], r)
      | [] \<Rightarrow> ([], r))"

definition scan_number :: "pystr \<Rightarrow> (json \<times> pystr) option" where
  "scan_number s =
     (let neg = (s \<noteq> [] \<and> hd s = 45);
          r = (if neg then tl s else s)
      in case r of
           [] \<Rightarrow> None
         | c # r' \<Rightarrow>
             if \<not> is_digit c then None
             else
               (let (ds, r1) = (if c = 48 then ([48], r') else (takeWhile is_digit r, dropWhile is_digit r));
                    (fr, r2) = scan_frac r1;
                    (ex, r3) = scan_exp r2;
                    sg = (if neg then [45] else [])
                in if fr = [] \<and> ex = []
                   then Some (JInt ((if neg then - 1 else 1) * int (dec_value ds)), r1)
                   else Some (JFloat (sg @ ds @ fr @ ex), r3)))"

definition strip_prefix :: "pystr \<Rightarrow> pystr \<Rightarrow> pystr option" where
  "strip_prefix p s = (if take (length p) s = p then Some (drop (length p) s) else None)"

text \<open>The words \<open>scan_once\<close> tries before it tries a number.\<close>

definition scan_word :: "pystr \<Rightarrow> (json \<times> pystr) option" where
  "scan_word s =
     (case strip_prefix (lit ''null'') s of Some r \<Rightarrow> Some (JNull, r) | None \<Rightarrow>
      case strip_prefix (lit ''true'') s of Some r \<Rightarrow> Some (JBool True, r) | None \<Rightarrow>
      case strip_prefix (lit ''false'') s of Some r \<Rightarrow> Some (JBool False, r) | None \<Rightarrow>
      case strip_prefix (lit ''NaN'') s of Some r \<Rightarrow> Some (JFloat (lit ''NaN''), r) | None \<Rightarrow>
      case strip_prefix (lit ''Infinity'') s of Some r \<Rightarrow> Some (JFloat (lit ''Infinity''), r) | None \<Rightarrow>
      case strip_prefix (lit ''-Infinity'') s of Some r \<Rightarrow> Some (JFloat (lit ''-Infinity''), r) | None \<Rightarrow>
      scan_number s)"

fun pvalue :: "nat \<Rightarrow> pystr \<Rightarrow> (json \<times> pystr) option"
  and pelems :: "nat \<Rightarrow> json list \<Rightarrow> pystr \<Rightarrow> (json \<times> pystr) option"
  and pmembers :: "nat \<Rightarrow> (pystr, json) dict \<Rightarrow> pystr \<Rightarrow> (json \<times> pystr) option"
where
  "pvalue 0 s = None"
| "pvalue (Suc n) [] = None"
| "pvalue (Suc n) (c # r) =
     (if c = 34 then map_option (apfst JStr) (scan_string r)
      else if c = 123 then
        (case skip_ws r of
           [] \<Rightarrow> None
         | x # r' \<Rightarrow> if x = 125 then Some (JObj [], r') else pmembers n [] (skip_ws r))
      else if c = 91 then
        (case skip_ws r of
           [] \<Rightarrow> None
         | x # r' \<Rightarrow> if x = 93 then Some (JArr [], r') else pelems n [] (skip_ws r))
      else scan_word (c # r))"
| "pelems 0 acc s = None"
| "pelems (Suc n) acc s =
     (case pvalue n s of
        None \<Rightarrow> None
      | Some (v, r) \<Rightarrow>
          (case skip_ws r of
             [] \<Rightarrow> None
           | x # r' \<Rightarrow>
               if x = 93 then Some (JArr (acc @ [v]), r')
               else if x = 44 then pelems n (acc @ [v]) (skip_ws r')
               else None))"
| "pmembers 0 acc s = None"
| "pmembers (Suc n) acc s =
     (case s of
        [] \<Rightarrow> None
      | q # s1 \<Rightarrow>
          if q \<noteq> 34 then None
          else
            (case scan_string s1 of
               None \<Rightarrow> None
             | Some (k, s2) \<Rightarrow>
                 (case skip_ws s2 of
                    [] \<Rightarrow> None
                  | cl # s3 \<Rightarrow>
                      if cl \<noteq> 58 then None
                      else
                        (case pvalue n (skip_ws s3) of
                           None \<Rightarrow> None
                         | Some (v, r) \<Rightarrow>
                             (case skip_ws r of
                                [] \<Rightarrow> None
                              | x # r' \<Rightarrow>
                                  if x = 125 then Some (JObj (AList.update k v acc), r')
                                  else if x = 44 then pmembers n (AList.update k v acc) (skip_ws r')
                                  else None)))))"

declare pvalue.simps [simp del] pelems.simps [simp del] pmembers.simps [simp del]

text \<open>\<open>json.loads(text)\<close>; a byte order mark and anything after the value are errors.\<close>

definition loads :: "pystr \<Rightarrow> json res" where
  "loads s =
     (if s \<noteq> [] \<and> hd s = 0xFEFF then Inl JSONDecodeError
      else (case pvalue (2 * length s + 2) (skip_ws s) of
              None \<Rightarrow> Inl JSONDecodeError
            | Some (v, r) \<Rightarrow> if skip_ws r = [] then Inr v else Inl JSONDecodeError))"

end
