(* ===== verification/Py_Json_Facts.thy ===== *)
theory Py_Json_Facts
  imports Py_Json
begin

text \<open>
  Facts on the JSON decoder and encoder: the decoder always consumes, the fuel \<open>loads\<close> gives
  is enough, and decoding what \<open>dumps\<close> wrote gives the value back.
\<close>

section \<open>The decoder consumes its input\<close>

lemma length_skip_ws [simp]: "length (skip_ws s) \<le> length s"
  by (simp add: skip_ws_def length_dropWhile_le)

lemma skip_ws_Nil [simp]: "skip_ws [] = []"
  by (simp add: skip_ws_def)

lemma map_option_apfst_Some:
  "map_option (apfst f) o1 = Some (t, r) \<longleftrightarrow> (\<exists>u. o1 = Some (u, r) \<and> t = f u)"
  by (cases o1) (auto simp: apfst_def map_prod_def split: prod.splits)

lemma scan_string_length: "scan_string s = Some (t, r) \<Longrightarrow> length r < length s"
proof (induction s arbitrary: t r rule: measure_induct_rule [of length])
  case (less s)
  have IH: "scan_string s' = Some (t', r') \<Longrightarrow> length s' < length s \<Longrightarrow> length r' < length s'"
    for s' t' r'
    using less.IH by blast
  show ?case
  proof (cases s)
    case Nil
    with less.prems show ?thesis by (simp add: scan_string.simps)
  next
    case (Cons c r0)
    from less.prems show ?thesis
      unfolding Cons
      by (subst (asm) scan_string.simps)
        (auto simp: map_option_apfst_Some Cons split: if_splits list.splits option.splits
          dest!: IH)
  qed
qed

lemma scan_frac_length: "scan_frac r = (f, r') \<Longrightarrow> length r' \<le> length r"
  by (auto simp: scan_frac_def length_dropWhile_le le_SucI split: list.splits if_splits)

lemma scan_exp_length: "scan_exp r = (f, r') \<Longrightarrow> length r' \<le> length r"
  by (auto simp: scan_exp_def Let_def length_dropWhile_le le_SucI
      split: list.splits if_splits prod.splits)

lemma scan_number_length:
  assumes "scan_number s = Some (v, r)"
  shows "length r < length s"
proof -
  define neg where "neg \<longleftrightarrow> s \<noteq> [] \<and> hd s = 45"
  define s' where "s' = (if neg then tl s else s)"
  from assms obtain c r' where s': "s' = c # r'" and dig: "is_digit c"
    by (auto simp: scan_number_def Let_def neg_def s'_def split: list.splits if_splits)
  define p where "p = (if c = 48 then ([48], r') else (takeWhile is_digit s', dropWhile is_digit s'))"
  obtain ds r1 where p: "p = (ds, r1)" by (cases p)
  obtain fr r2 where f: "scan_frac r1 = (fr, r2)" by (cases "scan_frac r1")
  obtain ex r3 where e: "scan_exp r2 = (ex, r3)" by (cases "scan_exp r2")
  have "length r1 \<le> length r'"
    using p dig by (auto simp: p_def s' length_dropWhile_le split: if_splits)
  then have "length r1 < length s'" by (simp add: s')
  moreover have "length s' \<le> length s" by (simp add: s'_def)
  moreover have "length r2 \<le> length r1" using f by (rule scan_frac_length)
  moreover have "length r3 \<le> length r2" using e by (rule scan_exp_length)
  moreover have "r = r1 \<or> r = r3"
    using assms dig p f e
    unfolding scan_number_def neg_def [symmetric] s'_def [symmetric] Let_def
    by (auto simp: s' p_def [symmetric] split: if_splits)
  ultimately show ?thesis by auto
qed

lemma strip_prefix_Some: "strip_prefix p s = Some r \<longleftrightarrow> s = p @ r"
  by (auto simp: strip_prefix_def) (metis append_take_drop_id)

lemma scan_word_length: "scan_word s = Some (v, r) \<Longrightarrow> length r < length s"
  by (auto simp: scan_word_def strip_prefix_Some dest: scan_number_length split: option.splits)

text \<open>Splitting the decoder's results, for all three of its functions.\<close>

lemma skip_ws_Cons_length: "skip_ws s = x # r \<Longrightarrow> length r < length s"
  using length_skip_ws [of s] by simp

lemma pvalue_length_aux:
  "(\<forall>s v r. pvalue n s = Some (v, r) \<longrightarrow> length r < length s) \<and>
   (\<forall>acc s v r. pelems n acc s = Some (v, r) \<longrightarrow> length r < length s) \<and>
   (\<forall>acc s v r. pmembers n acc s = Some (v, r) \<longrightarrow> length r < length s)"
proof (induction n)
  case 0
  show ?case by (simp add: pvalue.simps pelems.simps pmembers.simps)
next
  case (Suc n)
  then have V: "pvalue n s = Some (v, r) \<Longrightarrow> length r < length s"
    and E: "pelems n acc s = Some (v, r) \<Longrightarrow> length r < length s"
    and M: "pmembers n d s = Some (v, r) \<Longrightarrow> length r < length s" for s v r acc d
    by blast+
  have "length r < length s" if "pvalue (Suc n) s = Some (v, r)" for s v r
  proof (cases s)
    case (Cons c r0)
    with that show ?thesis
      by (auto simp: pvalue.simps map_option_apfst_Some dest!: E M scan_string_length scan_word_length
          dest: skip_ws_Cons_length split: if_splits list.splits)
  qed (use that in \<open>simp add: pvalue.simps\<close>)
  moreover have "length r < length s" if "pelems (Suc n) acc s = Some (v, r)" for acc s v r
    using that
    by (auto simp: pelems.simps dest!: E V skip_ws_Cons_length
        split: option.splits list.splits if_splits intro: le_less_trans [OF length_skip_ws])
       (meson length_skip_ws less_trans le_less_trans)+
  moreover have "length r < length s" if "pmembers (Suc n) acc s = Some (v, r)" for acc s v r
    using that
    by (auto simp: pmembers.simps dest!: M V skip_ws_Cons_length scan_string_length
        split: option.splits list.splits if_splits)
       (smt (verit) length_skip_ws less_trans le_less_trans less_SucI)+
  ultimately show ?case by blast
qed

lemmas pvalue_length = pvalue_length_aux [THEN conjunct1, rule_format]
lemmas pelems_length = pvalue_length_aux [THEN conjunct2, THEN conjunct1, rule_format]
lemmas pmembers_length = pvalue_length_aux [THEN conjunct2, THEN conjunct2, rule_format]

section \<open>The fuel is enough\<close>

text \<open>Every call of the decoder consumes a character within two calls, so fuel beyond twice the
  length of the text is never used.\<close>

lemma decoder_fuel_aux:
  "(\<forall>m s. 2 * length s + 1 \<le> n \<longrightarrow> 2 * length s + 1 \<le> m \<longrightarrow> pvalue n s = pvalue m s) \<and>
   (\<forall>m acc s. 2 * length s + 2 \<le> n \<longrightarrow> 2 * length s + 2 \<le> m \<longrightarrow> pelems n acc s = pelems m acc s) \<and>
   (\<forall>m acc s. 2 * length s + 2 \<le> n \<longrightarrow> 2 * length s + 2 \<le> m \<longrightarrow> pmembers n acc s = pmembers m acc s)"
proof (induction n)
  case 0
  show ?case by simp
next
  case (Suc n)
  then have V: "2 * length s + 1 \<le> n \<Longrightarrow> 2 * length s + 1 \<le> m \<Longrightarrow> pvalue n s = pvalue m s"
    and E: "2 * length s + 2 \<le> n \<Longrightarrow> 2 * length s + 2 \<le> m \<Longrightarrow> pelems n acc s = pelems m acc s"
    and M: "2 * length s + 2 \<le> n \<Longrightarrow> 2 * length s + 2 \<le> m \<Longrightarrow> pmembers n d s = pmembers m d s"
    for s m acc d
    by blast+
  have "pvalue (Suc n) s = pvalue m s"
    if n: "2 * length s + 1 \<le> Suc n" and m: "2 * length s + 1 \<le> m" for m s
  proof -
    obtain m' where m': "m = Suc m'" using m by (cases m) auto
    show ?thesis
    proof (cases s)
      case (Cons c r)
      have l: "2 * length (skip_ws r) + 2 \<le> n" "2 * length (skip_ws r) + 2 \<le> m'"
        using n m m' Cons length_skip_ws [of r] by (simp_all del: length_skip_ws)
      have "pelems n [] (skip_ws r) = pelems m' [] (skip_ws r)"
        "pmembers n [] (skip_ws r) = pmembers m' [] (skip_ws r)"
        using l by (rule E, rule M)
      then show ?thesis by (cases "skip_ws r") (auto simp: m' Cons pvalue.simps)
    qed (simp add: m' pvalue.simps)
  qed
  moreover have "pelems (Suc n) acc s = pelems m acc s"
    if n: "2 * length s + 2 \<le> Suc n" and m: "2 * length s + 2 \<le> m" for m acc s
  proof -
    obtain m' where m': "m = Suc m'" using m by (cases m) auto
    have v: "pvalue n s = pvalue m' s"
      using n m by (auto simp: m' intro!: V)
    have e: "pelems n acc' (skip_ws r') = pelems m' acc' (skip_ws r')"
      if "pvalue m' s = Some (w, r)" and "skip_ws r = x # r'" for acc' w r x r'
    proof -
      have "length (skip_ws r') + 2 \<le> length s"
        using pvalue_length [OF that(1)] skip_ws_Cons_length [OF that(2)] length_skip_ws [of r']
        by linarith
      then show ?thesis using n m m' by (intro E) linarith+
    qed
    show ?thesis
      by (auto simp: m' pelems.simps v e split: option.split list.split)
  qed
  moreover have "pmembers (Suc n) acc s = pmembers m acc s"
    if n: "2 * length s + 2 \<le> Suc n" and m: "2 * length s + 2 \<le> m" for m acc s
  proof -
    obtain m' where m': "m = Suc m'" using m by (cases m) auto
    have l: "length (skip_ws s3) + 2 \<le> length s"
      if "s = q # s1" "scan_string s1 = Some (k, s2)" "skip_ws s2 = cl # s3" for q s1 k s2 cl s3
      using scan_string_length [OF that(2)] skip_ws_Cons_length [OF that(3)] length_skip_ws [of s3] that(1)
      by (simp del: length_skip_ws)
    have v: "pvalue n (skip_ws s3) = pvalue m' (skip_ws s3)"
      if "s = q # s1" "scan_string s1 = Some (k, s2)" "skip_ws s2 = cl # s3" for q s1 k s2 cl s3
      using l [OF that] n m m' by (intro V) linarith+
    have e: "pmembers n acc' (skip_ws r') = pmembers m' acc' (skip_ws r')"
      if "s = q # s1" "scan_string s1 = Some (k, s2)" "skip_ws s2 = cl # s3"
        "pvalue m' (skip_ws s3) = Some (w, r)" "skip_ws r = x # r'" for q s1 k s2 cl s3 acc' w r x r'
    proof -
      have "length (skip_ws r') + 2 \<le> length s"
        using l [OF that(1-3)] pvalue_length [OF that(4)] skip_ws_Cons_length [OF that(5)]
          length_skip_ws [of r'] by linarith
      then show ?thesis using n m m' by (intro M) linarith+
    qed
    show ?thesis
      by (auto simp: m' pmembers.simps v e split: option.split list.split)
  qed
  ultimately show ?case by blast
qed

lemma pvalue_fuel:
  "2 * length s + 1 \<le> n \<Longrightarrow> 2 * length s + 1 \<le> m \<Longrightarrow> pvalue n s = pvalue m s"
  using decoder_fuel_aux by blast

section \<open>Reading back what was written\<close>

text \<open>The values \<open>dumps\<close> writes so that \<open>loads\<close> reads them back: no floats, object keys that are
  distinct (as in any dict), code points in range, and, where everything beyond ASCII is escaped,
  no lone surrogates (two of them in a row would be read as one character).\<close>

definition text_ok :: "bool \<Rightarrow> pystr \<Rightarrow> bool" where
  "text_ok ea s \<longleftrightarrow> (\<forall>c \<in> set s. c < 0x110000 \<and> (ea \<longrightarrow> \<not> is_surrogate c))"

fun json_ok :: "bool \<Rightarrow> json \<Rightarrow> bool" where
  "json_ok ea (JFloat t) = False"
| "json_ok ea (JStr s) = text_ok ea s"
| "json_ok ea (JArr vs) = list_all (json_ok ea) vs"
| "json_ok ea (JObj kvs) =
     (distinct (map fst kvs) \<and> list_all (\<lambda>(k, v). text_ok ea k \<and> json_ok ea v) kvs)"
| "json_ok ea _ = True"

lemma text_ok_Nil [simp]: "text_ok ea []"
  by (simp add: text_ok_def)

lemma text_ok_Cons:
  "text_ok ea (c # s) \<longleftrightarrow> c < 0x110000 \<and> (ea \<longrightarrow> \<not> is_surrogate c) \<and> text_ok ea s"
  by (auto simp: text_ok_def)

lemma scalar_text_ok: "scalar_text s \<Longrightarrow> text_ok ea s"
  by (auto simp: text_ok_def scalar_text_def)

lemma text_ok_lit [simp]: "text_ok ea (lit s)"
  by (simp add: scalar_text_ok)

lemma div_mod_hex:
  "n div 4096 * 4096 + n div 256 mod 16 * 256 + n div 16 mod 16 * 16 + n mod 16 = (n :: nat)"
proof -
  have "n div 16 div 16 = n div 256" "n div 256 div 16 = n div 4096"
    by (simp_all add: div_mult2_eq [symmetric])
  then show ?thesis
    using div_mult_mod_eq [of n 16] div_mult_mod_eq [of "n div 16" 16]
      div_mult_mod_eq [of "n div 256" 16]
    by linarith
qed

lemma scan_u_escape:
  assumes "c < 0x10000"
  shows "scan_string (u_escape c @ r) =
    (if is_high c
     then (case r of
             s1 # s2 # b1 # b2 # b3 # b4 # r3 \<Rightarrow>
               if s1 = 92 \<and> s2 = 117 then
                 (case hex_val4 b1 b2 b3 b4 of
                    None \<Rightarrow> None
                  | Some l \<Rightarrow>
                      if is_low l
                      then map_option (apfst (Cons (0x10000 + (c - 0xD800) * 1024 + (l - 0xDC00)))) (scan_string r3)
                      else map_option (apfst (Cons c)) (scan_string r))
               else map_option (apfst (Cons c)) (scan_string r)
           | _ \<Rightarrow> map_option (apfst (Cons c)) (scan_string r))
     else map_option (apfst (Cons c)) (scan_string r))"
proof -
  have "hex_val4 (hex_digit (c div 4096)) (hex_digit (c div 256 mod 16))
      (hex_digit (c div 16 mod 16)) (hex_digit (c mod 16)) = Some c"
    using assms div_mod_hex [of c] by (simp add: hex_val4_def hex_val_digit)
  then show ?thesis
    by (simp add: u_escape_def hex4_def scan_string.simps(2) [of 92])
qed

lemma scan_u_escape_bmp:
  "c < 0x10000 \<Longrightarrow> \<not> is_high c \<Longrightarrow>
    scan_string (u_escape c @ r) = map_option (apfst (Cons c)) (scan_string r)"
  by (simp only: scan_u_escape if_False)

lemma hex_val4_hex4:
  "c < 0x10000 \<Longrightarrow> hex_val4 (hex_digit (c div 4096)) (hex_digit (c div 256 mod 16))
      (hex_digit (c div 16 mod 16)) (hex_digit (c mod 16)) = Some c"
  using div_mod_hex [of c] by (simp add: hex_val4_def hex_val_digit)

lemma scan_surrogate_pair:
  assumes "is_high u" and "is_low l"
  shows "scan_string (u_escape u @ u_escape l @ r) =
    map_option (apfst (Cons (0x10000 + (u - 0xD800) * 1024 + (l - 0xDC00)))) (scan_string r)"
proof -
  have u: "u < 0x10000" and l: "l < 0x10000"
    using assms by (auto simp: is_high_def is_low_def)
  show ?thesis
    unfolding scan_u_escape [OF u]
    using assms hex_val4_hex4 [OF l] by (simp add: u_escape_def hex4_def)
qed

lemma scan_json_escape:
  assumes "c < 0x110000" and "ea \<longrightarrow> \<not> is_surrogate c"
  shows "scan_string (json_escape ea c @ r) = map_option (apfst (Cons c)) (scan_string r)"
proof (cases "c = 34 \<or> c = 92 \<or> c = 8 \<or> c = 12 \<or> c = 10 \<or> c = 13 \<or> c = 9")
  case True
  then show ?thesis
    by (elim disjE) (simp_all add: json_escape_def scan_string.simps(2) [of 92] simple_escape_def)
next
  case False
  consider (ctrl) "c < 32" | (raw) "32 \<le> c" "\<not> ea \<or> c < 127" | (bmp) "127 \<le> c" "ea" "c < 0x10000"
    | (astral) "ea" "0x10000 \<le> c"
    by linarith
  then show ?thesis
  proof cases
    case ctrl
    with False show ?thesis
      by (simp add: json_escape_def scan_u_escape_bmp is_high_def)
  next
    case raw
    with False show ?thesis
      by (auto simp: json_escape_def scan_string.simps(2) [of c])
  next
    case bmp
    with assms(2) have "\<not> is_high c" by (auto simp: is_high_def is_surrogate_def)
    with bmp False show ?thesis
      by (simp add: json_escape_def scan_u_escape_bmp)
  next
    case astral
    let ?u = "0xD800 + (c - 0x10000) div 1024" and ?l = "0xDC00 + (c - 0x10000) mod 1024"
    have "json_escape ea c = u_escape ?u @ u_escape ?l"
      using astral by (simp add: json_escape_def)
    moreover have "is_high ?u" using astral assms(1) by (auto simp: is_high_def)
    moreover have "is_low ?l" using mod_less_divisor [of 1024 "c - 0x10000"] by (simp add: is_low_def)
    moreover have "0x10000 + (?u - 0xD800) * 1024 + (?l - 0xDC00) = c"
      using astral div_mult_mod_eq [of "c - 0x10000" 1024] by simp
    ultimately show ?thesis
      by (simp only: append_assoc scan_surrogate_pair)
  qed
qed

lemma scan_string_quote:
  "text_ok ea s \<Longrightarrow> scan_string (concat (map (json_escape ea) s) @ 34 # r) = Some (s, r)"
  by (induction s) (simp_all add: text_ok_Cons scan_json_escape scan_string.simps(2) [of 34])

text \<open>What may follow a number without becoming part of it.\<close>

definition num_stop :: "pystr \<Rightarrow> bool" where
  "num_stop r \<longleftrightarrow> (case r of [] \<Rightarrow> True | c # _ \<Rightarrow> \<not> is_digit c \<and> c \<noteq> 46 \<and> c \<noteq> 101 \<and> c \<noteq> 69)"

lemma num_stop_simps [simp]:
  "num_stop []"
  "num_stop (c # r) \<longleftrightarrow> \<not> is_digit c \<and> c \<noteq> 46 \<and> c \<noteq> 101 \<and> c \<noteq> 69"
  by (simp_all add: num_stop_def)

lemma scan_frac_exp_stop: "num_stop r \<Longrightarrow> scan_frac r = ([], r) \<and> scan_exp r = ([], r)"
  by (auto simp: scan_frac_def scan_exp_def num_stop_def split: list.splits)

lemma take_drop_stop: "num_stop r \<Longrightarrow> takeWhile is_digit r = [] \<and> dropWhile is_digit r = r"
  by (cases r) auto

lemma scan_number_dec:
  assumes "num_stop r"
  shows "scan_number (dec n @ r) = Some (JInt (int n), r)"
    and "scan_number (45 # dec n @ r) = Some (JInt (- int n), r)"
proof -
  obtain c cs where d: "dec n = c # cs" by (cases "dec n") auto
  have dig: "\<forall>x \<in> set (c # cs). is_digit x" using dec_digits [of n] d by simp
  have "c \<noteq> 45" using dig by (auto simp: is_digit_def)
  have zero: "n = 0 \<and> cs = []" if "c = 48"
    using dec_no_leading_zero [of n] d that by (cases "n = 0") auto
  have v: "dec_value (c # cs) = n" by (metis d dec_value_dec)
  show "scan_number (dec n @ r) = Some (JInt (int n), r)"
    and "scan_number (45 # dec n @ r) = Some (JInt (- int n), r)"
    using dig \<open>c \<noteq> 45\<close> zero v scan_frac_exp_stop [OF assms] take_drop_stop [OF assms]
    by (cases "c = 48", auto simp: scan_number_def Let_def d)+
qed

lemma scan_number_int: "num_stop r \<Longrightarrow> scan_number (py_int_str i @ r) = Some (JInt i, r)"
  by (simp add: py_int_str_def scan_number_dec)

text \<open>The first character of a written value, which decides how it is read.\<close>

definition value_start :: "pystr \<Rightarrow> bool" where
  "value_start s \<longleftrightarrow> (case s of [] \<Rightarrow> False | c # _ \<Rightarrow> \<not> is_ws c \<and> c \<noteq> 125 \<and> c \<noteq> 93 \<and> c \<noteq> 0xFEFF)"

lemma skip_ws_value_start: "value_start s \<Longrightarrow> skip_ws (s @ r) = s @ r"
  by (auto simp: value_start_def skip_ws_def split: list.splits)

lemma skip_ws_ws_append: "\<forall>c \<in> set w. is_ws c \<Longrightarrow> skip_ws (w @ s) = skip_ws s"
  by (induction w) (auto simp: skip_ws_def)

lemma value_start_int: "value_start (py_int_str i)"
proof (cases "py_int_str i")
  case (Cons c cs)
  then have "c = 45 \<or> is_digit c" using py_int_str_chars [of c i] by simp
  then show ?thesis by (auto simp: value_start_def Cons is_ws_def is_digit_def)
qed simp

lemma value_start_dumps: "json_ok ea v \<Longrightarrow> value_start (dumps ea isep ksep v)"
proof (cases v)
  case (JInt i)
  then show ?thesis by (simp add: value_start_int)
qed (auto simp: value_start_def json_quote_def is_ws_def lit_def)

lemma pvalue_int:
  assumes "num_stop r"
  shows "pvalue (Suc n) (py_int_str i @ r) = Some (JInt i, r)"
proof -
  obtain c cs where d: "py_int_str i = c # cs" by (cases "py_int_str i") auto
  have c: "c = 45 \<or> is_digit c" using py_int_str_chars [of c i] d by simp
  have inf: "strip_prefix (lit ''-Infinity'') (c # cs @ r) = None"
  proof (cases "c = 45")
    case True
    then have "\<exists>x xs. cs = x # xs \<and> is_digit x"
      using d dec_digits [of "nat (- i)"] hd_dec_digit [of "nat i"] dec_nonempty [of "nat (- i)"]
      by (cases cs) (auto simp: py_int_str_def is_digit_def split: if_splits)
    with True show ?thesis by (auto simp: strip_prefix_def lit_def is_digit_def)
  next
    case False
    with c show ?thesis by (auto simp: strip_prefix_def lit_def is_digit_def)
  qed
  have "scan_word (c # cs @ r) = scan_number (c # cs @ r)"
    using c inf by (auto simp: scan_word_def strip_prefix_def lit_def is_digit_def split: if_splits)
  moreover have "c \<noteq> 34 \<and> c \<noteq> 123 \<and> c \<noteq> 91"
    using c by (auto simp: is_digit_def)
  ultimately show ?thesis
    using scan_number_int [OF assms, of i] by (simp add: d pvalue.simps)
qed

lemma pvalue_quote:
  "text_ok ea s \<Longrightarrow> pvalue (Suc n) (json_quote ea s @ r) = Some (JStr s, r)"
  by (simp add: json_quote_def pvalue.simps scan_string_quote)

lemma pvalue_word:
  "pvalue (Suc n) (lit ''null'' @ r) = Some (JNull, r)"
  "pvalue (Suc n) (lit ''true'' @ r) = Some (JBool True, r)"
  "pvalue (Suc n) (lit ''false'' @ r) = Some (JBool False, r)"
  by (simp_all add: lit_def pvalue.simps scan_word_def strip_prefix_def)

text \<open>The separators: a comma and a colon, each with white space after it.\<close>

definition seps_ok :: "pystr \<Rightarrow> pystr \<Rightarrow> bool" where
  "seps_ok isep ksep \<longleftrightarrow>
     (\<exists>w1 w2. isep = 44 # w1 \<and> ksep = 58 # w2 \<and> (\<forall>c \<in> set (w1 @ w2). is_ws c))"

lemma seps_okE:
  assumes "seps_ok isep ksep"
  obtains w1 w2 where "isep = 44 # w1" "ksep = 58 # w2" "\<forall>c \<in> set w1. is_ws c" "\<forall>c \<in> set w2. is_ws c"
  using assms by (auto simp: seps_ok_def)

lemma skip_ws_bracket [simp]:
  "skip_ws (93 # r) = 93 # r" "skip_ws (125 # r) = 125 # r" "skip_ws (44 # r) = 44 # r"
  "skip_ws (58 # r) = 58 # r" "skip_ws (34 # r) = 34 # r"
  by (simp_all add: skip_ws_def is_ws_def)

lemma not_digit_bracket [simp]: "\<not> is_digit 93" "\<not> is_digit 125" "\<not> is_digit 44"
  by (simp_all add: is_digit_def)

lemma num_stop_bracket: "num_stop (93 # r)" "num_stop (125 # r)" "num_stop (44 # r)"
  by simp_all

text \<open>One value is read back, whatever the fuel, provided there is enough of it.\<close>

definition reads_back :: "bool \<Rightarrow> pystr \<Rightarrow> pystr \<Rightarrow> json \<Rightarrow> bool" where
  "reads_back ea isep ksep v \<longleftrightarrow>
     (\<forall>n r. num_stop r \<longrightarrow> 2 * length (dumps ea isep ksep v) + 1 \<le> n \<longrightarrow>
        pvalue n (dumps ea isep ksep v @ r) = Some (v, r))"

lemma reads_backD:
  "reads_back ea isep ksep v \<Longrightarrow> num_stop r \<Longrightarrow> 2 * length (dumps ea isep ksep v) + 1 \<le> n \<Longrightarrow>
    pvalue n (dumps ea isep ksep v @ r) = Some (v, r)"
  by (simp add: reads_back_def)

lemma pelems_reads_back:
  assumes "seps_ok isep ksep"
  shows "vs \<noteq> [] \<Longrightarrow> list_all (json_ok ea) vs \<Longrightarrow> list_all (reads_back ea isep ksep) vs \<Longrightarrow>
    2 * length (py_join isep (map (dumps ea isep ksep) vs)) + 2 \<le> n \<Longrightarrow>
    pelems n acc (py_join isep (map (dumps ea isep ksep) vs) @ 93 # r) = Some (JArr (acc @ vs), r)"
proof (induction vs arbitrary: n acc)
  case (Cons v vs)
  obtain w1 w2 where sep: "isep = 44 # w1" and w: "\<forall>c \<in> set w1. is_ws c"
    using assms by (rule seps_okE)
  obtain m where n: "n = Suc m" using Cons.prems(4) by (cases n) auto
  have rb: "reads_back ea isep ksep v" using Cons.prems(3) by simp
  show ?case
  proof (cases "vs = []")
    case True
    have "2 * length (dumps ea isep ksep v) + 1 \<le> m"
      using Cons.prems(4) True n by simp
    from reads_backD [OF rb num_stop_bracket(1) this] True n show ?thesis
      by (simp add: pelems.simps)
  next
    case False
    let ?d = "dumps ea isep ksep v" and ?j = "py_join isep (map (dumps ea isep ksep) vs)"
    have len: "2 * length ?d + 1 \<le> m" "2 * length ?j + 2 \<le> m"
      using Cons.prems(4) False n by (auto simp: py_join_Cons sep)
    have start: "value_start ?j"
      using False Cons.prems(2)
      by (cases vs; cases "tl vs")
        (auto simp: value_start_def py_join_Cons split: list.splits
          dest: value_start_dumps [where isep = isep and ksep = ksep])
    have "skip_ws (w1 @ ?j @ 93 # r) = ?j @ 93 # r"
      using w start by (simp add: skip_ws_ws_append skip_ws_value_start)
    moreover have "pelems m (acc @ [v]) (?j @ 93 # r) = Some (JArr (acc @ v # vs), r)"
      using Cons.IH [OF False _ _ len(2), of "acc @ [v]"] Cons.prems(2,3) by simp
    moreover have "pvalue m (?d @ 44 # w1 @ ?j @ 93 # r) = Some (v, 44 # w1 @ ?j @ 93 # r)"
      using reads_backD [OF rb num_stop_bracket(3) len(1)] .
    ultimately show ?thesis
      using False by (simp add: n pelems.simps py_join_Cons sep)
  qed
qed simp

lemma update_new_key: "k \<notin> fst ` set d \<Longrightarrow> AList.update k v d = d @ [(k, v)]"
  by (induction d) auto

lemma pmembers_reads_back:
  assumes "seps_ok isep ksep"
  shows "kvs \<noteq> [] \<Longrightarrow> distinct (map fst (acc @ kvs)) \<Longrightarrow>
    list_all (\<lambda>(k, v). text_ok ea k \<and> json_ok ea v) kvs \<Longrightarrow>
    list_all (\<lambda>(k, v). reads_back ea isep ksep v) kvs \<Longrightarrow>
    2 * length (py_join isep (map (\<lambda>(k, v). json_quote ea k @ ksep @ dumps ea isep ksep v) kvs)) + 2 \<le> n \<Longrightarrow>
    pmembers n acc (py_join isep (map (\<lambda>(k, v). json_quote ea k @ ksep @ dumps ea isep ksep v) kvs) @ 125 # r)
      = Some (JObj (acc @ kvs), r)"
proof (induction kvs arbitrary: n acc)
  case (Cons kv kvs)
  obtain k v where kv: "kv = (k, v)" by (cases kv)
  obtain w1 w2 where sep: "isep = 44 # w1" "ksep = 58 # w2"
    and w1: "\<forall>c \<in> set w1. is_ws c" and w2: "\<forall>c \<in> set w2. is_ws c"
    using assms by (rule seps_okE)
  obtain m where n: "n = Suc m" using Cons.prems(5) by (cases n) auto
  let ?mem = "\<lambda>(k, v). json_quote ea k @ ksep @ dumps ea isep ksep v"
  let ?d = "dumps ea isep ksep v"
  have rb: "reads_back ea isep ksep v" and ok: "text_ok ea k" "json_ok ea v"
    using Cons.prems(3,4) by (simp_all add: kv)
  have new: "AList.update k v acc = acc @ [(k, v)]"
    using Cons.prems(2) by (intro update_new_key) (auto simp: kv)
  have skip: "skip_ws (w2 @ ?d @ s) = ?d @ s" for s
    using w2 value_start_dumps [OF ok(2)] by (simp add: skip_ws_ws_append skip_ws_value_start)
  have step: "pmembers n acc (?mem kv @ x # s) =
      (if x = 125 then Some (JObj (acc @ [(k, v)]), s)
       else pmembers m (acc @ [(k, v)]) (skip_ws s))"
    if "x = 125 \<or> x = 44" and "2 * length ?d + 1 \<le> m" for x s
  proof -
    have "pvalue m (?d @ x # s) = Some (v, x # s)" and "skip_ws (x # s) = x # s"
      using reads_backD [OF rb _ that(2), of "x # s"] that(1) by auto
    then show ?thesis
      using that(1)
      by (auto simp: kv n sep json_quote_def pmembers.simps scan_string_quote [OF ok(1)] new
          skip [unfolded sep])
  qed
  show ?case
  proof (cases "kvs = []")
    case True
    with step [of 125 r] Cons.prems(5) show ?thesis by (simp add: kv n)
  next
    case False
    let ?j = "py_join isep (map ?mem kvs)"
    have len: "2 * length ?d + 1 \<le> m" "2 * length ?j + 2 \<le> m"
      using Cons.prems(5) False by (auto simp: n kv py_join_Cons sep)
    have start: "value_start ?j"
      using False by (cases kvs; cases "tl kvs")
        (auto simp: value_start_def py_join_Cons json_quote_def is_ws_def split: prod.splits)
    have "skip_ws (w1 @ ?j @ 125 # r) = ?j @ 125 # r"
      using w1 start by (simp add: skip_ws_ws_append skip_ws_value_start)
    moreover have "pmembers m (acc @ [(k, v)]) (?j @ 125 # r) = Some (JObj (acc @ (k, v) # kvs), r)"
      using Cons.IH [OF False _ _ _ len(2), of "acc @ [(k, v)]"] Cons.prems(2-4)
      by (simp add: kv)
    ultimately show ?thesis
      using step [of 44 "w1 @ ?j @ 125 # r"] len(1) False
      by (simp add: py_join_Cons kv sep)
  qed
qed simp

lemma fuel_Suc: "Suc k \<le> n \<Longrightarrow> \<exists>m. n = Suc m"
  by (cases n) auto

lemma fuel_numeral: "numeral k \<le> n \<Longrightarrow> \<exists>m. n = Suc m"
  by (cases n) auto

lemma dumps_reads_back:
  assumes "seps_ok isep ksep"
  shows "json_ok ea v \<Longrightarrow> reads_back ea isep ksep v"
proof (induction v)
  case (JArr vs)
  then have all: "list_all (reads_back ea isep ksep) vs" by (auto simp: list_all_iff)
  show ?case
    unfolding reads_back_def
  proof (intro allI impI)
    fix n r
    assume n: "2 * length (dumps ea isep ksep (JArr vs)) + 1 \<le> n"
    then obtain m where m: "n = Suc m" by (cases n) auto
    let ?j = "py_join isep (map (dumps ea isep ksep) vs)"
    show "pvalue n (dumps ea isep ksep (JArr vs) @ r) = Some (JArr vs, r)"
    proof (cases vs)
      case Nil
      then show ?thesis by (simp add: m pvalue.simps)
    next
      case (Cons w ws)
      have "value_start ?j"
        using JArr.prems by (cases ws)
          (auto simp: Cons value_start_def py_join_Cons split: list.splits
            dest: value_start_dumps [where isep = isep and ksep = ksep])
      then have "skip_ws (?j @ 93 # r) = ?j @ 93 # r" "\<exists>c cs. ?j = c # cs \<and> c \<noteq> 93"
        by (simp_all add: skip_ws_value_start) (auto simp: value_start_def split: list.splits)
      moreover have "pelems m [] (?j @ 93 # r) = Some (JArr vs, r)"
        using pelems_reads_back [OF assms, of vs ea m "[]" r] all JArr.prems n m Cons by simp
      ultimately show ?thesis by (auto simp: m pvalue.simps)
    qed
  qed
next
  case (JObj kvs)
  then have all: "list_all (\<lambda>(k, v). reads_back ea isep ksep v) kvs"
    by (fastforce simp: list_all_iff)
  show ?case
    unfolding reads_back_def
  proof (intro allI impI)
    fix n r
    assume n: "2 * length (dumps ea isep ksep (JObj kvs)) + 1 \<le> n"
    then obtain m where m: "n = Suc m" by (cases n) auto
    let ?j = "py_join isep (map (\<lambda>(k, v). json_quote ea k @ ksep @ dumps ea isep ksep v) kvs)"
    show "pvalue n (dumps ea isep ksep (JObj kvs) @ r) = Some (JObj kvs, r)"
    proof (cases kvs)
      case Nil
      then show ?thesis by (simp add: m pvalue.simps)
    next
      case (Cons w ws)
      have "\<exists>cs. ?j = 34 # cs"
        by (cases ws; cases w) (auto simp: Cons py_join_Cons json_quote_def)
      moreover have "pmembers m [] (?j @ 125 # r) = Some (JObj kvs, r)"
        using pmembers_reads_back [OF assms, of kvs "[]" ea m r] all JObj.prems n m Cons by simp
      ultimately show ?thesis by (auto simp: m pvalue.simps)
    qed
  qed
qed (auto simp: reads_back_def gr0_conv_Suc pvalue_word pvalue_quote pvalue_int
       dest!: fuel_Suc fuel_numeral split: if_splits)

lemma loads_dumps:
  assumes "json_ok ea v" and "seps_ok isep ksep"
  shows "loads (dumps ea isep ksep v) = Inr v"
proof -
  let ?d = "dumps ea isep ksep v"
  have start: "value_start ?d" by (rule value_start_dumps [OF assms(1)])
  have "pvalue (2 * length ?d + 2) (?d @ []) = Some (v, [])"
    using reads_backD [OF dumps_reads_back [OF assms(2,1)], of "[]" "2 * length ?d + 2"] by simp
  moreover have "skip_ws ?d = ?d" using skip_ws_value_start [OF start, of "[]"] by simp
  moreover have "hd ?d \<noteq> 0xFEFF"
    using start by (auto simp: value_start_def split: list.splits)
  ultimately show ?thesis by (simp add: loads_def)
qed

lemma seps_ok_default: "seps_ok (lit '', '') (lit '': '')"
  by (simp add: seps_ok_def lit_def is_ws_def)

lemma seps_ok_compact: "seps_ok (lit '','') (lit '':'')"
  by (simp add: seps_ok_def lit_def)

lemma loads_dumps_default: "json_ok True v \<Longrightarrow> loads (dumps_default v) = Inr v"
  by (simp add: dumps_default_def loads_dumps seps_ok_default)

lemma loads_dumps_compact: "json_ok False v \<Longrightarrow> loads (dumps_compact v) = Inr v"
  by (simp add: dumps_compact_def loads_dumps seps_ok_compact)

section \<open>With \<open>ensure_ascii\<close> the text is ASCII\<close>

lemma hex4_ascii: "c < 0x10000 \<Longrightarrow> \<forall>d \<in> set (hex4 c). d < 128"
proof -
  have "hex_digit n < 128" if "n < 16" for n using that by (simp add: hex_digit_def)
  moreover assume "c < 0x10000"
  then have "c div 4096 < 16" by (simp add: less_mult_imp_div_less)
  ultimately show ?thesis by (simp add: hex4_def)
qed

lemma json_escape_ascii: "c < 0x110000 \<Longrightarrow> \<forall>d \<in> set (json_escape True c). d < 128"
proof -
  assume c: "c < 0x110000"
  have "0xD800 + (c - 0x10000) div 1024 < 0x10000" "0xDC00 + (c - 0x10000) mod 1024 < 0x10000"
    using c by (simp_all add: less_mult_imp_div_less)
  from hex4_ascii [OF this(1)] hex4_ascii [OF this(2)] show ?thesis
    using hex4_ascii [of c] c by (auto simp: json_escape_def u_escape_def)
qed

lemma json_quote_ascii: "text_ok True s \<Longrightarrow> \<forall>d \<in> set (json_quote True s). d < 128"
  using json_escape_ascii by (auto simp: json_quote_def text_ok_def)

lemma py_join_ascii:
  "\<forall>c \<in> set sep. c < 128 \<Longrightarrow> \<forall>s \<in> set ss. \<forall>c \<in> set s. c < (128::nat) \<Longrightarrow> \<forall>c \<in> set (py_join sep ss). c < 128"
  by (induction sep ss rule: py_join.induct) auto

lemma dumps_ascii:
  assumes "\<forall>c \<in> set isep. c < 128" "\<forall>c \<in> set ksep. c < 128"
  shows "json_ok True v \<Longrightarrow> \<forall>c \<in> set (dumps True isep ksep v). c < 128"
proof (induction v)
  case (JInt i)
  show ?case
  proof
    fix c assume "c \<in> set (dumps True isep ksep (JInt i))"
    then show "c < 128" using py_int_str_chars [of c i] by (auto simp: is_digit_def)
  qed
next
  case (JStr s)
  then show ?case using json_quote_ascii by simp
next
  case (JArr vs)
  have "\<forall>c \<in> set (py_join isep (map (dumps True isep ksep) vs)). c < 128"
    by (rule py_join_ascii [OF assms(1)]) (use JArr in \<open>auto simp: list_all_iff\<close>)
  then show ?case by auto
next
  case (JObj kvs)
  have "\<forall>c \<in> set (py_join isep (map (\<lambda>(k, v). json_quote True k @ ksep @ dumps True isep ksep v) kvs)). c < 128"
    by (rule py_join_ascii [OF assms(1)])
      (use JObj assms(2) json_quote_ascii in \<open>fastforce simp: list_all_iff snds.simps split: prod.splits\<close>)
  then show ?case by auto
qed (auto simp: lit_def)

section \<open>Evaluating the decoder on a literal text\<close>

text \<open>The fuel of a literal text is a numeral; these rules let the simplifier run the decoder on it.\<close>

lemmas parser_numeral =
  pvalue.simps(2,3) [of "pred_numeral k" for k, folded numeral_eq_Suc]
  pelems.simps(2) [of "pred_numeral k" for k, folded numeral_eq_Suc]
  pmembers.simps(2) [of "pred_numeral k" for k, folded numeral_eq_Suc]

lemmas parser_eval =
  parser_numeral pvalue.simps pelems.simps pmembers.simps loads_def lit_def skip_ws_def is_ws_def
  scan_string.simps scan_word_def strip_prefix_def scan_number_def is_digit_def

end
