(* ===== verification/Crypto_Envelope.thy ===== *)
theory Crypto_Envelope
  imports Py_Json_Facts Base64_Hex
begin

text \<open>
  forwarder/app/crypto/envelope.py and the JSON half of codec.py: the message types, the
  envelope, the signing payload and the two conversions between an envelope and its JSON text.
  The fields of an envelope are JSON values, because \<open>from_json\<close> takes them from the wire
  without checking their types; \<open>typed\<close> says when they have the types of the dataclass.
\<close>

section \<open>Message types\<close>

datatype MessageType =
    BUILD_TRIGGER | BUILD_RESULT | SENSITIVE_REVIEW_REQ | SECOND_REVIEW_RESULT | HEARTBEAT | ACK

fun type_value :: "MessageType \<Rightarrow> pystr" where
  "type_value BUILD_TRIGGER = lit ''BUILD_TRIGGER''"
| "type_value BUILD_RESULT = lit ''BUILD_RESULT''"
| "type_value SENSITIVE_REVIEW_REQ = lit ''SENSITIVE_REVIEW_REQ''"
| "type_value SECOND_REVIEW_RESULT = lit ''SECOND_REVIEW_RESULT''"
| "type_value HEARTBEAT = lit ''HEARTBEAT''"
| "type_value ACK = lit ''ACK''"

definition all_types :: "MessageType list" where
  "all_types = [BUILD_TRIGGER, BUILD_RESULT, SENSITIVE_REVIEW_REQ, SECOND_REVIEW_RESULT, HEARTBEAT, ACK]"

text \<open>\<open>MessageType.parse\<close> compares the given value with each member's; a value that is not a
  string equals none of them.\<close>

definition parse_type :: "json \<Rightarrow> MessageType res" where
  "parse_type v =
     (case find (\<lambda>t. JStr (type_value t) = v) all_types of
        None \<Rightarrow> Inl ValueError | Some t \<Rightarrow> Inr t)"

section \<open>The envelope\<close>

record CryptoEnvelope =
  msg_id :: json
  timestamp :: json
  nonce :: json
  etype :: json
  iv :: json
  ciphertext :: json
  tag :: json
  signature :: json

definition empty_envelope :: CryptoEnvelope where
  "empty_envelope =
     \<lparr>msg_id = JStr [], timestamp = JInt 0, nonce = JStr [], etype = JStr [],
      iv = JStr [], ciphertext = JStr [], tag = JStr [], signature = JStr []\<rparr>"

text \<open>What depends on Python floats: the comparison of a float, given by its text, with a
  range of integers, and \<open>str\<close> of the values whose text is not modelled (floats and containers). And on the
  platform: how a file that is opened without an encoding is decoded.\<close>

record py_env =
  float_between :: "pystr \<Rightarrow> int \<Rightarrow> int \<Rightarrow> bool"
  other_str :: "json \<Rightarrow> pystr"
  locale_decode :: "bytes \<Rightarrow> pystr res"

definition py_str :: "py_env \<Rightarrow> json \<Rightarrow> pystr" where
  "py_str E v =
     (case v of
        JStr s \<Rightarrow> s
      | JInt i \<Rightarrow> py_int_str i
      | JBool b \<Rightarrow> (if b then lit ''True'' else lit ''False'')
      | JNull \<Rightarrow> lit ''None''
      | _ \<Rightarrow> other_str E v)"

text \<open>The truth value of a Python object read from JSON.\<close>

definition py_truthy :: "py_env \<Rightarrow> json \<Rightarrow> bool" where
  "py_truthy E v =
     (case v of
        JNull \<Rightarrow> False
      | JBool b \<Rightarrow> b
      | JInt i \<Rightarrow> i \<noteq> 0
      | JFloat x \<Rightarrow> \<not> float_between E x 0 0
      | JStr s \<Rightarrow> s \<noteq> []
      | JArr vs \<Rightarrow> vs \<noteq> []
      | JObj kvs \<Rightarrow> kvs \<noteq> [])"

text \<open>An environment for the examples.\<close>

definition toy_env :: py_env where
  "toy_env = \<lparr>float_between = (\<lambda>_ _ _. False), other_str = (\<lambda>_. []), locale_decode = utf8_decode\<rparr>"

text \<open>\<open>"|".join([...])\<close>: every item must be a string.\<close>

fun strs :: "json list \<Rightarrow> pystr list res" where
  "strs [] = Inr []"
| "strs (JStr s # vs) = rbind (strs vs) (\<lambda>ss. Inr (s # ss))"
| "strs (_ # vs) = Inl TypeError"

definition build_signing_payload :: "py_env \<Rightarrow> CryptoEnvelope \<Rightarrow> pystr res" where
  "build_signing_payload E env =
     rbind (strs [msg_id env, JStr (py_str E (timestamp env)), nonce env, etype env,
                  iv env, ciphertext env, tag env])
       (\<lambda>ss. Inr (py_join (lit ''|'') ss))"

section \<open>JSON text\<close>

definition to_json :: "CryptoEnvelope \<Rightarrow> pystr" where
  "to_json env =
     dumps_compact (JObj
       [(lit ''msg_id'', msg_id env),
        (lit ''timestamp'', timestamp env),
        (lit ''nonce'', nonce env),
        (lit ''type'', etype env),
        (lit ''iv'', iv env),
        (lit ''ciphertext'', ciphertext env),
        (lit ''tag'', tag env),
        (lit ''signature'', signature env)])"

text \<open>\<open>j.get(key, default)\<close>; a JSON text that is no object has no \<open>get\<close>.\<close>

definition jget :: "(pystr \<times> json) list \<Rightarrow> pystr \<Rightarrow> json \<Rightarrow> json" where
  "jget kvs k d = (case map_of kvs k of None \<Rightarrow> d | Some v \<Rightarrow> v)"

definition from_json :: "pystr \<Rightarrow> CryptoEnvelope res" where
  "from_json json_str =
     rbind (loads json_str)
       (\<lambda>j. case j of
          JObj kvs \<Rightarrow>
            Inr \<lparr>msg_id = jget kvs (lit ''msg_id'') (JStr []),
                 timestamp = jget kvs (lit ''timestamp'') (JInt 0),
                 nonce = jget kvs (lit ''nonce'') (JStr []),
                 etype = jget kvs (lit ''type'') (JStr []),
                 iv = jget kvs (lit ''iv'') (JStr []),
                 ciphertext = jget kvs (lit ''ciphertext'') (JStr []),
                 tag = jget kvs (lit ''tag'') (JStr []),
                 signature = jget kvs (lit ''signature'') (JStr [])\<rparr>
        | _ \<Rightarrow> Inl AttributeError)"

section \<open>Lemmas\<close>

lemma parse_type_value [simp]: "parse_type (JStr (type_value t)) = Inr t"
  by (cases t) (simp_all add: parse_type_def all_types_def)

lemma parse_type_Inr: "parse_type v = Inr t \<Longrightarrow> v = JStr (type_value t)"
  by (auto simp: parse_type_def find_Some_iff split: option.splits)

lemma parse_type_Inl: "parse_type v = Inl e \<Longrightarrow> e = ValueError"
  by (auto simp: parse_type_def split: option.splits)

lemma type_value_no_bar: "124 \<notin> set (type_value t)"
  by (cases t) (auto simp: lit_def)

lemma type_value_scalar [simp]: "scalar_text (type_value t)"
  by (cases t) simp_all

lemma strs_Inr [outcome_iff]: "strs vs = Inr ss \<longleftrightarrow> vs = map JStr ss"
proof (induction vs arbitrary: ss)
  case (Cons v vs)
  show ?case
  proof (cases v)
    case (JStr s)
    have "strs (v # vs) = Inr ss \<longleftrightarrow> (\<exists>ss'. strs vs = Inr ss' \<and> ss = s # ss')"
      by (auto simp: JStr outcome_iff)
    also have "\<dots> \<longleftrightarrow> v # vs = map JStr ss"
      by (cases ss) (auto simp: JStr Cons.IH)
    finally show ?thesis .
  qed auto
qed auto

lemma strs_JStr [simp]: "strs (map JStr ss) = Inr ss"
  by (simp add: strs_Inr)

text \<open>The envelopes whose fields have the types of the dataclass.\<close>

definition typed ::
  "CryptoEnvelope \<Rightarrow> pystr \<Rightarrow> int \<Rightarrow> pystr \<Rightarrow> pystr \<Rightarrow> pystr \<Rightarrow> pystr \<Rightarrow> pystr \<Rightarrow> bool" where
  "typed env m t n ty i c g \<longleftrightarrow>
     msg_id env = JStr m \<and> timestamp env = JInt t \<and> nonce env = JStr n \<and> etype env = JStr ty \<and>
     iv env = JStr i \<and> ciphertext env = JStr c \<and> tag env = JStr g"

lemma payload_typed:
  "typed env m t n ty i c g \<Longrightarrow>
    build_signing_payload E env = Inr (py_join (lit ''|'') [m, py_int_str t, n, ty, i, c, g])"
  by (simp add: typed_def build_signing_payload_def py_str_def)

lemma payload_Inr:
  assumes "build_signing_payload E env = Inr p"
  obtains m n ty i c g where
    "msg_id env = JStr m" "nonce env = JStr n" "etype env = JStr ty"
    "iv env = JStr i" "ciphertext env = JStr c" "tag env = JStr g"
    "p = py_join (lit ''|'') [m, py_str E (timestamp env), n, ty, i, c, g]"
  using assms by (auto simp: build_signing_payload_def outcome_iff Cons_eq_map_conv)

lemma payload_Inl: "build_signing_payload E env = Inl e \<Longrightarrow> e = TypeError"
proof -
  have "strs vs = Inl e \<Longrightarrow> e = TypeError" for vs
    by (induction vs rule: strs.induct) (auto simp: rbind_Inl_iff)
  then show "build_signing_payload E env = Inl e \<Longrightarrow> e = TypeError"
    by (auto simp: build_signing_payload_def rbind_Inl_iff simp del: strs.simps)
qed

definition envelope_ok :: "CryptoEnvelope \<Rightarrow> bool" where
  "envelope_ok env \<longleftrightarrow>
     list_all (json_ok False)
       [msg_id env, timestamp env, nonce env, etype env, iv env, ciphertext env, tag env, signature env]"

lemma from_json_to_json: "envelope_ok env \<Longrightarrow> from_json (to_json env) = Inr env"
  by (simp add: from_json_def to_json_def envelope_ok_def loads_dumps_compact jget_def)

section \<open>Properties\<close>

text \<open>C18. The JSON text of an envelope is read back as the same envelope, for any field values but
  floats (the values \<open>json.dumps\<close> writes exactly), non-ASCII text and lone surrogates included.\<close>

theorem envelope_json_roundtrip:
  assumes "envelope_ok env"
  shows "from_json (to_json env) = Inr env"
  by (rule from_json_to_json [OF assms])

theorem envelope_json_roundtrip_witness:
  "from_json (to_json (empty_envelope\<lparr>msg_id := JStr [24037, 34, 10], timestamp := JInt (-5)\<rparr>)) =
     Inr (empty_envelope\<lparr>msg_id := JStr [24037, 34, 10], timestamp := JInt (-5)\<rparr>)"
  by (rule envelope_json_roundtrip) (simp add: envelope_ok_def empty_envelope_def text_ok_def)

text \<open>C19. The signing payload determines every signed field, for envelopes whose text fields hold
  no separator character: two such envelopes with the same payload agree on all seven fields, so
  a signature over one is a signature over no other.\<close>

theorem signing_payload_injective:
  assumes "typed a m t n ty i c g" and "typed b m' t' n' ty' i' c' g'"
    and "\<forall>s \<in> {m, n, ty, i, c, g, m', n', ty', i', c', g'}. 124 \<notin> set s"
    and "build_signing_payload E a = build_signing_payload E b"
  shows "[m, n, ty, i, c, g] = [m', n', ty', i', c', g'] \<and> t = t'"
proof -
  have bar: "lit ''|'' = [124]" by (simp add: lit_def)
  have num: "124 \<notin> set (py_int_str x)" for x
    using py_int_str_chars [of 124 x] by (auto simp: is_digit_def)
  have "[m, py_int_str t, n, ty, i, c, g] = [m', py_int_str t', n', ty', i', c', g']"
    using assms(3,4) num
    by (intro py_join_inject [of 124]) (auto simp: payload_typed [OF assms(1)] payload_typed [OF assms(2)] bar)
  then show ?thesis by simp
qed

theorem signing_payload_injective_witness:
  "[lit ''a'', [], [], [], [], []] = [lit ''a'', [], [], [], [], []] \<and> (7::int) = 7"
  using signing_payload_injective
    [of "empty_envelope\<lparr>msg_id := JStr (lit ''a''), timestamp := JInt 7\<rparr>" "lit ''a''" 7 "[]" "[]" "[]" "[]" "[]"
        "empty_envelope\<lparr>msg_id := JStr (lit ''a''), timestamp := JInt 7\<rparr>" "lit ''a''" 7 "[]" "[]" "[]" "[]" "[]"
        "\<lparr>float_between = (\<lambda>_ _ _. False), other_str = (\<lambda>_. []), locale_decode = utf8_decode\<rparr>"]
  by (simp add: typed_def empty_envelope_def lit_def)

text \<open>Without that restriction the payload is ambiguous: two different envelopes, one with a
  separator in its message id, have the same payload and so share their signatures.\<close>

lemma signing_payload_ambiguous:
  "\<exists>a b. a \<noteq> b \<and> typed a (lit ''x'') 1 (lit ''2|n'') [] [] [] [] \<and> typed b (lit ''x|1'') 2 (lit ''n'') [] [] [] [] \<and>
     build_signing_payload E a = build_signing_payload E b"
proof -
  let ?a = "empty_envelope\<lparr>msg_id := JStr (lit ''x''), timestamp := JInt 1, nonce := JStr (lit ''2|n'')\<rparr>"
  let ?b = "empty_envelope\<lparr>msg_id := JStr (lit ''x|1''), timestamp := JInt 2, nonce := JStr (lit ''n'')\<rparr>"
  have a: "typed ?a (lit ''x'') 1 (lit ''2|n'') [] [] [] []"
    and b: "typed ?b (lit ''x|1'') 2 (lit ''n'') [] [] [] []"
    by (simp_all add: typed_def empty_envelope_def)
  have one: "py_int_str 1 = lit ''1''" and two: "py_int_str 2 = lit ''2''"
    by (simp_all add: py_int_str_def dec.simps lit_def)
  have "build_signing_payload E ?a = build_signing_payload E ?b"
    by (simp add: payload_typed [OF a] payload_typed [OF b] one two) (simp add: lit_def)
  moreover have "?a \<noteq> ?b" by (simp add: empty_envelope_def)
  ultimately show ?thesis using a b by blast
qed

end
