(* ===== verification/Replay_Guard.thy ===== *)
theory Replay_Guard
  imports Relay_Prelude
begin

text \<open>
  forwarder/app/crypto/replay_guard.py: the timestamp window and the cache of nonces. Every
  read of the clock (\<open>now_ms()\<close>) is an argument, in the order the code reads it. The cache is
  a dict from nonce to expiry time in milliseconds.
\<close>

section \<open>State and operations\<close>

record guard =
  window_seconds :: int
  nonces :: "(pystr, int) dict"

text \<open>\<open>ReplayGuard(window_seconds)\<close>; 300 seconds is the default.\<close>

definition new_guard :: "int \<Rightarrow> guard" where
  "new_guard w = \<lparr>window_seconds = w, nonces = []\<rparr>"

definition is_within_window :: "guard \<Rightarrow> int \<Rightarrow> int \<Rightarrow> bool" where
  "is_within_window g now timestamp \<longleftrightarrow>
     (let window_ms = window_seconds g * 1000
      in now - window_ms \<le> timestamp \<and> timestamp \<le> now + window_ms)"

definition is_replay :: "guard \<Rightarrow> pystr \<Rightarrow> bool" where
  "is_replay g nonce \<longleftrightarrow> map_of (nonces g) nonce \<noteq> None"

definition record_nonce :: "guard \<Rightarrow> int \<Rightarrow> pystr \<Rightarrow> guard" where
  "record_nonce g now nonce =
     g\<lparr>nonces := AList.update nonce (now + window_seconds g * 1000) (nonces g)\<rparr>"

definition purge_expired :: "guard \<Rightarrow> int \<Rightarrow> guard" where
  "purge_expired g now = g\<lparr>nonces := filter (\<lambda>(nonce, expiry). now \<le> expiry) (nonces g)\<rparr>"

definition cache_size :: "guard \<Rightarrow> nat" where
  "cache_size g = length (nonces g)"

text \<open>\<open>check_and_record\<close> reads the clock three times: for the window, for the expiry and for
  the purge that runs when the cache holds more than 10000 nonces.\<close>

definition check_and_record :: "guard \<Rightarrow> int \<Rightarrow> int \<Rightarrow> int \<Rightarrow> int \<Rightarrow> pystr \<Rightarrow> bool \<times> guard" where
  "check_and_record g now1 now2 now3 timestamp nonce =
     (if \<not> is_within_window g now1 timestamp then (False, g)
      else if is_replay g nonce then (False, g)
      else
        (let g1 = record_nonce g now2 nonce;
             g2 = (if 10000 < cache_size g1 then purge_expired g1 now3 else g1)
         in (True, g2)))"

section \<open>The interface of a nonce cache\<close>

text \<open>
  What a user of the guard relies on, whatever the cache is: a state with a test for a nonce and
  an operation that records one, where recording makes the test true for the recorded nonce and
  changes it for no other. From these two laws alone, a client that tests before it records
  (\<open>admit\<close>) lets every nonce through at most once.
\<close>

locale nonce_cache =
  fixes seen :: "'g \<Rightarrow> 'n \<Rightarrow> bool"
    and mark :: "'g \<Rightarrow> 't \<Rightarrow> 'n \<Rightarrow> 'g"
  assumes seen_mark: "seen (mark g t n) m \<longleftrightarrow> m = n \<or> seen g m"
begin

fun admit_all :: "'g \<Rightarrow> ('t \<times> 'n) list \<Rightarrow> 'n list" where
  "admit_all g [] = []"
| "admit_all g ((t, n) # es) =
     (if seen g n then admit_all g es else n # admit_all (mark g t n) es)"

lemma admitted_fresh: "n \<in> set (admit_all g es) \<Longrightarrow> \<not> seen g n"
  by (induction g es rule: admit_all.induct) (auto simp: seen_mark split: if_splits)

lemma admit_once: "distinct (admit_all g es)"
proof (induction g es rule: admit_all.induct)
  case (2 g t n es)
  show ?case
  proof (cases "seen g n")
    case True
    with 2 show ?thesis by simp
  next
    case False
    have "n \<notin> set (admit_all (mark g t n) es)"
      using admitted_fresh [of n "mark g t n" es] by (auto simp: seen_mark)
    with False 2 show ?thesis by simp
  qed
qed simp

lemma seen_stays: "seen g m \<Longrightarrow> seen (mark g t n) m"
  by (simp add: seen_mark)

end

section \<open>The guard provides it\<close>

definition guard_ok :: "guard \<Rightarrow> bool" where
  "guard_ok g \<longleftrightarrow> dict_ok (nonces g)"

lemma is_replay_record [simp]:
  "is_replay (record_nonce g now n) m \<longleftrightarrow> m = n \<or> is_replay g m"
  by (auto simp: is_replay_def record_nonce_def)

interpretation guard_cache: nonce_cache is_replay record_nonce
  by unfold_locales simp

lemma window_seconds_simps [simp]:
  "window_seconds (new_guard w) = w"
  "window_seconds (record_nonce g now n) = window_seconds g"
  "window_seconds (purge_expired g now) = window_seconds g"
  by (simp_all add: new_guard_def record_nonce_def purge_expired_def)

lemma new_guard_simps [simp]: "nonces (new_guard w) = []" "\<not> is_replay (new_guard w) n"
  "cache_size (new_guard w) = 0" "guard_ok (new_guard w)"
  by (simp_all add: new_guard_def is_replay_def cache_size_def guard_ok_def)

lemma guard_ok_record [simp]: "guard_ok g \<Longrightarrow> guard_ok (record_nonce g now n)"
  by (simp add: guard_ok_def record_nonce_def)

lemma guard_ok_purge [simp]: "guard_ok g \<Longrightarrow> guard_ok (purge_expired g now)"
  by (simp add: guard_ok_def purge_expired_def)

lemma map_of_purge:
  "guard_ok g \<Longrightarrow> map_of (nonces (purge_expired g now)) n =
     (case map_of (nonces g) n of None \<Rightarrow> None | Some e \<Rightarrow> if now \<le> e then Some e else None)"
  by (simp add: guard_ok_def purge_expired_def map_of_filter_dict split: option.split)

lemma cache_size_record:
  "\<not> is_replay g n \<Longrightarrow> cache_size (record_nonce g now n) = Suc (cache_size g)"
  by (simp add: cache_size_def record_nonce_def is_replay_def length_update_new)

lemma cache_size_purge_le: "cache_size (purge_expired g now) \<le> cache_size g"
  by (simp add: cache_size_def purge_expired_def)

lemma check_and_record_ok:
  assumes "check_and_record g t1 t2 t3 ts n = (True, g')"
  shows "is_within_window g t1 ts" and "\<not> is_replay g n"
    and "g' = record_nonce g t2 n \<or> g' = purge_expired (record_nonce g t2 n) t3"
  using assms by (auto simp: check_and_record_def Let_def split: if_splits)

lemma check_and_record_refused: "check_and_record g t1 t2 t3 ts n = (False, g') \<Longrightarrow> g' = g"
  by (auto simp: check_and_record_def Let_def split: if_splits)

lemma check_and_record_window:
  "check_and_record g t1 t2 t3 ts n = (b, g') \<Longrightarrow> window_seconds g' = window_seconds g"
  by (auto simp: check_and_record_def Let_def split: if_splits)

lemma guard_ok_check: "guard_ok g \<Longrightarrow> check_and_record g t1 t2 t3 ts n = (b, g') \<Longrightarrow> guard_ok g'"
  by (auto simp: check_and_record_def Let_def split: if_splits)

section \<open>Runs of the guard\<close>

text \<open>A run is a list of calls; each carries its three clock readings.\<close>

type_synonym guard_call = "int \<times> int \<times> int \<times> int \<times> pystr"

fun guard_run :: "guard \<Rightarrow> guard_call list \<Rightarrow> bool list \<times> guard" where
  "guard_run g [] = ([], g)"
| "guard_run g ((t1, t2, t3, ts, n) # cs) =
     (let (b, g1) = check_and_record g t1 t2 t3 ts n;
          (bs, g2) = guard_run g1 cs
      in (b # bs, g2))"

text \<open>The clock readings of a run never go back: \<open>lo\<close> is the last one before it.\<close>

fun clock_ok :: "int \<Rightarrow> guard_call list \<Rightarrow> bool" where
  "clock_ok lo [] = True"
| "clock_ok lo ((t1, t2, t3, ts, n) # cs) =
     (lo \<le> t1 \<and> t1 \<le> t2 \<and> t2 \<le> t3 \<and> clock_ok t3 cs)"

text \<open>A nonce recorded at time \<open>t\<close> stays until a purge after \<open>t\<close> plus the window; from then on a
  message with a timestamp of at most \<open>t\<close> is outside the window.\<close>

definition guarded :: "guard \<Rightarrow> int \<Rightarrow> int \<Rightarrow> pystr \<Rightarrow> bool" where
  "guarded g now t n \<longleftrightarrow>
     (case map_of (nonces g) n of
        Some e \<Rightarrow> t + window_seconds g * 1000 \<le> e
      | None \<Rightarrow> t + window_seconds g * 1000 < now)"

lemma guarded_record: "now \<le> now' \<Longrightarrow> guarded (record_nonce g now' n) now' now' n"
  by (simp add: guarded_def record_nonce_def)

lemma guarded_mono: "guarded g now t n \<Longrightarrow> now \<le> now' \<Longrightarrow> guarded g now' t n"
  by (auto simp: guarded_def split: option.splits)

lemma guarded_purge:
  "guard_ok g \<Longrightarrow> guarded g now t n \<Longrightarrow> now \<le> now' \<Longrightarrow> guarded (purge_expired g now') now' t n"
  by (auto simp: guarded_def map_of_purge split: option.splits)

lemma guarded_record_other:
  "guarded g now t n \<Longrightarrow> t \<le> now' \<Longrightarrow> guarded (record_nonce g now' m) now t n"
  by (auto simp: guarded_def record_nonce_def split: option.splits)

lemma guarded_refuses:
  assumes "guarded g now t n" and "ts \<le> t" and "now \<le> t1"
  shows "check_and_record g t1 t2 t3 ts n = (False, g)"
proof (cases "map_of (nonces g) n")
  case None
  then have "\<not> is_within_window g t1 ts"
    using assms by (simp add: guarded_def is_within_window_def)
  then show ?thesis by (simp add: check_and_record_def)
next
  case (Some e)
  then have "is_replay g n" by (simp add: is_replay_def)
  then show ?thesis by (simp add: check_and_record_def)
qed

lemma guarded_check:
  assumes "guarded g now t n" and "guard_ok g" and "t \<le> now" and "now \<le> t1" "t1 \<le> t2" "t2 \<le> t3"
  shows "guarded (snd (check_and_record g t1 t2 t3 ts m)) t3 t n"
proof -
  have a: "guarded g t2 t n" using assms(1,4,5) by (auto intro: guarded_mono)
  have b: "guarded (record_nonce g t2 m) t2 t n"
    using a assms(3-5) by (intro guarded_record_other) auto
  have "guarded (purge_expired (record_nonce g t2 m) t3) t3 t n"
    using assms(2,6) b by (intro guarded_purge) auto
  moreover have "guarded (record_nonce g t2 m) t3 t n" "guarded g t3 t n"
    using a b assms(6) by (auto intro: guarded_mono)
  ultimately show ?thesis
    by (auto simp: check_and_record_def Let_def)
qed

lemma guarded_run_refuses:
  assumes "guarded g now t n" and "guard_ok g" and "t \<le> now" and "clock_ok now cs"
    and "\<forall>(t1, t2, t3, ts, m) \<in> set cs. m = n \<longrightarrow> ts \<le> t"
    and "i < length cs" and "snd (snd (snd (snd (cs ! i)))) = n"
  shows "fst (guard_run g cs) ! i = False"
  using assms
proof (induction cs arbitrary: g now i)
  case (Cons c cs)
  obtain t1 t2 t3 ts m where c: "c = (t1, t2, t3, ts, m)" by (cases c)
  obtain b g1 where b: "check_and_record g t1 t2 t3 ts m = (b, g1)" by (cases "check_and_record g t1 t2 t3 ts m")
  obtain bs g2 where r: "guard_run g1 cs = (bs, g2)" by (cases "guard_run g1 cs")
  have clk: "now \<le> t1" "t1 \<le> t2" "t2 \<le> t3" "clock_ok t3 cs" using Cons.prems(4) by (simp_all add: c)
  show ?case
  proof (cases i)
    case 0
    then have "m = n" using Cons.prems(7) by (simp add: c)
    moreover have "ts \<le> t" using Cons.prems(5) \<open>m = n\<close> by (simp add: c)
    ultimately have "\<not> b" using guarded_refuses [OF Cons.prems(1) _ clk(1)] b by simp
    then show ?thesis using 0 by (simp add: c b r)
  next
    case (Suc j)
    have "guarded g1 t3 t n"
      using guarded_check [OF Cons.prems(1,2,3) clk(1-3), of ts m] b by simp
    moreover have "guard_ok g1" using guard_ok_check [OF Cons.prems(2) b] .
    moreover have "t \<le> t3" using Cons.prems(3) clk by linarith
    ultimately have "fst (guard_run g1 cs) ! j = False"
      using Cons.IH clk(4) Cons.prems(5-7) Suc by simp
    then show ?thesis using Suc by (simp add: c b r)
  qed
qed simp

section \<open>Properties\<close>

text \<open>C14. A message accepted by \<open>check_and_record\<close> whose timestamp is not in the future of the clock
  reading that recorded it is refused whenever it comes again, however many other messages come in
  between and whatever purges they trigger, as long as the clock does not go back.\<close>

theorem accepted_message_not_replayed:
  assumes "guard_ok g" and "check_and_record g t1 t2 t3 ts n = (True, g')" and "t1 \<le> t2" "t2 \<le> t3"
    and "ts \<le> t2" and "clock_ok t3 cs"
    and "\<forall>(u1, u2, u3, ts', m) \<in> set cs. m = n \<longrightarrow> ts' = ts"
    and "i < length cs" and "snd (snd (snd (snd (cs ! i)))) = n"
  shows "fst (guard_run g' cs) ! i = False"
proof -
  have "guarded g' t3 t2 n"
    using check_and_record_ok(3) [OF assms(2)] guarded_record [of t2 t2 g n] assms(1,4)
    by (auto intro: guarded_mono guarded_purge)
  moreover have "guard_ok g'" using guard_ok_check [OF assms(1,2)] .
  ultimately show ?thesis
    using guarded_run_refuses [of g' t3 t2 n cs i] assms(4-9) by fastforce
qed

theorem accepted_message_not_replayed_witness:
  "fst (guard_run (snd (check_and_record (new_guard 300) 1000000 1000001 1000002 999000 (lit ''n1'')))
     [(1200000, 1200000, 1200000, 1200000, lit ''n2''), (1200001, 1200001, 1200001, 999000, lit ''n1'')]) ! 1
   = False"
proof -
  let ?r = "check_and_record (new_guard 300) 1000000 1000001 1000002 999000 (lit ''n1'')"
  have "?r = (True, snd ?r)"
    by (simp add: check_and_record_def is_within_window_def cache_size_record)
  then show ?thesis
    by (rule accepted_message_not_replayed [rotated]) simp_all
qed

text \<open>The bound on the timestamp in the previous property is needed: a message dated ahead of the
  clock by the whole window is accepted, its nonce expires while its timestamp is still inside the
  window, and once a purge has run the same message is accepted again.\<close>

lemma future_message_replayed_after_purge:
  assumes "guard_ok g" and "0 < window_seconds g" and "\<not> is_replay g n"
    and "ts = t + window_seconds g * 1000"
    and "u = t + window_seconds g * 1000 + 1"
  shows "fst (check_and_record g t t t ts n) = True \<and>
    fst (check_and_record (purge_expired (record_nonce g t n) u) u u u ts n) = True"
proof
  have w: "is_within_window g t ts" "is_within_window (purge_expired (record_nonce g t n) u) u ts"
    using assms(2,4,5) by (simp_all add: is_within_window_def)
  then show "fst (check_and_record g t t t ts n) = True"
    using assms(3) by (simp add: check_and_record_def Let_def)
  have "\<not> is_replay (purge_expired (record_nonce g t n) u) n"
    using map_of_purge [OF guard_ok_record [OF assms(1)], of t n u n] assms(5)
    by (simp add: is_replay_def record_nonce_def)
  then show "fst (check_and_record (purge_expired (record_nonce g t n) u) u u u ts n) = True"
    using w by (simp add: check_and_record_def Let_def)
qed

lemma future_message_replayed_after_purge_example:
  "fst (check_and_record (new_guard 300) 0 0 0 300000 (lit ''n'')) = True \<and>
   fst (check_and_record (purge_expired (record_nonce (new_guard 300) 0 (lit ''n'')) 300001)
     300001 300001 300001 300000 (lit ''n'')) = True"
  using future_message_replayed_after_purge [of "new_guard 300" "lit ''n''" 300000 0 300001] by simp

end
