(* ===== verification/Crypto_Codec.thy ===== *)
theory Crypto_Codec
  imports Crypto_Primitives Crypto_Envelope Replay_Guard
begin

text \<open>
  forwarder/app/crypto/codec.py: \<open>CryptoCodec\<close>, its \<open>encrypt\<close> and its \<open>decrypt\<close> pipeline. A codec
  holds the session cipher, the own signer, the verifier with the peer's public key, and the replay
  guard, the only part that changes. \<open>decrypt\<close> either raises (\<open>Inl\<close>: the text is no envelope, a
  field has the wrong type, a base64 field is malformed) or returns a result record.
\<close>

section \<open>State\<close>

record ('sk, 'pk) codec =
  cd_cipher :: cipher
  cd_signer :: "('sk, 'pk) signer"
  cd_verifier :: "('sk, 'pk) signer"
  cd_guard :: guard

definition new_codec ::
    "cipher \<Rightarrow> ('sk, 'pk) signer \<Rightarrow> ('sk, 'pk) signer \<Rightarrow> guard option \<Rightarrow> ('sk, 'pk) codec" where
  "new_codec ci sg ve gd =
     \<lparr>cd_cipher = ci, cd_signer = sg, cd_verifier = ve,
      cd_guard = (case gd of None \<Rightarrow> new_guard 300 | Some g \<Rightarrow> g)\<rparr>"

text \<open>The error texts of \<open>decrypt\<close>, each with the message id it prints.\<close>

datatype decrypt_error =
    NoDecryptError
  | TimestampOutside json
  | ReplayDetected json
  | SignatureFailed json
  | GcmFailed gcm_error json

record decrypt_result =
  dr_plaintext :: bytes
  dr_ok :: bool
  dr_error :: decrypt_error

definition failed :: "decrypt_error \<Rightarrow> decrypt_result" where
  "failed e = \<lparr>dr_plaintext = [], dr_ok = False, dr_error = e\<rparr>"

section \<open>Encrypt\<close>

text \<open>What one call of \<open>encrypt\<close> draws: the UUID, the 16 bytes of the nonce, the 12 bytes of the
  IV and the randomness of the signature.\<close>

record draws =
  dw_uuid :: pystr
  dw_nonce :: bytes
  dw_iv :: bytes
  dw_sig :: bytes

definition encrypt_envelope ::
    "('sk, 'pk) prims \<Rightarrow> py_env \<Rightarrow> ('sk, 'pk) codec \<Rightarrow> int \<Rightarrow> draws \<Rightarrow> bytes \<Rightarrow> MessageType \<Rightarrow> CryptoEnvelope res" where
  "encrypt_envelope P E c now d plaintext msg_type =
     (let env = empty_envelope
            \<lparr>msg_id := JStr (dw_uuid d),
             timestamp := JInt now,
             nonce := JStr (b64_encode (dw_nonce d)),
             etype := JStr (type_value msg_type)\<rparr>;
          enc = aes_encrypt P (cd_cipher c) (dw_iv d) plaintext None
      in if \<not> er_ok enc then Inl RuntimeError
         else
           let env1 = env
                 \<lparr>iv := JStr (b64_encode (er_iv enc)),
                  ciphertext := JStr (b64_encode (er_ciphertext enc)),
                  tag := JStr (b64_encode (er_tag enc))\<rparr>
           in rbind (build_signing_payload E env1) (\<lambda>payload.
                rbind (utf8_encode payload) (\<lambda>data.
                  rbind (signer_sign P (cd_signer c) (dw_sig d) data) (\<lambda>sig.
                    Inr (env1\<lparr>signature := JStr (b64_encode sig)\<rparr>)))))"

definition encrypt ::
    "('sk, 'pk) prims \<Rightarrow> py_env \<Rightarrow> ('sk, 'pk) codec \<Rightarrow> int \<Rightarrow> draws \<Rightarrow> bytes \<Rightarrow> MessageType \<Rightarrow> pystr res" where
  "encrypt P E c now d plaintext msg_type =
     rbind (encrypt_envelope P E c now d plaintext msg_type) (\<lambda>env. Inr (to_json env))"

section \<open>Decrypt\<close>

text \<open>The checks on values of unchecked type: \<open>timestamp >= ...\<close> raises \<open>TypeError\<close> on anything but a
  number, \<open>nonce in dict\<close> raises it on an unhashable value (the keys of the cache are strings, so no
  other value is ever found), and \<open>.replace\<close> is an attribute of strings only.\<close>

definition within_window :: "py_env \<Rightarrow> guard \<Rightarrow> int \<Rightarrow> json \<Rightarrow> bool res" where
  "within_window E g now t =
     (case t of
        JInt i \<Rightarrow> Inr (is_within_window g now i)
      | JBool b \<Rightarrow> Inr (is_within_window g now (if b then 1 else 0))
      | JFloat x \<Rightarrow> Inr (float_between E x (now - window_seconds g * 1000) (now + window_seconds g * 1000))
      | _ \<Rightarrow> Inl TypeError)"

definition replayed :: "guard \<Rightarrow> json \<Rightarrow> bool res" where
  "replayed g n =
     (case n of
        JStr s \<Rightarrow> Inr (is_replay g s)
      | JArr _ \<Rightarrow> Inl TypeError
      | JObj _ \<Rightarrow> Inl TypeError
      | _ \<Rightarrow> Inr False)"

definition decode_field :: "json \<Rightarrow> bytes res" where
  "decode_field v = (case v of JStr s \<Rightarrow> b64_decode s | _ \<Rightarrow> Inl AttributeError)"

text \<open>Steps 2 to 5 of the pipeline, in the code's order; they do not change the codec.\<close>

definition validate ::
    "('sk, 'pk) prims \<Rightarrow> py_env \<Rightarrow> ('sk, 'pk) codec \<Rightarrow> int \<Rightarrow> CryptoEnvelope \<Rightarrow> decrypt_result res" where
  "validate P E c now env =
     rbind (within_window E (cd_guard c) now (timestamp env)) (\<lambda>inside.
       if \<not> inside then Inr (failed (TimestampOutside (msg_id env)))
       else rbind (replayed (cd_guard c) (nonce env)) (\<lambda>seen.
         if seen then Inr (failed (ReplayDetected (msg_id env)))
         else rbind (build_signing_payload E env) (\<lambda>payload.
           rbind (decode_field (signature env)) (\<lambda>sig.
             rbind (utf8_encode payload) (\<lambda>data.
               if \<not> signer_verify P (cd_verifier c) data sig
               then Inr (failed (SignatureFailed (msg_id env)))
               else rbind (decode_field (ciphertext env)) (\<lambda>ct.
                 rbind (decode_field (iv env)) (\<lambda>v.
                   rbind (decode_field (tag env)) (\<lambda>tg.
                     let r = aes_decrypt P (cd_cipher c) ct v tg
                     in if \<not> gd_ok r then Inr (failed (GcmFailed (gd_error r) (msg_id env)))
                        else Inr \<lparr>dr_plaintext = gd_plaintext r, dr_ok = True, dr_error = NoDecryptError\<rparr>))))))))"

text \<open>\<open>decrypt\<close>: the clock is read for the window (\<open>now1\<close>) and for the expiry of the recorded nonce
  (\<open>now2\<close>).\<close>

definition decrypt ::
    "('sk, 'pk) prims \<Rightarrow> py_env \<Rightarrow> ('sk, 'pk) codec \<Rightarrow> int \<Rightarrow> int \<Rightarrow> pystr \<Rightarrow>
     decrypt_result res \<times> ('sk, 'pk) codec" where
  "decrypt P E c now1 now2 json_str =
     (case from_json json_str of
        Inl e \<Rightarrow> (Inl e, c)
      | Inr env \<Rightarrow>
          (case validate P E c now1 env of
             Inl e \<Rightarrow> (Inl e, c)
           | Inr r \<Rightarrow>
               if dr_ok r then
                 (case nonce env of
                    JStr n \<Rightarrow> (Inr r, c\<lparr>cd_guard := record_nonce (cd_guard c) now2 n\<rparr>)
                  | _ \<Rightarrow> (Inl TypeError, c))
               else (Inr r, c)))"

section \<open>Lemmas\<close>

lemma failed_simps [simp]: "\<not> dr_ok (failed e)" "dr_plaintext (failed e) = []" "dr_error (failed e) = e"
  by (simp_all add: failed_def)

text \<open>What an accepted envelope has passed.\<close>

definition passes ::
    "('sk, 'pk) prims \<Rightarrow> py_env \<Rightarrow> ('sk, 'pk) codec \<Rightarrow> int \<Rightarrow> CryptoEnvelope \<Rightarrow> bytes \<Rightarrow> bool" where
  "passes P E c now env m \<longleftrightarrow>
     within_window E (cd_guard c) now (timestamp env) = Inr True \<and>
     (\<exists>payload data sig ct v tg.
        build_signing_payload E env = Inr payload \<and> utf8_encode payload = Inr data \<and>
        decode_field (signature env) = Inr sig \<and> signer_verify P (cd_verifier c) data sig \<and>
        decode_field (ciphertext env) = Inr ct \<and> decode_field (iv env) = Inr v \<and>
        decode_field (tag env) = Inr tg \<and> length v = 12 \<and> length tg = 16 \<and>
        p_open P (cipher_key (cd_cipher c)) v (ct @ tg) = Inr m)"

lemma aes_decrypt_Inr [outcome_iff]:
  "gd_ok (aes_decrypt P c ct v tg) \<longleftrightarrow>
     length v = 12 \<and> length tg = 16 \<and>
     p_open P (cipher_key c) v (ct @ tg) = Inr (gd_plaintext (aes_decrypt P c ct v tg))"
  by (auto simp: aes_decrypt_def empty_gcm_result_def IV_SIZE_def TAG_SIZE_def split: sum.splits)

lemma passes_nonce: "passes P E c now env m \<Longrightarrow> \<exists>n. nonce env = JStr n"
  by (auto simp: passes_def elim!: payload_Inr)

lemma validate_ok:
  assumes "validate P E c now env = Inr r" and "dr_ok r"
  shows "passes P E c now env (dr_plaintext r) \<and> replayed (cd_guard c) (nonce env) = Inr False \<and>
    dr_error r = NoDecryptError"
  using assms
  unfolding validate_def passes_def
  by (auto simp: outcome_iff Let_def failed_def split: if_splits)

lemma validate_passes:
  assumes "passes P E c now env m" and "replayed (cd_guard c) (nonce env) = Inr False"
  shows "validate P E c now env = Inr \<lparr>dr_plaintext = m, dr_ok = True, dr_error = NoDecryptError\<rparr>"
  using assms
  unfolding passes_def validate_def
  by (auto simp: Let_def aes_decrypt_def empty_gcm_result_def IV_SIZE_def TAG_SIZE_def)

lemma decrypt_ok_iff:
  "decrypt P E c t1 t2 raw = (Inr r, c') \<and> dr_ok r \<longleftrightarrow>
     (\<exists>env n m. from_json raw = Inr env \<and> nonce env = JStr n \<and> \<not> is_replay (cd_guard c) n \<and>
        passes P E c t1 env m \<and> r = \<lparr>dr_plaintext = m, dr_ok = True, dr_error = NoDecryptError\<rparr> \<and>
        c' = c\<lparr>cd_guard := record_nonce (cd_guard c) t2 n\<rparr>)"
  (is "?lhs \<longleftrightarrow> ?rhs")
proof
  assume l: ?lhs
  then obtain env where env: "from_json raw = Inr env" and v: "validate P E c t1 env = Inr r" and ok: "dr_ok r"
    and c': "c' = (case nonce env of JStr n \<Rightarrow> c\<lparr>cd_guard := record_nonce (cd_guard c) t2 n\<rparr> | _ \<Rightarrow> c)"
    by (auto simp: decrypt_def split: sum.splits if_splits json.splits)
  from validate_ok [OF v ok] have p: "passes P E c t1 env (dr_plaintext r)"
    and n: "replayed (cd_guard c) (nonce env) = Inr False" and e: "dr_error r = NoDecryptError" by auto
  obtain x where x: "nonce env = JStr x" using passes_nonce [OF p] ..
  have "r = \<lparr>dr_plaintext = dr_plaintext r, dr_ok = True, dr_error = NoDecryptError\<rparr>"
    using ok e by simp
  then show ?rhs using env p n x c' by (auto simp: replayed_def)
next
  assume ?rhs
  then show ?lhs by (auto simp: decrypt_def replayed_def dest: validate_passes)
qed

lemma decrypt_refused:
  "decrypt P E c t1 t2 raw = (r, c') \<Longrightarrow> \<not> (\<exists>x. r = Inr x \<and> dr_ok x) \<Longrightarrow> c' = c"
  by (auto simp: decrypt_def split: sum.splits if_splits json.splits)

lemma decrypt_frame:
  "decrypt P E c t1 t2 raw = (r, c') \<Longrightarrow>
    cd_cipher c' = cd_cipher c \<and> cd_signer c' = cd_signer c \<and> cd_verifier c' = cd_verifier c \<and>
    window_seconds (cd_guard c') = window_seconds (cd_guard c)"
  by (auto simp: decrypt_def split: sum.splits if_splits json.splits)

lemma passes_guard [simp]:
  "passes P E (c\<lparr>cd_guard := record_nonce (cd_guard c) t n\<rparr>) now env m \<longleftrightarrow> passes P E c now env m"
  by (simp add: passes_def within_window_def is_within_window_def split: json.split)

section \<open>Runs of one codec\<close>

text \<open>The nonces of the messages a codec accepts, in order, when it is given a list of texts with the
  clock readings of each call; and the nonces that would be accepted if no nonce were remembered.\<close>

definition nonce_of :: "pystr \<Rightarrow> pystr" where
  "nonce_of raw = (case from_json raw of Inr env \<Rightarrow> (case nonce env of JStr n \<Rightarrow> n | _ \<Rightarrow> []) | Inl _ \<Rightarrow> [])"

fun codec_run ::
    "('sk, 'pk) prims \<Rightarrow> py_env \<Rightarrow> ('sk, 'pk) codec \<Rightarrow> (int \<times> int \<times> pystr) list \<Rightarrow> pystr list \<times> ('sk, 'pk) codec" where
  "codec_run P E c [] = ([], c)"
| "codec_run P E c ((t1, t2, raw) # es) =
     (let (r, c1) = decrypt P E c t1 t2 raw;
          (ns, c2) = codec_run P E c1 es
      in ((case r of Inr x \<Rightarrow> if dr_ok x then [nonce_of raw] else [] | Inl _ \<Rightarrow> []) @ ns, c2))"

definition candidate ::
    "('sk, 'pk) prims \<Rightarrow> py_env \<Rightarrow> ('sk, 'pk) codec \<Rightarrow> int \<times> int \<times> pystr \<Rightarrow> (int \<times> pystr) list" where
  "candidate P E c e =
     (case e of (t1, t2, raw) \<Rightarrow>
        (case from_json raw of
           Inl _ \<Rightarrow> []
         | Inr env \<Rightarrow> if \<exists>m. passes P E c t1 env m then [(t2, nonce_of raw)] else []))"

lemma candidate_guard:
  "candidate P E (c\<lparr>cd_guard := record_nonce (cd_guard c) t n\<rparr>) = candidate P E c"
  by (rule ext) (auto simp: candidate_def split: sum.split)

lemma decrypt_candidate:
  assumes "decrypt P E c t1 t2 raw = (r, c')"
  shows "(\<exists>x. r = Inr x \<and> dr_ok x \<and> candidate P E c (t1, t2, raw) = [(t2, nonce_of raw)] \<and>
       \<not> is_replay (cd_guard c) (nonce_of raw) \<and>
       c' = c\<lparr>cd_guard := record_nonce (cd_guard c) t2 (nonce_of raw)\<rparr>)
    \<or> (\<not> (\<exists>x. r = Inr x \<and> dr_ok x) \<and> c' = c \<and>
       (candidate P E c (t1, t2, raw) = [] \<or>
        candidate P E c (t1, t2, raw) = [(t2, nonce_of raw)] \<and> is_replay (cd_guard c) (nonce_of raw)))"
proof (cases "\<exists>x. r = Inr x \<and> dr_ok x")
  case True
  then obtain x where x: "r = Inr x" "dr_ok x" by blast
  with assms decrypt_ok_iff [of P E c t1 t2 raw x c'] obtain env n m where
    "from_json raw = Inr env" "nonce env = JStr n" "\<not> is_replay (cd_guard c) n" "passes P E c t1 env m"
    "c' = c\<lparr>cd_guard := record_nonce (cd_guard c) t2 n\<rparr>" by auto
  with x show ?thesis by (auto simp: candidate_def nonce_of_def)
next
  case False
  have "is_replay (cd_guard c) (nonce_of raw)" if "candidate P E c (t1, t2, raw) \<noteq> []"
  proof (rule ccontr)
    assume fresh: "\<not> is_replay (cd_guard c) (nonce_of raw)"
    from that obtain env m where env: "from_json raw = Inr env" and p: "passes P E c t1 env m"
      by (auto simp: candidate_def split: sum.splits if_splits)
    obtain n where n: "nonce env = JStr n" using passes_nonce [OF p] ..
    have "\<exists>r c'. decrypt P E c t1 t2 raw = (Inr r, c') \<and> dr_ok r"
      using decrypt_ok_iff [of P E c t1 t2 raw] env n p fresh by (auto simp: nonce_of_def)
    with assms False show False by auto
  qed
  with False decrypt_refused [OF assms False] show ?thesis
    by (auto simp: candidate_def split: sum.splits if_splits)
qed

text \<open>A codec is a client of the nonce cache: what it accepts is what testing before recording admits.\<close>

lemma codec_run_admits:
  "fst (codec_run P E c es) = guard_cache.admit_all (cd_guard c) (concat (map (candidate P E c) es))"
proof (induction es arbitrary: c)
  case (Cons e es)
  obtain t1 t2 raw where e: "e = (t1, t2, raw)" by (cases e)
  obtain r c1 where d: "decrypt P E c t1 t2 raw = (r, c1)" by (cases "decrypt P E c t1 t2 raw")
  obtain ns c2 where n: "codec_run P E c1 es = (ns, c2)" by (cases "codec_run P E c1 es")
  have ns: "ns = guard_cache.admit_all (cd_guard c1) (concat (map (candidate P E c1) es))"
    using Cons.IH [of c1] n by simp
  let ?out = "case r of Inr x \<Rightarrow> if dr_ok x then [nonce_of raw] else [] | Inl _ \<Rightarrow> []"
  have "?out @ guard_cache.admit_all (cd_guard c1) (concat (map (candidate P E c1) es)) =
      guard_cache.admit_all (cd_guard c) (candidate P E c e @ concat (map (candidate P E c) es))"
    using decrypt_candidate [OF d] by (auto simp: e candidate_guard split: sum.split)
  moreover have "fst (codec_run P E c (e # es)) = ?out @ ns" by (simp add: e d n)
  ultimately show ?case using ns by simp
qed simp

lemma codec_run_cache:
  "cache_size (cd_guard (snd (codec_run P E c es))) =
     cache_size (cd_guard c) + length (fst (codec_run P E c es))"
proof (induction es arbitrary: c)
  case (Cons e es)
  obtain t1 t2 raw where e: "e = (t1, t2, raw)" by (cases e)
  obtain r c1 where d: "decrypt P E c t1 t2 raw = (r, c1)" by (cases "decrypt P E c t1 t2 raw")
  obtain ns c2 where n: "codec_run P E c1 es = (ns, c2)" by (cases "codec_run P E c1 es")
  have ns: "cache_size (cd_guard c2) = cache_size (cd_guard c1) + length ns"
    using Cons.IH [of c1] n by simp
  from decrypt_candidate [OF d] have
    "cache_size (cd_guard c1) = cache_size (cd_guard c) +
       length (case r of Inr x \<Rightarrow> if dr_ok x then [nonce_of raw] else [] | Inl _ \<Rightarrow> [])"
    by (auto simp: cache_size_record split: sum.split)
  with ns show ?case by (simp add: e d n)
qed simp

section \<open>The round trip\<close>

text \<open>Two codecs at the ends of one session: the same key, and the receiver verifies with the public
  half of the sender's signing key.\<close>

definition paired :: "('sk, 'pk) prims \<Rightarrow> ('sk, 'pk) codec \<Rightarrow> ('sk, 'pk) codec \<Rightarrow> bool" where
  "paired P a b \<longleftrightarrow>
     cd_cipher a = cd_cipher b \<and> length (cipher_key (cd_cipher a)) = 32 \<and>
     (\<exists>sk. sg_private (cd_signer a) = Some sk \<and>
       sg_public (cd_verifier b) = Some (p_public P sk) \<and> p_is_ec P (p_public P sk))"

lemma encrypt_envelope_Inr:
  assumes "encrypt_envelope P E c now d m ty = Inr env"
  obtains r payload data sig where
    "r = aes_encrypt P (cd_cipher c) (dw_iv d) m None" "er_ok r"
    "typed env (dw_uuid d) now (b64_encode (dw_nonce d)) (type_value ty) (b64_encode (er_iv r))
       (b64_encode (er_ciphertext r)) (b64_encode (er_tag r))"
    "build_signing_payload E env = Inr payload" "utf8_encode payload = Inr data"
    "signer_sign P (cd_signer c) (dw_sig d) data = Inr sig" "signature env = JStr (b64_encode sig)"
proof -
  let ?r = "aes_encrypt P (cd_cipher c) (dw_iv d) m None"
  let ?e = "empty_envelope
     \<lparr>msg_id := JStr (dw_uuid d), timestamp := JInt now, nonce := JStr (b64_encode (dw_nonce d)),
      etype := JStr (type_value ty), iv := JStr (b64_encode (er_iv ?r)),
      ciphertext := JStr (b64_encode (er_ciphertext ?r)), tag := JStr (b64_encode (er_tag ?r))\<rparr>"
  have ok: "er_ok ?r" using assms by (auto simp: encrypt_envelope_def Let_def split: if_splits)
  obtain payload data sig where
    "build_signing_payload E ?e = Inr payload" "utf8_encode payload = Inr data"
    "signer_sign P (cd_signer c) (dw_sig d) data = Inr sig" "env = ?e\<lparr>signature := JStr (b64_encode sig)\<rparr>"
    using assms ok by (auto simp: encrypt_envelope_def Let_def outcome_iff)
  then show thesis
    using ok by (intro that [of ?r payload data sig])
      (auto simp: typed_def empty_envelope_def build_signing_payload_def)
qed

lemma encrypted_envelope_passes:
  assumes env: "encrypt_envelope P E a now d m ty = Inr env"
    and P: "gcm_ok P" "ecdsa_ok P" and pair: "paired P a b"
    and d: "length (dw_iv d) = 12" "length m < 2 ^ 31"
    and win: "is_within_window (cd_guard b) t now"
  shows "passes P E b t env m"
proof -
  obtain r payload data sig where r: "r = aes_encrypt P (cd_cipher a) (dw_iv d) m None" "er_ok r"
    and ty: "typed env (dw_uuid d) now (b64_encode (dw_nonce d)) (type_value ty) (b64_encode (er_iv r))
       (b64_encode (er_ciphertext r)) (b64_encode (er_tag r))"
    and sg: "build_signing_payload E env = Inr payload" "utf8_encode payload = Inr data"
      "signer_sign P (cd_signer a) (dw_sig d) data = Inr sig" "signature env = JStr (b64_encode sig)"
    using encrypt_envelope_Inr [OF env] .
  have key: "length (cipher_key (cd_cipher a)) = 32" "cd_cipher b = cd_cipher a"
    using pair by (auto simp: paired_def)
  have dec: "gd_ok (aes_decrypt P (cd_cipher b) (er_ciphertext r) (er_iv r) (er_tag r)) \<and>
      gd_plaintext (aes_decrypt P (cd_cipher b) (er_ciphertext r) (er_iv r) (er_tag r)) = m"
    using aes_decrypt_encrypt [OF P(1) key(1) d(1,2) r(1)] by (simp add: key(2) empty_gcm_result_def)
  have "signer_verify P (cd_verifier b) data sig"
    using pair P(2) sg(3)
    by (auto simp: paired_def signer_sign_def signer_verify_public ecdsa_ok_def)
  moreover have "within_window E (cd_guard b) t (timestamp env) = Inr True"
    using ty win by (simp add: typed_def within_window_def)
  ultimately show ?thesis
    using sg ty dec unfolding passes_def
    by (auto simp: typed_def decode_field_def aes_decrypt_Inr)
qed

lemma encrypted_envelope_ok:
  assumes "encrypt_envelope P E a now d m ty = Inr env" and "scalar_text (dw_uuid d)"
  shows "envelope_ok env"
proof -
  obtain r payload data sig where
    "r = aes_encrypt P (cd_cipher a) (dw_iv d) m None" "er_ok r"
    "typed env (dw_uuid d) now (b64_encode (dw_nonce d)) (type_value ty) (b64_encode (er_iv r))
       (b64_encode (er_ciphertext r)) (b64_encode (er_tag r))"
    "build_signing_payload E env = Inr payload" "utf8_encode payload = Inr data"
    "signer_sign P (cd_signer a) (dw_sig d) data = Inr sig" "signature env = JStr (b64_encode sig)"
    using encrypt_envelope_Inr [OF assms(1)] .
  moreover have "text_ok False (b64_encode x)" for x by (rule scalar_text_ok) simp
  ultimately show ?thesis
    using assms(2) by (simp add: envelope_ok_def typed_def scalar_text_ok)
qed

lemma encrypt_total:
  assumes "gcm_ok P" "length (cipher_key (cd_cipher c)) = 32" "length (dw_iv d) = 12" "length m < 2 ^ 31"
    and "scalar_text (dw_uuid d)" and "\<And>r x. \<exists>s. signer_sign P (cd_signer c) r x = Inr s"
  shows "\<exists>env. encrypt_envelope P E c now d m ty = Inr env"
proof -
  let ?r = "aes_encrypt P (cd_cipher c) (dw_iv d) m None"
  have ok: "er_ok ?r" using aes_encrypt_fresh [OF assms(1-4)] by simp
  let ?ss = "[dw_uuid d, py_int_str now, b64_encode (dw_nonce d), type_value ty,
      b64_encode (er_iv ?r), b64_encode (er_ciphertext ?r), b64_encode (er_tag ?r)]"
  have "scalar_text (py_join (lit ''|'') ?ss)"
    using assms(5) by (intro scalar_text_join) simp_all
  then obtain data where "utf8_encode (py_join (lit ''|'') ?ss) = Inr data"
    using utf8_encode_scalar by blast
  then show ?thesis
    using ok assms(6) [of "dw_sig d" data]
    by (auto simp: encrypt_envelope_def Let_def build_signing_payload_def empty_envelope_def py_str_def)
qed

lemma encrypted_type:
  "encrypt_envelope P E c now d m ty = Inr env \<Longrightarrow>
    msg_id env = JStr (dw_uuid d) \<and> timestamp env = JInt now \<and>
    nonce env = JStr (b64_encode (dw_nonce d)) \<and> parse_type (etype env) = Inr ty"
  by (erule encrypt_envelope_Inr) (simp add: typed_def)

lemma bad_json:
  "from_json (lit ''['') = Inl JSONDecodeError"
  "from_json (lit ''hello'') = Inl JSONDecodeError"
  "from_json (lit ''[]'') = Inl AttributeError"
  by (simp_all add: from_json_def parser_eval)

lemma encrypt_decrypt:
  assumes "gcm_ok P" "ecdsa_ok P" "paired P a b"
    and "\<forall>r x. \<exists>s. signer_sign P (cd_signer a) r x = Inr s"
    and "length (dw_iv d) = 12" "length m < 2 ^ 31" "scalar_text (dw_uuid d)"
    and "is_within_window (cd_guard b) t1 now" "is_within_window (cd_guard b) t3 now"
    and "\<not> is_replay (cd_guard b) (b64_encode (dw_nonce d))"
    and "b' = b\<lparr>cd_guard := record_nonce (cd_guard b) t2 (b64_encode (dw_nonce d))\<rparr>"
  shows "\<exists>raw env. encrypt P E a now d m ty = Inr raw \<and>
    from_json raw = Inr env \<and> parse_type (etype env) = Inr ty \<and>
    decrypt P E b t1 t2 raw = (Inr \<lparr>dr_plaintext = m, dr_ok = True, dr_error = NoDecryptError\<rparr>, b') \<and>
    decrypt P E b' t3 t4 raw = (Inr (failed (ReplayDetected (JStr (dw_uuid d)))), b')"
proof -
  have key: "length (cipher_key (cd_cipher a)) = 32" using assms(3) by (auto simp: paired_def)
  obtain env where env: "encrypt_envelope P E a now d m ty = Inr env"
    using encrypt_total [OF assms(1) key assms(5-7)] assms(4) by blast
  note f = encrypted_type [OF env]
  have j: "from_json (to_json env) = Inr env"
    by (rule from_json_to_json [OF encrypted_envelope_ok [OF env assms(7)]])
  have p: "passes P E b t1 env m"
    by (rule encrypted_envelope_passes [OF env assms(1-3,5,6,8)])
  have "decrypt P E b t1 t2 (to_json env) =
      (Inr \<lparr>dr_plaintext = m, dr_ok = True, dr_error = NoDecryptError\<rparr>, b')"
    using validate_passes [OF p] f assms(10,11) by (simp add: decrypt_def j replayed_def)
  moreover have "decrypt P E b' t3 t4 (to_json env) = (Inr (failed (ReplayDetected (JStr (dw_uuid d)))), b')"
    using f assms(9,11)
    by (simp add: decrypt_def j validate_def within_window_def replayed_def is_within_window_def)
  ultimately show ?thesis
    using env j f by (auto simp: encrypt_def)
qed

section \<open>Properties\<close>

text \<open>C1. The round trip between two codecs of one session: \<open>encrypt\<close> of any payload below the
  cipher's limit returns a text, the peer's \<open>decrypt\<close> of that text inside the time window gives back
  the payload, the text carries the message type, and the peer's only change is the recorded nonce;
  the same text presented to the peer again is refused as a replay and changes nothing.\<close>

theorem codec_roundtrip:
  assumes "gcm_ok P" "ecdsa_ok P" "paired P a b"
    and "\<forall>r x. \<exists>s. signer_sign P (cd_signer a) r x = Inr s"
    and "length (dw_iv d) = 12" "length m < 2 ^ 31" "scalar_text (dw_uuid d)"
    and "is_within_window (cd_guard b) t1 now" "is_within_window (cd_guard b) t3 now"
    and "\<not> is_replay (cd_guard b) (b64_encode (dw_nonce d))"
    and "b' = b\<lparr>cd_guard := record_nonce (cd_guard b) t2 (b64_encode (dw_nonce d))\<rparr>"
  shows "\<exists>raw env. encrypt P E a now d m ty = Inr raw \<and>
    from_json raw = Inr env \<and> parse_type (etype env) = Inr ty \<and>
    decrypt P E b t1 t2 raw = (Inr \<lparr>dr_plaintext = m, dr_ok = True, dr_error = NoDecryptError\<rparr>, b') \<and>
    decrypt P E b' t3 t4 raw = (Inr (failed (ReplayDetected (JStr (dw_uuid d)))), b')"
  by (rule encrypt_decrypt [OF assms])

definition toy_codec :: "bytes \<Rightarrow> bytes \<Rightarrow> (bytes, bytes) codec" where
  "toy_codec own peer = new_codec \<lparr>cipher_key = replicate 32 1\<rparr>
     \<lparr>sg_private = Some own, sg_public = Some own\<rparr> \<lparr>sg_private = None, sg_public = Some peer\<rparr> None"

theorem codec_roundtrip_witness:
  "\<exists>b' raw env. encrypt toy_prims toy_env (toy_codec [1] [2]) 1000 \<lparr>dw_uuid = lit ''u1'', dw_nonce = [1, 2],
       dw_iv = replicate 12 0, dw_sig = []\<rparr> [104, 105] ACK = Inr raw \<and>
    from_json raw = Inr env \<and> parse_type (etype env) = Inr ACK \<and>
    decrypt toy_prims toy_env (toy_codec [2] [1]) 2000 2001 raw =
      (Inr \<lparr>dr_plaintext = [104, 105], dr_ok = True, dr_error = NoDecryptError\<rparr>, b') \<and>
    decrypt toy_prims toy_env b' 3000 3001 raw = (Inr (failed (ReplayDetected (JStr (lit ''u1'')))), b')"
  using codec_roundtrip [of toy_prims "toy_codec [1] [2]" "toy_codec [2] [1]"
      "\<lparr>dw_uuid = lit ''u1'', dw_nonce = [1, 2], dw_iv = replicate 12 0, dw_sig = []\<rparr>" "[104, 105]" 2000 1000 3000 _
      2001 toy_env ACK 3001, OF toy_gcm_ok toy_ecdsa_ok]
  by (simp add: toy_codec_def new_codec_def paired_def signer_sign_def toy_prims_def is_within_window_def) blast

text \<open>C16. \<open>decrypt\<close> accepts a text exactly when it is an envelope whose timestamp is inside the window,
  whose nonce is a string not seen before, whose signature verifies under the peer's key over the payload
  of all other fields, and whose ciphertext opens under the session key; then the plaintext is the opened
  text and the new state records that nonce and nothing else.\<close>

theorem decrypt_accepts_iff:
  "(decrypt P E c t1 t2 raw = (Inr r, c') \<and> dr_ok r) \<longleftrightarrow>
     (\<exists>env n m. from_json raw = Inr env \<and> nonce env = JStr n \<and> \<not> is_replay (cd_guard c) n \<and>
        passes P E c t1 env m \<and> r = \<lparr>dr_plaintext = m, dr_ok = True, dr_error = NoDecryptError\<rparr> \<and>
        c' = c\<lparr>cd_guard := record_nonce (cd_guard c) t2 n\<rparr>)"
  by (rule decrypt_ok_iff)

text \<open>C2. Over any sequence of texts, malformed and forged ones included, at any clock readings, a codec
  accepts no nonce twice, and its cache grows by exactly one entry for every accepted message: nothing the
  codec does ever removes one.\<close>

theorem codec_accepts_nonce_once:
  "distinct (fst (codec_run P E c es)) \<and>
   cache_size (cd_guard (snd (codec_run P E c es))) =
     cache_size (cd_guard c) + length (fst (codec_run P E c es))"
  by (simp add: codec_run_admits guard_cache.admit_once codec_run_cache [unfolded codec_run_admits])

text \<open>A text that is not accepted leaves the codec as it was, whether \<open>decrypt\<close> returns an error
  result or raises, so a forged message can not burn the nonce of a genuine one.\<close>

lemma refused_message_no_effect:
  assumes "decrypt P E c t1 t2 raw = (r, c')" and "\<not> (\<exists>x. r = Inr x \<and> dr_ok x)"
  shows "c' = c"
  by (rule decrypt_refused [OF assms])

lemma refused_message_no_effect_example:
  "snd (decrypt toy_prims toy_env (toy_codec [1] [2]) 0 0 (lit ''['')) = toy_codec [1] [2]"
proof (rule refused_message_no_effect)
  show "decrypt toy_prims toy_env (toy_codec [1] [2]) 0 0 (lit ''['') =
    (fst (decrypt toy_prims toy_env (toy_codec [1] [2]) 0 0 (lit ''['')),
     snd (decrypt toy_prims toy_env (toy_codec [1] [2]) 0 0 (lit ''['')))" by simp
  show "\<not> (\<exists>x. fst (decrypt toy_prims toy_env (toy_codec [1] [2]) 0 0 (lit ''['')) = Inr x \<and> dr_ok x)"
    by (simp add: decrypt_def bad_json)
qed

text \<open>Text that is no JSON, JSON that is no object, and a timestamp that is no number make \<open>decrypt\<close>
  raise where its contract promises a result with \<open>ok = False\<close>.\<close>

lemma malformed_message_raises:
  "fst (decrypt P E c t1 t2 (lit ''hello'')) = Inl JSONDecodeError \<and>
   fst (decrypt P E c t1 t2 (lit ''[]'')) = Inl AttributeError \<and>
   fst (decrypt P E c t1 t2 (dumps_compact (JObj [(lit ''timestamp'', JNull)]))) = Inl TypeError"
proof -
  have c: "from_json (dumps_compact (JObj [(lit ''timestamp'', JNull)])) =
    Inr (empty_envelope\<lparr>timestamp := JNull\<rparr>)"
    by (simp add: from_json_def loads_dumps_compact jget_def empty_envelope_def)
  show ?thesis by (simp add: decrypt_def bad_json c validate_def within_window_def)
qed

end
