(* ===== verification/Agent_Manager.thy ===== *)
theory Agent_Manager
  imports Crypto_Envelope
begin

text \<open>
  forwarder/app/ws/agent\_manager.py: the registry of connected agents. Every method runs under one
  \<open>asyncio.Lock\<close>, so each is one atomic step on the state; \<open>send_to_agent\<close> and \<open>send_to_project\<close> look the
  agent up under the lock and call its send callback after they have released it.

  Agent ids and project names come from the handshake as JSON values of unchecked type, so the keys
  of the two dicts are JSON values; a list or an object is not hashable and raises \<open>TypeError\<close>. A dict finds a key
  that is the same object or equal to it; \<open>==\<close> is false on \<open>NaN\<close>, for which \<open>json.loads\<close> gives one object. (Values that
  Python counts as equal and that are written differently, \<open>True\<close> and \<open>1\<close>, \<open>1.0\<close> and \<open>1\<close>, are different keys here.)
\<close>

section \<open>State\<close>

record 'cb agent_info =
  ai_agent_id :: json
  ai_projects :: "json list"
  ai_connected_at :: int
  ai_send :: 'cb

record 'cb manager =
  by_agent :: "(json, 'cb agent_info) dict"
  project_to_agent :: "(json, json) dict"
  stopped :: bool

definition new_manager :: "'cb manager" where
  "new_manager = \<lparr>by_agent = [], project_to_agent = [], stopped = False\<rparr>"

definition hashable :: "json \<Rightarrow> bool" where
  "hashable v = (case v of JArr _ \<Rightarrow> False | JObj _ \<Rightarrow> False | _ \<Rightarrow> True)"

text \<open>\<open>list(v)\<close>: a string gives its characters, an object its keys.\<close>

definition py_list :: "json \<Rightarrow> json list res" where
  "py_list v =
     (case v of
        JArr vs \<Rightarrow> Inr vs
      | JStr s \<Rightarrow> Inr (map (\<lambda>c. JStr [c]) s)
      | JObj kvs \<Rightarrow> Inr (map (\<lambda>(k, _). JStr k) kvs)
      | _ \<Rightarrow> Inl TypeError)"

text \<open>\<open>a == b\<close>.\<close>

definition py_eq :: "json \<Rightarrow> json \<Rightarrow> bool" where
  "py_eq a b \<longleftrightarrow> a = b \<and> a \<noteq> JFloat (lit ''NaN'')"

section \<open>Registration\<close>

text \<open>\<open>for p in projects: self._project_to_agent[p] = agent_id\<close>, which stops at the first project
  that is no dict key.\<close>

fun assign_projects :: "json \<Rightarrow> json list \<Rightarrow> (json, json) dict \<Rightarrow> unit res \<times> (json, json) dict" where
  "assign_projects agent_id [] d = (Inr (), d)"
| "assign_projects agent_id (p # ps) d =
     (if hashable p then assign_projects agent_id ps (AList.update p agent_id d)
      else (Inl TypeError, d))"

definition add_agent :: "'cb manager \<Rightarrow> int \<Rightarrow> json \<Rightarrow> json \<Rightarrow> 'cb \<Rightarrow> unit res \<times> 'cb manager" where
  "add_agent m now agent_id projects send_cb =
     (if stopped m then (Inr (), m)
      else
        (case py_list projects of
           Inl e \<Rightarrow> (Inl e, m)
         | Inr ps \<Rightarrow>
             if \<not> hashable agent_id then (Inl TypeError, m)
             else
               (let info = \<lparr>ai_agent_id = agent_id, ai_projects = ps, ai_connected_at = now, ai_send = send_cb\<rparr>;
                    m1 = m\<lparr>by_agent := AList.update agent_id info (by_agent m)\<rparr>;
                    (r, d) = assign_projects agent_id ps (project_to_agent m1)
                in (r, m1\<lparr>project_to_agent := d\<rparr>))))"

definition remove_agent :: "'cb manager \<Rightarrow> json \<Rightarrow> unit res \<times> 'cb manager" where
  "remove_agent m agent_id =
     (if stopped m then (Inr (), m)
      else if \<not> hashable agent_id then (Inl TypeError, m)
      else
        (let to_remove = [p. (p, a) \<leftarrow> project_to_agent m, py_eq a agent_id]
         in (Inr (), m\<lparr>by_agent := AList.delete agent_id (by_agent m),
                       project_to_agent := fold AList.delete to_remove (project_to_agent m)\<rparr>)))"

section \<open>Lookup, sending, introspection\<close>

definition get_by_agent :: "'cb manager \<Rightarrow> json \<Rightarrow> 'cb agent_info option res" where
  "get_by_agent m agent_id =
     (if \<not> hashable agent_id then Inl TypeError else Inr (map_of (by_agent m) agent_id))"

text \<open>An agent id that is JSON \<open>null\<close> is Python's \<open>None\<close>, which the code takes for no agent.\<close>

definition get_by_project :: "'cb manager \<Rightarrow> json \<Rightarrow> 'cb agent_info option res" where
  "get_by_project m project =
     (if \<not> hashable project then Inl TypeError
      else
        (case map_of (project_to_agent m) project of
           None \<Rightarrow> Inr None
         | Some agent_id \<Rightarrow> if agent_id = JNull then Inr None else get_by_agent m agent_id))"

text \<open>The send callback is applied to the message and to the state it may change (\<open>call\<close>).\<close>

definition send_to_agent ::
    "('cb \<Rightarrow> MessageType \<Rightarrow> pystr \<Rightarrow> 's \<Rightarrow> bool res \<times> 's) \<Rightarrow> 'cb manager \<Rightarrow> json \<Rightarrow> MessageType \<Rightarrow> pystr \<Rightarrow>
     's \<Rightarrow> bool res \<times> 's" where
  "send_to_agent call m agent_id msg_type payload s =
     (case get_by_agent m agent_id of
        Inl e \<Rightarrow> (Inl e, s)
      | Inr None \<Rightarrow> (Inr False, s)
      | Inr (Some info) \<Rightarrow> call (ai_send info) msg_type payload s)"

definition send_to_project ::
    "('cb \<Rightarrow> MessageType \<Rightarrow> pystr \<Rightarrow> 's \<Rightarrow> bool res \<times> 's) \<Rightarrow> 'cb manager \<Rightarrow> json \<Rightarrow> MessageType \<Rightarrow> pystr \<Rightarrow>
     's \<Rightarrow> bool res \<times> 's" where
  "send_to_project call m project msg_type payload s =
     (case get_by_project m project of
        Inl e \<Rightarrow> (Inl e, s)
      | Inr None \<Rightarrow> (Inr False, s)
      | Inr (Some info) \<Rightarrow> call (ai_send info) msg_type payload s)"

definition list_agents :: "'cb manager \<Rightarrow> json list" where
  "list_agents m = dkeys (by_agent m)"

definition count_agents :: "'cb manager \<Rightarrow> nat" where
  "count_agents m = length (by_agent m)"

definition stop_all :: "'cb manager \<Rightarrow> 'cb manager" where
  "stop_all m = m\<lparr>stopped := True, by_agent := [], project_to_agent := []\<rparr>"

section \<open>Lemmas\<close>

lemma hashable_simps [simp]:
  "hashable JNull" "hashable (JBool b)" "hashable (JInt i)" "hashable (JFloat x)" "hashable (JStr s)"
  "\<not> hashable (JArr vs)" "\<not> hashable (JObj kvs)"
  by (simp_all add: hashable_def)

lemma assign_projects_ok:
  "list_all hashable ps \<Longrightarrow> fst (assign_projects a ps d) = Inr ()"
  by (induction ps arbitrary: d) auto

lemma map_of_assign:
  "list_all hashable ps \<Longrightarrow>
    map_of (snd (assign_projects a ps d)) p = (if p \<in> set ps then Some a else map_of d p)"
  by (induction ps arbitrary: d) auto

lemma assign_projects_old:
  "map_of (snd (assign_projects a ps d)) p = Some b \<Longrightarrow> b = a \<or> map_of d p = Some b"
proof (induction ps arbitrary: d)
  case (Cons q ps)
  show ?case
  proof (cases "hashable q")
    case True
    with Cons.IH [of "AList.update q a d"] Cons.prems show ?thesis by (auto split: if_splits)
  qed (use Cons.prems in simp)
qed simp

lemma map_of_fold_delete:
  "map_of (fold AList.delete ks d) k = (if k \<in> set ks then None else map_of d k)"
  by (induction ks arbitrary: d) auto

lemma dict_ok_fold_delete: "dict_ok d \<Longrightarrow> dict_ok (fold AList.delete ks d)"
  by (induction ks arbitrary: d) auto

lemma dict_ok_assign: "dict_ok d \<Longrightarrow> dict_ok (snd (assign_projects a ps d))"
  by (induction ps arbitrary: d) auto

lemma py_eq_JStr [simp]: "py_eq (JStr s) (JStr s)"
  by (auto simp: py_eq_def)

lemma map_of_remove_projects:
  assumes "dict_ok d"
  shows "map_of (fold AList.delete [p. (p, a) \<leftarrow> d, py_eq a b] d) k =
    (if map_of d k = Some b \<and> py_eq b b then None else map_of d k)"
proof -
  have "k \<in> set [p. (p, a) \<leftarrow> d, py_eq a b] \<longleftrightarrow> map_of d k = Some b \<and> py_eq b b"
    using assms by (force simp: dict_ok_def py_eq_def dest: map_of_SomeD split: if_splits)
  then show ?thesis by (simp add: map_of_fold_delete)
qed

section \<open>The state invariant\<close>

text \<open>Both dicts have distinct hashable keys, every project is routed to a registered agent or to the id \<open>NaN\<close>, every
  entry is stored under its own id, and a stopped manager is empty.\<close>

definition manager_ok :: "'cb manager \<Rightarrow> bool" where
  "manager_ok m \<longleftrightarrow>
     dict_ok (by_agent m) \<and> dict_ok (project_to_agent m) \<and>
     (\<forall>p a. map_of (project_to_agent m) p = Some a \<and> py_eq a a \<longrightarrow> map_of (by_agent m) a \<noteq> None) \<and>
     (\<forall>a info. map_of (by_agent m) a = Some info \<longrightarrow> hashable a \<and> ai_agent_id info = a) \<and>
     (stopped m \<longrightarrow> by_agent m = [] \<and> project_to_agent m = [])"

inductive manager_step :: "'cb manager \<Rightarrow> 'cb manager \<Rightarrow> bool" where
  step_add: "manager_step m (snd (add_agent m now agent_id projects cb))"
| step_remove: "manager_step m (snd (remove_agent m agent_id))"
| step_stop: "manager_step m (stop_all m)"

inductive manager_reachable :: "'cb manager \<Rightarrow> bool" where
  reach_new: "manager_reachable new_manager"
| reach_step: "manager_reachable m \<Longrightarrow> manager_step m m' \<Longrightarrow> manager_reachable m'"

inductive_cases manager_step_cases: "manager_step m m'"

lemma manager_ok_new: "manager_ok new_manager"
  by (simp add: manager_ok_def new_manager_def)

lemma manager_ok_add:
  assumes "manager_ok m"
  shows "manager_ok (snd (add_agent m now agent_id projects cb))"
proof (cases "stopped m \<or> (\<exists>e. py_list projects = Inl e) \<or> \<not> hashable agent_id")
  case True
  then show ?thesis using assms by (auto simp: add_agent_def split: sum.split)
next
  case False
  then obtain ps where ps: "py_list projects = Inr ps" and f: "\<not> stopped m" "hashable agent_id"
    by (cases "py_list projects") auto
  let ?d = "snd (assign_projects agent_id ps (project_to_agent m))"
  let ?i = "\<lparr>ai_agent_id = agent_id, ai_projects = ps, ai_connected_at = now, ai_send = cb\<rparr>"
  have new: "snd (add_agent m now agent_id projects cb) =
      m\<lparr>by_agent := AList.update agent_id ?i (by_agent m), project_to_agent := ?d\<rparr>"
    using f by (simp add: add_agent_def ps split: prod.split)
  have "map_of (by_agent m) a \<noteq> None \<or> a = agent_id" if "map_of ?d p = Some a" "py_eq a a" for p a
    using assign_projects_old [OF that(1)] that(2) assms by (auto simp: manager_ok_def)
  then show ?thesis
    using assms f dict_ok_assign [of "project_to_agent m" agent_id ps]
    unfolding new manager_ok_def by simp blast
qed

lemma manager_ok_remove:
  assumes "manager_ok m"
  shows "manager_ok (snd (remove_agent m agent_id))"
proof (cases "stopped m \<or> \<not> hashable agent_id")
  case True
  then show ?thesis using assms by (auto simp: remove_agent_def)
next
  case False
  have "dict_ok (project_to_agent m)" using assms by (simp add: manager_ok_def)
  from map_of_remove_projects [OF this] dict_ok_fold_delete [OF this] show ?thesis
    using assms False by (auto simp: remove_agent_def manager_ok_def Let_def)
qed

lemma manager_ok_reachable: "manager_reachable m \<Longrightarrow> manager_ok m"
proof (induction rule: manager_reachable.induct)
  case (reach_step m m')
  from reach_step.hyps(2) reach_step.IH show ?case
    by (cases rule: manager_step.cases)
      (simp_all add: manager_ok_add manager_ok_remove, simp add: manager_ok_def stop_all_def)
qed (rule manager_ok_new)

section \<open>The interface of a registry\<close>

text \<open>
  What a user of the registry relies on: registering an agent makes it the owner of all its projects and
  replaces its session, unregistering drops the session and frees exactly the projects that agent owned. The
  abstract specification of a run of such operations is \<open>owner\<close> and \<open>session\<close> below: a project belongs to the last
  agent that registered it, until that agent unregisters.
\<close>

datatype ('a, 'p, 'c) reg_event = Register 'a "'p list" 'c | Unregister 'a

fun owner :: "'p \<Rightarrow> 'a option \<Rightarrow> ('a, 'p, 'c) reg_event list \<Rightarrow> 'a option" where
  "owner p own [] = own"
| "owner p own (Register a ps c # es) = owner p (if p \<in> set ps then Some a else own) es"
| "owner p own (Unregister a # es) = owner p (if own = Some a then None else own) es"

fun session :: "'a \<Rightarrow> 'c option \<Rightarrow> ('a, 'p, 'c) reg_event list \<Rightarrow> 'c option" where
  "session b cur [] = cur"
| "session b cur (Register a ps c # es) = session b (if b = a then Some c else cur) es"
| "session b cur (Unregister a # es) = session b (if b = a then None else cur) es"

lemma owner_append: "owner p own (es @ fs) = owner p (owner p own es) fs"
  by (induction p own es rule: owner.induct) simp_all

lemma session_append: "session b cur (es @ fs) = session b (session b cur es) fs"
  by (induction b cur es rule: session.induct) simp_all

locale agent_registry =
  fixes ok :: "'m \<Rightarrow> bool"
    and register :: "'m \<Rightarrow> 'a \<Rightarrow> 'p list \<Rightarrow> 'c \<Rightarrow> 'm"
    and unregister :: "'m \<Rightarrow> 'a \<Rightarrow> 'm"
    and agent :: "'m \<Rightarrow> 'a \<Rightarrow> 'c option"
    and route :: "'m \<Rightarrow> 'p \<Rightarrow> 'a option"
  assumes ok_register: "ok m \<Longrightarrow> ok (register m a ps c)"
    and ok_unregister: "ok m \<Longrightarrow> ok (unregister m a)"
    and agent_register: "ok m \<Longrightarrow> agent (register m a ps c) b = (if b = a then Some c else agent m b)"
    and agent_unregister: "ok m \<Longrightarrow> agent (unregister m a) b = (if b = a then None else agent m b)"
    and route_register: "ok m \<Longrightarrow> route (register m a ps c) p = (if p \<in> set ps then Some a else route m p)"
    and route_unregister: "ok m \<Longrightarrow> route (unregister m a) p = (if route m p = Some a then None else route m p)"
    and route_agent: "ok m \<Longrightarrow> route m p = Some a \<Longrightarrow> agent m a \<noteq> None"
begin

fun run :: "'m \<Rightarrow> ('a, 'p, 'c) reg_event list \<Rightarrow> 'm" where
  "run m [] = m"
| "run m (Register a ps c # es) = run (register m a ps c) es"
| "run m (Unregister a # es) = run (unregister m a) es"

lemma ok_run: "ok m \<Longrightarrow> ok (run m es)"
  by (induction m es rule: run.induct) (auto simp: ok_register ok_unregister)

lemma route_run: "ok m \<Longrightarrow> route (run m es) p = owner p (route m p) es"
  by (induction m es rule: run.induct)
    (auto simp: ok_register ok_unregister route_register route_unregister)

lemma agent_run: "ok m \<Longrightarrow> agent (run m es) a = session a (agent m a) es"
  by (induction m es rule: run.induct)
    (auto simp: ok_register ok_unregister agent_register agent_unregister)

lemma routed_agent_run: "ok m \<Longrightarrow> route (run m es) p = Some a \<Longrightarrow> agent (run m es) a \<noteq> None"
  by (rule route_agent [OF ok_run])

end

section \<open>The manager provides it\<close>

text \<open>For agents and projects named by strings; a session is the time of its registration and its callback.\<close>

definition register_agent :: "'cb manager \<Rightarrow> pystr \<Rightarrow> pystr list \<Rightarrow> int \<times> 'cb \<Rightarrow> 'cb manager" where
  "register_agent m a ps c = snd (add_agent m (fst c) (JStr a) (JArr (map JStr ps)) (snd c))"

definition unregister_agent :: "'cb manager \<Rightarrow> pystr \<Rightarrow> 'cb manager" where
  "unregister_agent m a = snd (remove_agent m (JStr a))"

definition session_of :: "'cb manager \<Rightarrow> pystr \<Rightarrow> (int \<times> 'cb) option" where
  "session_of m a =
     (case get_by_agent m (JStr a) of
        Inr (Some info) \<Rightarrow> Some (ai_connected_at info, ai_send info)
      | _ \<Rightarrow> None)"

definition routed_to :: "'cb manager \<Rightarrow> pystr \<Rightarrow> pystr option" where
  "routed_to m p =
     (case get_by_project m (JStr p) of
        Inr (Some info) \<Rightarrow> (case ai_agent_id info of JStr a \<Rightarrow> Some a | _ \<Rightarrow> None)
      | _ \<Rightarrow> None)"

definition text_manager :: "'cb manager \<Rightarrow> bool" where
  "text_manager m \<longleftrightarrow>
     manager_ok m \<and> \<not> stopped m \<and>
     (\<forall>p a. map_of (project_to_agent m) p = Some a \<longrightarrow> (\<exists>s. a = JStr s))"

lemma register_agent_eq:
  "\<not> stopped m \<Longrightarrow> register_agent m a ps c =
     m\<lparr>by_agent := AList.update (JStr a)
         \<lparr>ai_agent_id = JStr a, ai_projects = map JStr ps, ai_connected_at = fst c, ai_send = snd c\<rparr> (by_agent m),
       project_to_agent := snd (assign_projects (JStr a) (map JStr ps) (project_to_agent m))\<rparr>"
  by (simp add: register_agent_def add_agent_def py_list_def split: prod.split)

lemma unregister_agent_eq:
  "\<not> stopped m \<Longrightarrow> unregister_agent m a =
     m\<lparr>by_agent := AList.delete (JStr a) (by_agent m),
       project_to_agent := fold AList.delete [p. (p, b) \<leftarrow> project_to_agent m, py_eq b (JStr a)] (project_to_agent m)\<rparr>"
  by (simp add: unregister_agent_def remove_agent_def)

lemma hashable_JStr_list [simp]: "list_all hashable (map JStr ps)"
  by (simp add: list_all_iff)

lemma routed_to_eq:
  assumes "text_manager m"
  shows "routed_to m p = (case map_of (project_to_agent m) (JStr p) of Some (JStr a) \<Rightarrow> Some a | _ \<Rightarrow> None)"
proof (cases "map_of (project_to_agent m) (JStr p)")
  case (Some v)
  then obtain a info where "v = JStr a" "map_of (by_agent m) (JStr a) = Some info" "ai_agent_id info = JStr a"
    using assms by (fastforce simp: text_manager_def manager_ok_def)
  then show ?thesis using Some by (simp add: routed_to_def get_by_project_def get_by_agent_def)
qed (simp add: routed_to_def get_by_project_def)

lemma text_manager_register: "text_manager m \<Longrightarrow> text_manager (register_agent m a ps c)"
proof -
  assume m: "text_manager m"
  then have "manager_ok (register_agent m a ps c)"
    by (simp add: text_manager_def register_agent_def manager_ok_add)
  moreover have "\<exists>s. b = JStr s"
    if "map_of (snd (assign_projects (JStr a) (map JStr ps) (project_to_agent m))) p = Some b" for p b
    using assign_projects_old [OF that] m by (auto simp: text_manager_def)
  ultimately show ?thesis using m by (auto simp: text_manager_def register_agent_eq)
qed

lemma text_manager_unregister: "text_manager m \<Longrightarrow> text_manager (unregister_agent m a)"
proof -
  assume m: "text_manager m"
  then have "manager_ok (unregister_agent m a)"
    by (simp add: text_manager_def unregister_agent_def manager_ok_remove)
  then show ?thesis using m
    by (auto simp: text_manager_def unregister_agent_eq map_of_fold_delete split: if_splits)
qed

interpretation registry: agent_registry text_manager register_agent unregister_agent session_of routed_to
proof
  fix m :: "'cb manager" and a b p :: pystr and ps :: "pystr list" and c
  assume m: "text_manager m"
  then have run: "\<not> stopped m" and d: "dict_ok (project_to_agent m)"
    by (simp_all add: text_manager_def manager_ok_def)
  show r: "text_manager (register_agent m a ps c)" and u: "text_manager (unregister_agent m a)"
    using m by (simp_all add: text_manager_register text_manager_unregister)
  show "session_of (register_agent m a ps c) b = (if b = a then Some c else session_of m b)"
    by (simp add: session_of_def get_by_agent_def register_agent_eq [OF run])
  show "session_of (unregister_agent m a) b = (if b = a then None else session_of m b)"
    by (simp add: session_of_def get_by_agent_def unregister_agent_eq [OF run])
  show "routed_to (register_agent m a ps c) p = (if p \<in> set ps then Some a else routed_to m p)"
    unfolding routed_to_eq [OF r] routed_to_eq [OF m]
    by (auto simp: register_agent_eq [OF run] map_of_assign)
  show "routed_to (unregister_agent m a) p = (if routed_to m p = Some a then None else routed_to m p)"
    unfolding routed_to_eq [OF u] routed_to_eq [OF m]
    by (simp add: unregister_agent_eq [OF run] map_of_remove_projects [OF d] split: option.split json.split)
  assume "routed_to m p = Some a"
  then show "session_of m a \<noteq> None"
    using m unfolding routed_to_eq [OF m]
    by (fastforce simp: session_of_def get_by_agent_def text_manager_def manager_ok_def
        split: option.splits json.splits)
qed

section \<open>Properties\<close>

text \<open>A run of registrations and disconnects on the manager.\<close>

fun manager_run :: "'cb manager \<Rightarrow> (pystr, pystr, int \<times> 'cb) reg_event list \<Rightarrow> 'cb manager" where
  "manager_run m [] = m"
| "manager_run m (Register a ps c # es) = manager_run (register_agent m a ps c) es"
| "manager_run m (Unregister a # es) = manager_run (unregister_agent m a) es"

lemma manager_run_eq: "manager_run m es = registry.run m es"
  by (induction m es rule: manager_run.induct) simp_all

lemma text_manager_new: "text_manager new_manager"
  by (simp add: text_manager_def manager_ok_new) (simp add: new_manager_def)

lemma routed_to_new [simp]: "routed_to new_manager p = None"
  by (simp add: routed_to_def get_by_project_def new_manager_def)

lemma session_of_new [simp]: "session_of new_manager a = None"
  by (simp add: session_of_def get_by_agent_def new_manager_def)

lemma manager_run_routes: "routed_to (manager_run new_manager es) p = owner p None es"
  by (simp add: manager_run_eq registry.route_run [OF text_manager_new])

lemma manager_run_sessions: "session_of (manager_run new_manager es) a = session a None es"
  by (simp add: manager_run_eq registry.agent_run [OF text_manager_new])

lemma text_manager_run: "text_manager (manager_run new_manager es)"
  by (simp add: manager_run_eq registry.ok_run [OF text_manager_new])

lemma send_to_project_eq:
  assumes "text_manager m"
  shows "send_to_project call m (JStr p) ty pl s =
    (case routed_to m p of
       None \<Rightarrow> (Inr False, s)
     | Some a \<Rightarrow> (case session_of m a of None \<Rightarrow> (Inr False, s) | Some (t, cb) \<Rightarrow> call cb ty pl s))"
proof (cases "map_of (project_to_agent m) (JStr p)")
  case (Some v)
  then obtain a info where "v = JStr a" "map_of (by_agent m) (JStr a) = Some info" "ai_agent_id info = JStr a"
    using assms by (fastforce simp: text_manager_def manager_ok_def)
  then show ?thesis
    using Some by (simp add: send_to_project_def routed_to_def session_of_def get_by_project_def get_by_agent_def)
qed (simp add: send_to_project_def routed_to_def get_by_project_def)

text \<open>C20. In every state the manager can reach, by any order of registrations (with ids and projects of any
  JSON type, failing ones included), disconnects and stops, every project that is routed to an id other than \<open>NaN\<close> leads to a
  registered agent, every agent is stored under its own id, no key occurs twice, and a stopped manager is empty. (Numbers and truth values that Python counts as equal though JSON writes
  them differently are different ids here.)\<close>

theorem manager_invariant:
  assumes "manager_reachable m"
  shows "manager_ok m"
  by (rule manager_ok_reachable [OF assms])

theorem manager_invariant_witness:
  "manager_ok (snd (add_agent (new_manager :: nat manager) 5 (JStr (lit ''a1'')) (JArr [JStr (lit ''p''), JArr []]) 7)) \<and>
   fst (add_agent (new_manager :: nat manager) 5 (JStr (lit ''a1'')) (JArr [JStr (lit ''p''), JArr []]) 7) = Inl TypeError"
proof
  show "manager_ok (snd (add_agent (new_manager :: nat manager) 5 (JStr (lit ''a1'')) (JArr [JStr (lit ''p''), JArr []]) 7))"
    by (rule manager_invariant) (rule reach_step [OF reach_new step_add])
qed (simp add: add_agent_def new_manager_def py_list_def)

text \<open>The id \<open>NaN\<close> is the exception: it is popped from the agents, but no route compares equal to it, so the projects of an
  agent that registered under it stay routed to it when it is gone.\<close>

lemma nan_agent_leaves_its_routes:
  assumes "\<not> stopped m" and "py_list projects = Inr ps" and "list_all hashable ps" and "p \<in> set ps"
  shows "\<exists>m1 m2. add_agent m now (JFloat (lit ''NaN'')) projects cb = (Inr (), m1) \<and>
    remove_agent m1 (JFloat (lit ''NaN'')) = (Inr (), m2) \<and> map_of (by_agent m2) (JFloat (lit ''NaN'')) = None \<and>
    map_of (project_to_agent m2) p = Some (JFloat (lit ''NaN''))"
proof -
  let ?nan = "JFloat (lit ''NaN'')"
  obtain m1 where m1: "add_agent m now ?nan projects cb = (Inr (), m1)" "\<not> stopped m1" "map_of (project_to_agent m1) p = Some ?nan"
    using assms assign_projects_ok [OF assms(3), of ?nan] map_of_assign [OF assms(3), of ?nan]
    by (cases "assign_projects ?nan ps (project_to_agent m)") (simp add: add_agent_def, metis fst_conv snd_conv)
  have none: "[q. (q, a) \<leftarrow> project_to_agent m1, py_eq a ?nan] = []" by (simp add: py_eq_def)
  show ?thesis using m1 by (simp add: remove_agent_def Let_def none)
qed

text \<open>C9. Message routing implements its abstract specification: after any run of registrations and
  disconnects, \<open>send_to_project\<close> calls exactly the callback of the current session of the project's owner, the last
  agent that registered the project and has not unregistered since, and answers False without any effect when there is none.\<close>

theorem send_to_project_reaches_owner:
  "send_to_project call (manager_run new_manager es) (JStr p) msg_type payload s =
    (case owner p None es of
       None \<Rightarrow> (Inr False, s)
     | Some a \<Rightarrow> (case session a None es of
                   None \<Rightarrow> (Inr False, s)
                 | Some (t, cb) \<Rightarrow> call cb msg_type payload s)) \<and>
   (\<forall>a. owner p None es = Some a \<longrightarrow> session a None es \<noteq> None)"
  using registry.routed_agent_run [OF text_manager_new, of es p]
  by (auto simp: send_to_project_eq [OF text_manager_run] manager_run_routes manager_run_sessions
      manager_run_eq [symmetric] split: option.split)

theorem send_to_project_reaches_owner_witness:
  "send_to_project (\<lambda>cb ty pl s. (Inr True, s @ [cb])) (manager_run new_manager
     [Register (lit ''a'') [lit ''p'', lit ''q''] (0, 1), Register (lit ''b'') [lit ''q''] (1, 2 :: nat)])
     (JStr (lit ''q'')) HEARTBEAT [] [] = (Inr True, [2])"
  using send_to_project_reaches_owner [of "\<lambda>cb ty pl s. (Inr True, s @ [cb])"
      "[Register (lit ''a'') [lit ''p'', lit ''q''] (0, 1), Register (lit ''b'') [lit ''q''] (1, 2 :: nat)]" "lit ''q''"
      HEARTBEAT "[]" "[]"]
  by simp

text \<open>When an agent reconnects before its old connection is noticed dead, the late disconnect of the
  old connection removes the new registration: the agent is connected, but no longer registered, and none of its projects is
  routed to it.\<close>

lemma stale_disconnect_drops_reconnected_agent:
  "session_of (manager_run new_manager (es @ [Register a ps c, Register a ps' c', Unregister a])) a = None \<and>
   routed_to (manager_run new_manager (es @ [Register a ps c, Register a ps' c', Unregister a])) p \<noteq> Some a"
  by (simp add: manager_run_routes manager_run_sessions owner_append session_append)

text \<open>When a second agent takes a project over and then leaves, the project is routed to nobody,
  although the first agent, which serves it too, is still registered.\<close>

lemma takeover_leaves_project_unrouted:
  assumes "a \<noteq> b" and "p \<in> set qs"
  shows "routed_to (manager_run new_manager (es @ [Register a ps c, Register b qs d, Unregister b])) p = None \<and>
    session_of (manager_run new_manager (es @ [Register a ps c, Register b qs d, Unregister b])) a = Some c"
  using assms by (simp add: manager_run_routes manager_run_sessions owner_append session_append)

lemma takeover_leaves_project_unrouted_example:
  "routed_to (manager_run new_manager ([] @ [Register (lit ''a'') [lit ''p''] (0, 1 :: nat),
     Register (lit ''b'') [lit ''p''] (1, 2), Unregister (lit ''b'')])) (lit ''p'') = None \<and>
   session_of (manager_run new_manager ([] @ [Register (lit ''a'') [lit ''p''] (0, 1 :: nat),
     Register (lit ''b'') [lit ''p''] (1, 2), Unregister (lit ''b'')])) (lit ''a'') = Some (0, 1)"
  by (rule takeover_leaves_project_unrouted) simp_all

text \<open>\<open>stop_all\<close> is final: whatever is called afterwards, the manager stays stopped and empty, no agent
  can register and nothing is sent.\<close>

lemma stopped_manager_stays_empty:
  assumes "manager_step\<^sup>*\<^sup>* (stop_all m) m'"
  shows "m' = stop_all m \<and> list_agents m' = [] \<and>
    send_to_project call m' (JStr p) msg_type payload s = (Inr False, s)"
proof -
  have "m' = stop_all m" using assms
  proof (induction rule: rtranclp_induct)
    case (step y z)
    from step.hyps(2) show ?case
      by (cases rule: manager_step.cases)
        (simp_all add: step.IH add_agent_def remove_agent_def, simp_all add: stop_all_def)
  qed simp
  then show ?thesis
    by (simp add: stop_all_def list_agents_def dkeys_def send_to_project_def get_by_project_def)
qed

lemma stopped_manager_stays_empty_example:
  "snd (add_agent (stop_all (new_manager :: nat manager)) 1 (JStr (lit ''a'')) (JArr []) 3) = stop_all new_manager"
  by (rule stopped_manager_stays_empty [OF r_into_rtranclp [of manager_step, OF step_add], THEN conjunct1])

end
