(* ===== verification/Agent_Handler.thy ===== *)
theory Agent_Handler
  imports Crypto_Codec Agent_Manager
begin

text \<open>
  forwarder/app/ws/agent\_handler.py: the handshake and the encrypted I/O loop of one agent connection. The websocket is a
  parameter: what it receives arrives as arguments, what is sent to it is collected, and a send that raises is the
  argument \<open>send_ok\<close> being false. Clock readings and random draws are arguments of the step that makes them. Registration
  and the end of a connection are composed with the manager in the server's theory.
\<close>

section \<open>The first message\<close>

text \<open>How a connection can fail: \<open>HandshakeError\<close> (with its reason), the socket, any other exception.\<close>

datatype handshake_reason = InvalidJson | MissingField pystr | WrongType json | BadSignature

datatype conn_error = HandshakeError handshake_reason | SocketDown | Unexpected exc

definition unexpected :: "'a res \<Rightarrow> conn_error + 'a" where
  "unexpected r = (case r of Inl e \<Rightarrow> Inl (Unexpected e) | Inr x \<Rightarrow> Inr x)"

record handshake_init =
  hi_agent_id :: json
  hi_projects :: json
  hi_ecdh_pub_pem :: json
  hi_ecdsa_pub_pem :: json
  hi_signature_b64 :: json

fun is_prefix_of :: "pystr \<Rightarrow> pystr \<Rightarrow> bool" where
  "is_prefix_of [] s = True"
| "is_prefix_of (c # p) (d # s) = (c = d \<and> is_prefix_of p s)"
| "is_prefix_of (c # p) [] = False"

fun is_substring :: "pystr \<Rightarrow> pystr \<Rightarrow> bool" where
  "is_substring p [] = (p = [])"
| "is_substring p (d # s) = (is_prefix_of p (d # s) \<or> is_substring p s)"

text \<open>\<open>field in j\<close> for the JSON value \<open>j\<close>: a key, an element, a substring, or a \<open>TypeError\<close>.\<close>

definition json_contains :: "pystr \<Rightarrow> json \<Rightarrow> bool res" where
  "json_contains field j =
     (case j of
        JObj kvs \<Rightarrow> Inr (map_of kvs field \<noteq> None)
      | JArr vs \<Rightarrow> Inr (JStr field \<in> set vs)
      | JStr s \<Rightarrow> Inr (is_substring field s)
      | _ \<Rightarrow> Inl TypeError)"

fun require_fields :: "pystr list \<Rightarrow> json \<Rightarrow> conn_error + unit" where
  "require_fields [] j = Inr ()"
| "require_fields (f # fs) j =
     rbind (unexpected (json_contains f j))
       (\<lambda>present. if \<not> present then Inl (HandshakeError (MissingField f)) else require_fields fs j)"

definition parse_handshake_init :: "pystr \<Rightarrow> conn_error + handshake_init" where
  "parse_handshake_init raw =
     (case loads raw of
        Inl e \<Rightarrow> Inl (if e = JSONDecodeError then HandshakeError InvalidJson else Unexpected e)
      | Inr j \<Rightarrow>
          rbind (require_fields [lit ''agent_id'', lit ''projects'', lit ''ecdh_pub_pem'', lit ''ecdsa_pub_pem'',
                                 lit ''signature''] j) (\<lambda>_.
            case j of
              JObj kvs \<Rightarrow>
                if jget kvs (lit ''type'') JNull \<noteq> JStr (lit ''HANDSHAKE_INIT'')
                then Inl (HandshakeError (WrongType (jget kvs (lit ''type'') JNull)))
                else Inr \<lparr>hi_agent_id = jget kvs (lit ''agent_id'') JNull,
                          hi_projects = jget kvs (lit ''projects'') JNull,
                          hi_ecdh_pub_pem = jget kvs (lit ''ecdh_pub_pem'') JNull,
                          hi_ecdsa_pub_pem = jget kvs (lit ''ecdsa_pub_pem'') JNull,
                          hi_signature_b64 = jget kvs (lit ''signature'') JNull\<rparr>
            | _ \<Rightarrow> Inl (Unexpected AttributeError)))"

section \<open>The handshake\<close>

text \<open>\<open>v.encode(...)\<close> exists for strings only.\<close>

definition text_of :: "json \<Rightarrow> pystr res" where
  "text_of v = (case v of JStr s \<Rightarrow> Inr s | _ \<Rightarrow> Inl AttributeError)"

definition BAR :: pystr where "BAR = lit ''|''"

definition init_signing_data :: "py_env \<Rightarrow> handshake_init \<Rightarrow> pystr" where
  "init_signing_data E init =
     py_str E (hi_agent_id init) @ BAR @ py_str E (hi_ecdh_pub_pem init) @ BAR @ py_str E (hi_ecdsa_pub_pem init)"

text \<open>Steps 2 and 3: the verifier from the key the agent sent, and its signature.\<close>

definition verify_init :: "('sk, 'pk) prims \<Rightarrow> py_env \<Rightarrow> handshake_init \<Rightarrow> conn_error + ('sk, 'pk) signer" where
  "verify_init P E init =
     rbind (unexpected (text_of (hi_ecdsa_pub_pem init))) (\<lambda>pem.
     rbind (unexpected (utf8_encode pem)) (\<lambda>pem_data.
     rbind (unexpected (from_public_key_data P pem_data)) (\<lambda>verifier.
     rbind (unexpected (decode_field (hi_signature_b64 init))) (\<lambda>sig.
     rbind (unexpected (utf8_encode (init_signing_data E init))) (\<lambda>data.
       if \<not> signer_verify P verifier data sig then Inl (HandshakeError BadSignature) else Inr verifier)))))"

text \<open>\<open>open(path, "r", encoding="utf-8").read()\<close>, with the newline translation of text mode.\<close>

fun universal_newlines :: "pystr \<Rightarrow> pystr" where
  "universal_newlines [] = []"
| "universal_newlines (c # s) =
     (if c = 13 then 10 # (case s of [] \<Rightarrow> [] | d # r \<Rightarrow> if d = 10 then universal_newlines r else universal_newlines s)
      else c # universal_newlines s)"

definition read_text :: "files \<Rightarrow> pystr \<Rightarrow> pystr res" where
  "read_text fs path =
     rbind (read_file fs path) (\<lambda>data. rbind (utf8_decode data) (\<lambda>s. Inr (universal_newlines s)))"

definition ack_json :: "pystr \<Rightarrow> pystr \<Rightarrow> bytes \<Rightarrow> json" where
  "ack_json ecdh_pem fwd_pub_pem sig =
     JObj [(lit ''type'', JStr (lit ''HANDSHAKE_ACK'')),
           (lit ''status'', JStr (lit ''OK'')),
           (lit ''ecdh_pub_pem'', JStr ecdh_pem),
           (lit ''ecdsa_pub_pem'', JStr fwd_pub_pem),
           (lit ''signature'', JStr (b64_encode sig))]"

definition error_ack :: "pystr \<Rightarrow> pystr" where
  "error_ack error =
     dumps_default (JObj [(lit ''type'', JStr (lit ''HANDSHAKE_ACK'')), (lit ''status'', JStr (lit ''ERROR'')),
                          (lit ''error'', JStr error)])"

text \<open>Steps 4 to 7: the ephemeral key, the shared secret, the own keys, the signed answer.\<close>

definition prepare_ack ::
    "('sk, 'pk) prims \<Rightarrow> files \<Rightarrow> pystr \<Rightarrow> pystr \<Rightarrow> bytes \<Rightarrow> bytes \<Rightarrow> handshake_init \<Rightarrow>
     conn_error + (pystr \<times> bytes \<times> ('sk, 'pk) signer)" where
  "prepare_ack P fs ecdsa_priv_file ecdsa_pub_file ecdh_rnd sig_rnd init =
     (let ecdh = new_ecdh P ecdh_rnd
      in rbind (unexpected (text_of (hi_ecdh_pub_pem init))) (\<lambda>peer_pem.
         rbind (unexpected (derive_shared_secret_pem P ecdh peer_pem)) (\<lambda>shared_secret.
         rbind (unexpected (from_private_key_file P fs ecdsa_priv_file)) (\<lambda>signer.
         rbind (unexpected (read_text fs ecdsa_pub_file)) (\<lambda>fwd_pub_pem.
         rbind (unexpected (utf8_encode (ecdh_public_key_pem P ecdh @ BAR @ fwd_pub_pem))) (\<lambda>ack_data.
         rbind (unexpected (signer_sign P signer sig_rnd ack_data)) (\<lambda>sig.
           Inr (dumps_default (ack_json (ecdh_public_key_pem P ecdh) fwd_pub_pem sig), shared_secret, signer))))))))"

record ('sk, 'pk) handshake =
  hk_agent_id :: json
  hk_projects :: json
  hk_codec :: "('sk, 'pk) codec"

text \<open>\<open>_do_handshake\<close>, with the texts it sends.\<close>

definition do_handshake ::
    "('sk, 'pk) prims \<Rightarrow> py_env \<Rightarrow> files \<Rightarrow> pystr \<Rightarrow> pystr \<Rightarrow> bytes \<Rightarrow> bytes \<Rightarrow> bool \<Rightarrow> pystr \<Rightarrow>
     (conn_error + ('sk, 'pk) handshake) \<times> pystr list" where
  "do_handshake P E fs ecdsa_priv_file ecdsa_pub_file ecdh_rnd sig_rnd send_ok raw =
     (case parse_handshake_init raw of
        Inl e \<Rightarrow> (Inl e, [])
      | Inr init \<Rightarrow>
          (case verify_init P E init of
             Inl e \<Rightarrow>
               (Inl e, if e = HandshakeError BadSignature \<and> send_ok
                       then [error_ack (lit ''Signature verification failed'')] else [])
           | Inr verifier \<Rightarrow>
               (case prepare_ack P fs ecdsa_priv_file ecdsa_pub_file ecdh_rnd sig_rnd init of
                  Inl e \<Rightarrow> (Inl e, [])
                | Inr (ack, shared_secret, signer) \<Rightarrow>
                    if \<not> send_ok then (Inl SocketDown, [])
                    else
                      (case new_cipher shared_secret of
                         Inl e \<Rightarrow> (Inl (Unexpected e), [ack])
                       | Inr ci \<Rightarrow>
                           (Inr \<lparr>hk_agent_id = hi_agent_id init,
                                 hk_projects = hi_projects init,
                                 hk_codec = new_codec ci signer verifier (Some (new_guard 300))\<rparr>, [ack])))))"

section \<open>The encrypted session\<close>

text \<open>A session after the handshake: its codec, the texts it has sent and the business messages it has
  handed to the message callback.\<close>

record ('sk, 'pk) session =
  ss_agent_id :: json
  ss_codec :: "('sk, 'pk) codec"
  ss_sent :: "pystr list"
  ss_dispatched :: "(json \<times> MessageType \<times> pystr) list"

text \<open>What one send draws: the clock of \<open>encrypt\<close>, its random bytes, and whether the socket takes the
  text.\<close>

record send_draws =
  sd_now :: int
  sd_draws :: draws
  sd_ok :: bool

text \<open>\<open>send_encrypted\<close>: every exception makes it return False.\<close>

definition send_encrypted ::
    "('sk, 'pk) prims \<Rightarrow> py_env \<Rightarrow> send_draws \<Rightarrow> MessageType \<Rightarrow> pystr \<Rightarrow> ('sk, 'pk) session \<Rightarrow>
     bool \<times> ('sk, 'pk) session" where
  "send_encrypted P E d msg_type msg_json s =
     (case rbind (utf8_encode msg_json) (\<lambda>data. encrypt P E (ss_codec s) (sd_now d) (sd_draws d) data msg_type) of
        Inl e \<Rightarrow> (False, s)
      | Inr enc_json \<Rightarrow> if sd_ok d then (True, s\<lparr>ss_sent := ss_sent s @ [enc_json]\<rparr>) else (False, s))"

definition heartbeat_ack :: pystr where
  "heartbeat_ack = dumps_default (JObj [(lit ''ack'', JStr (lit ''heartbeat''))])"

definition received_ack :: "json \<Rightarrow> pystr" where
  "received_ack mid = dumps_default (JObj [(lit ''msg_id'', mid), (lit ''status'', JStr (lit ''received''))])"

text \<open>One received text: \<open>Some e\<close> is an exception that leaves the loop. \<open>has_cb\<close> says whether the server
  has a message callback; what it does with a message is outside, and its exceptions are caught.\<close>

definition on_text ::
    "('sk, 'pk) prims \<Rightarrow> py_env \<Rightarrow> bool \<Rightarrow> int \<Rightarrow> int \<Rightarrow> send_draws \<Rightarrow> pystr \<Rightarrow> ('sk, 'pk) session \<Rightarrow>
     exc option \<times> ('sk, 'pk) session" where
  "on_text P E has_cb t1 t2 d raw s =
     (let (result, codec) = decrypt P E (ss_codec s) t1 t2 raw;
          s1 = s\<lparr>ss_codec := codec\<rparr>
      in case result of
           Inl e \<Rightarrow> (Some e, s1)
         | Inr r \<Rightarrow>
             if \<not> dr_ok r then (None, s1)
             else
               (case rbind (from_json raw) (\<lambda>env. rbind (parse_type (etype env)) (\<lambda>ty. Inr (env, ty))) of
                  Inl e \<Rightarrow> if is_value_error e then (None, s1) else (Some e, s1)
                | Inr (env, msg_type) \<Rightarrow>
                    if msg_type = ACK then (None, s1)
                    else if msg_type = HEARTBEAT then (None, snd (send_encrypted P E d ACK heartbeat_ack s1))
                    else
                      (let s2 = (if msg_type = BUILD_TRIGGER
                                 then snd (send_encrypted P E d ACK (received_ack (msg_id env)) s1) else s1)
                       in if \<not> has_cb then (None, s2)
                          else
                            (case utf8_decode (dr_plaintext r) of
                               Inl e \<Rightarrow> (None, s2)
                             | Inr plaintext \<Rightarrow>
                                 (None, s2\<lparr>ss_dispatched := ss_dispatched s2 @ [(ss_agent_id s, msg_type, plaintext)]\<rparr>)))))"

text \<open>The heartbeat task: every 30 seconds \<open>{"ts": ...}\<close>, whatever became of the last one.\<close>

definition heartbeat ::
    "('sk, 'pk) prims \<Rightarrow> py_env \<Rightarrow> int \<Rightarrow> send_draws \<Rightarrow> ('sk, 'pk) session \<Rightarrow> ('sk, 'pk) session" where
  "heartbeat P E ts d s =
     snd (send_encrypted P E d HEARTBEAT (dumps_default (JObj [(lit ''ts'', JInt ts)])) s)"

section \<open>A running session\<close>

text \<open>What can happen to a session, in any order: a text arrives, the heartbeat timer fires, the manager
  sends through it, the peer goes away.\<close>

datatype session_event =
    TextIn int int send_draws pystr
  | Tick int send_draws
  | SendOut send_draws MessageType pystr
  | PeerGone

datatype session_end = Running | Disconnected | Crashed exc

fun session_step ::
    "('sk, 'pk) prims \<Rightarrow> py_env \<Rightarrow> bool \<Rightarrow> session_event \<Rightarrow> ('sk, 'pk) session \<Rightarrow> session_end \<times> ('sk, 'pk) session" where
  "session_step P E has_cb (TextIn t1 t2 d raw) s =
     (case on_text P E has_cb t1 t2 d raw s of
        (None, s') \<Rightarrow> (Running, s')
      | (Some e, s') \<Rightarrow> (Crashed e, s'))"
| "session_step P E has_cb (Tick ts d) s = (Running, heartbeat P E ts d s)"
| "session_step P E has_cb (SendOut d ty m) s = (Running, snd (send_encrypted P E d ty m s))"
| "session_step P E has_cb PeerGone s = (Disconnected, s)"

fun session_run ::
    "('sk, 'pk) prims \<Rightarrow> py_env \<Rightarrow> bool \<Rightarrow> session_event list \<Rightarrow> ('sk, 'pk) session \<Rightarrow> session_end \<times> ('sk, 'pk) session" where
  "session_run P E has_cb [] s = (Running, s)"
| "session_run P E has_cb (ev # evs) s =
     (case session_step P E has_cb ev s of
        (Running, s') \<Rightarrow> session_run P E has_cb evs s'
      | (e, s') \<Rightarrow> (e, s'))"

section \<open>Lemmas\<close>

lemma unexpected_simps [simp]: "unexpected (Inr x) = Inr x" "unexpected (Inl e) = Inl (Unexpected e)"
  by (simp_all add: unexpected_def)

lemma unexpected_Inr [simp]: "unexpected r = Inr x \<longleftrightarrow> r = Inr x"
  by (simp add: unexpected_def split: sum.split)

lemma universal_newlines_id: "13 \<notin> set s \<Longrightarrow> universal_newlines s = s"
  by (induction s) auto

lemma is_json_error: "loads raw = Inl e \<Longrightarrow> e = JSONDecodeError"
  by (auto simp: loads_def split: if_splits option.splits prod.splits)

text \<open>The fields of a well-formed first message.\<close>

definition init_fields :: "(pystr, json) dict \<Rightarrow> json \<Rightarrow> json \<Rightarrow> json \<Rightarrow> json \<Rightarrow> json \<Rightarrow> bool" where
  "init_fields kvs a pr ec ed sg \<longleftrightarrow>
     map_of kvs (lit ''type'') = Some (JStr (lit ''HANDSHAKE_INIT'')) \<and>
     map_of kvs (lit ''agent_id'') = Some a \<and> map_of kvs (lit ''projects'') = Some pr \<and>
     map_of kvs (lit ''ecdh_pub_pem'') = Some ec \<and> map_of kvs (lit ''ecdsa_pub_pem'') = Some ed \<and>
     map_of kvs (lit ''signature'') = Some sg"

lemma parse_init_fields:
  assumes "loads raw = Inr (JObj kvs)" and "init_fields kvs a pr ec ed sg"
  shows "parse_handshake_init raw =
    Inr \<lparr>hi_agent_id = a, hi_projects = pr, hi_ecdh_pub_pem = ec, hi_ecdsa_pub_pem = ed, hi_signature_b64 = sg\<rparr>"
  using assms by (simp add: parse_handshake_init_def init_fields_def json_contains_def jget_def)

lemma parse_init_Inr:
  assumes "parse_handshake_init raw = Inr init"
  obtains kvs where "loads raw = Inr (JObj kvs)"
    "init_fields kvs (hi_agent_id init) (hi_projects init) (hi_ecdh_pub_pem init) (hi_ecdsa_pub_pem init) (hi_signature_b64 init)"
proof -
  obtain j where j: "loads raw = Inr j" using assms by (auto simp: parse_handshake_init_def split: sum.splits)
  show thesis
  proof (cases j)
    case (JObj kvs)
    then show ?thesis
      using assms j that [of kvs]
      by (auto simp: parse_handshake_init_def outcome_iff json_contains_def init_fields_def jget_def
          split: if_splits option.splits)
  qed (use assms j in \<open>auto simp: parse_handshake_init_def outcome_iff split: if_splits\<close>)
qed

text \<open>Keys as PEM text: what is written is ASCII without carriage returns, and reads back.\<close>

definition pem_text_ok :: "('sk, 'pk) prims \<Rightarrow> bool" where
  "pem_text_ok P \<longleftrightarrow> pem_ok P \<and> (\<forall>pk. 13 \<notin> set (p_pub_pem P pk))"

lemma pem_encode: "pem_text_ok P \<Longrightarrow> utf8_encode (p_pub_pem P pk) = Inr (map of_nat (p_pub_pem P pk))"
  by (rule utf8_encode_ascii) (simp add: pem_text_ok_def pem_ok_def)

lemma pem_ascii_encode: "pem_text_ok P \<Longrightarrow> ascii_encode (p_pub_pem P pk) = Inr (map of_nat (p_pub_pem P pk))"
  by (simp add: pem_text_ok_def pem_ok_def ascii_encode_def)

lemma pem_load: "pem_text_ok P \<Longrightarrow> from_public_key_data P (map of_nat (p_pub_pem P pk)) = Inr (new_signer\<lparr>sg_public := Some pk\<rparr>)"
  by (simp add: pem_text_ok_def pem_ok_def from_public_key_data_def)

lemma pem_scalar: "pem_text_ok P \<Longrightarrow> scalar_text (p_pub_pem P pk)"
  by (rule scalar_text_ascii) (simp add: pem_text_ok_def pem_ok_def)

lemma read_text_pem:
  assumes "pem_text_ok P" and "fs path = Some (map of_nat (p_pub_pem P pk))"
  shows "read_text fs path = Inr (p_pub_pem P pk)"
  using assms utf8_decode_encode [OF pem_encode [OF assms(1), of pk]]
  by (simp add: read_text_def read_file_def universal_newlines_id pem_text_ok_def)

lemma verify_init_signed:
  assumes "pem_text_ok P" "ecdsa_ok P" "\<forall>pk. p_is_ec P pk"
    and "hi_ecdsa_pub_pem init = JStr (p_pub_pem P (p_public P sk))"
    and "utf8_encode (init_signing_data E init) = Inr data" and "p_sign P sk r data = Inr sig"
    and "hi_signature_b64 init = JStr (b64_encode sig)"
  shows "verify_init P E init = Inr (new_signer\<lparr>sg_public := Some (p_public P sk)\<rparr>)"
  using assms(2,3,6)
  by (simp add: verify_init_def text_of_def assms(4,5,7) pem_encode [OF assms(1)] pem_load [OF assms(1)]
      decode_field_def signer_verify_public ecdsa_ok_def new_signer_def)

lemma derive_pem:
  assumes "pem_text_ok P" and "p_exchange P sk pk = Inr z"
  shows "derive_shared_secret_pem P \<lparr>ecdh_private = sk\<rparr> (p_pub_pem P pk) = Inr (sha256 z)"
  using assms by (simp add: derive_shared_secret_pem_def pem_ascii_encode) (simp add: pem_text_ok_def pem_ok_def)

text \<open>The forwarder's key files, as \<open>generate_keypair\<close> writes them for the key \<open>sk\<close>.\<close>

definition server_keys :: "('sk, 'pk) prims \<Rightarrow> files \<Rightarrow> pystr \<Rightarrow> pystr \<Rightarrow> 'sk \<Rightarrow> bool" where
  "server_keys P fs priv pub sk \<longleftrightarrow>
     fs priv = Some (p_priv_pem P sk) \<and> fs pub = Some (map of_nat (p_pub_pem P (p_public P sk)))"

definition sign_total :: "('sk, 'pk) prims \<Rightarrow> bool" where
  "sign_total P \<longleftrightarrow> (\<forall>sk r d. \<exists>s. p_sign P sk r d = Inr s)"

definition ack_signing_data :: "('sk, 'pk) prims \<Rightarrow> 'sk \<Rightarrow> 'sk \<Rightarrow> bytes" where
  "ack_signing_data P esk sk =
     map of_nat (p_pub_pem P (p_public P esk) @ BAR @ p_pub_pem P (p_public P sk))"

lemma ack_data_encode:
  assumes "pem_text_ok P"
  shows "utf8_encode (p_pub_pem P a @ BAR @ p_pub_pem P b) = Inr (map of_nat (p_pub_pem P a @ BAR @ p_pub_pem P b))"
  by (rule utf8_encode_ascii) (use assms in \<open>auto simp: pem_text_ok_def pem_ok_def BAR_def lit_def\<close>)

lemma prepare_ack_ok:
  assumes "pem_text_ok P" "sign_total P" "server_keys P fs priv pub skf"
    and "hi_ecdh_pub_pem init = JStr (p_pub_pem P pk)" and "p_exchange P (p_generate P rnd) pk = Inr z"
  shows "\<exists>sig. p_sign P skf rnd' (ack_signing_data P (p_generate P rnd) skf) = Inr sig \<and>
    prepare_ack P fs priv pub rnd rnd' init =
      Inr (dumps_default (ack_json (p_pub_pem P (p_public P (p_generate P rnd))) (p_pub_pem P (p_public P skf)) sig),
           sha256 z, new_signer\<lparr>sg_private := Some skf\<rparr>)"
proof -
  obtain sig where sig: "p_sign P skf rnd' (ack_signing_data P (p_generate P rnd) skf) = Inr sig"
    using assms(2) unfolding sign_total_def by blast
  have "from_private_key_file P fs priv = Inr (new_signer\<lparr>sg_private := Some skf\<rparr>)"
    using assms(1,3)
    by (simp add: from_private_key_file_def read_file_def server_keys_def from_private_key_data_def
        pem_text_ok_def pem_ok_def)
  moreover have "read_text fs pub = Inr (p_pub_pem P (p_public P skf))"
    using assms(3) read_text_pem [OF assms(1)] by (simp add: server_keys_def)
  ultimately show ?thesis
    using sig derive_pem [OF assms(1,5)]
    by (simp add: prepare_ack_def new_ecdh_def text_of_def assms(4) ecdh_public_key_pem_def
        ack_data_encode [OF assms(1)] signer_sign_def new_signer_def ack_signing_data_def)
qed

lemma loads_ack:
  assumes "pem_text_ok P"
  shows "loads (dumps_default (ack_json (p_pub_pem P a) (p_pub_pem P b) sig)) =
    Inr (ack_json (p_pub_pem P a) (p_pub_pem P b) sig)"
  using pem_scalar [OF assms]
  by (intro loads_dumps_default) (simp add: ack_json_def scalar_text_ok)

text \<open>What the agent makes of the answer: it derives the session key from the forwarder's ephemeral key, signs
  with its own key and verifies with the forwarder's.\<close>

definition agent_codec :: "('sk, 'pk) prims \<Rightarrow> 'sk \<Rightarrow> bytes \<Rightarrow> 'pk \<Rightarrow> ('sk, 'pk) codec" where
  "agent_codec P ska key pkf =
     new_codec \<lparr>cipher_key = key\<rparr> (new_signer\<lparr>sg_private := Some ska\<rparr>) (new_signer\<lparr>sg_public := Some pkf\<rparr>) None"

text \<open>The documented behaviour of the cryptography package that the handshake relies on; and the first
  message of an agent with the id \<open>a\<close>, the projects \<open>pr\<close>, the ephemeral key \<open>eska\<close> and the signing key \<open>ska\<close>.\<close>

definition crypto_ok :: "('sk, 'pk) prims \<Rightarrow> bool" where
  "crypto_ok P \<longleftrightarrow> pem_text_ok P \<and> ecdsa_ok P \<and> ecdh_ok P \<and> sign_total P \<and> (\<forall>pk. p_is_ec P pk)"

definition agent_hello :: "('sk, 'pk) prims \<Rightarrow> py_env \<Rightarrow> pystr \<Rightarrow> json \<Rightarrow> json \<Rightarrow> 'sk \<Rightarrow> 'sk \<Rightarrow> bool" where
  "agent_hello P E raw a pr eska ska \<longleftrightarrow>
     (\<exists>kvs sga r data.
        loads raw = Inr (JObj kvs) \<and>
        init_fields kvs a pr (JStr (p_pub_pem P (p_public P eska))) (JStr (p_pub_pem P (p_public P ska))) (JStr (b64_encode sga)) \<and>
        utf8_encode (py_str E a @ BAR @ p_pub_pem P (p_public P eska) @ BAR @ p_pub_pem P (p_public P ska)) = Inr data \<and>
        p_sign P ska r data = Inr sga)"

lemma handshake_sessions:
  assumes P: "crypto_ok P" and keys: "server_keys P fs priv pub skf" and hello: "agent_hello P E raw a pr eska ska"
  shows "\<exists>hk ack sgf key. do_handshake P E fs priv pub rnd rnd' True raw = (Inr hk, [ack]) \<and>
    hk_agent_id hk = a \<and> hk_projects hk = pr \<and>
    loads ack = Inr (ack_json (p_pub_pem P (p_public P (p_generate P rnd))) (p_pub_pem P (p_public P skf)) sgf) \<and>
    p_verify P (p_public P skf) sgf (ack_signing_data P (p_generate P rnd) skf) \<and>
    derive_shared_secret_pem P \<lparr>ecdh_private = eska\<rparr> (p_pub_pem P (p_public P (p_generate P rnd))) = Inr key \<and>
    paired P (agent_codec P ska key (p_public P skf)) (hk_codec hk) \<and>
    paired P (hk_codec hk) (agent_codec P ska key (p_public P skf)) \<and>
    cd_guard (hk_codec hk) = new_guard 300"
proof -
  have P': "pem_text_ok P" "ecdsa_ok P" "ecdh_ok P" "sign_total P" "\<forall>pk. p_is_ec P pk"
    using P by (simp_all add: crypto_ok_def)
  obtain kvs sga r data where raw: "loads raw = Inr (JObj kvs)"
    "init_fields kvs a pr (JStr (p_pub_pem P (p_public P eska))) (JStr (p_pub_pem P (p_public P ska))) (JStr (b64_encode sga))"
    and data: "utf8_encode (py_str E a @ BAR @ p_pub_pem P (p_public P eska) @ BAR @ p_pub_pem P (p_public P ska)) = Inr data"
    and sga: "p_sign P ska r data = Inr sga"
    using hello unfolding agent_hello_def by blast
  let ?init = "\<lparr>hi_agent_id = a, hi_projects = pr, hi_ecdh_pub_pem = JStr (p_pub_pem P (p_public P eska)),
     hi_ecdsa_pub_pem = JStr (p_pub_pem P (p_public P ska)), hi_signature_b64 = JStr (b64_encode sga)\<rparr>"
  obtain z where z: "p_exchange P (p_generate P rnd) (p_public P eska) = Inr z"
    "p_exchange P eska (p_public P (p_generate P rnd)) = Inr z"
    using P'(3) unfolding ecdh_ok_def by blast
  have init: "parse_handshake_init raw = Inr ?init" by (rule parse_init_fields [OF raw])
  have sd: "utf8_encode (init_signing_data E ?init) = Inr data"
    using data by (simp add: init_signing_data_def py_str_def)
  have ver: "verify_init P E ?init = Inr (new_signer\<lparr>sg_public := Some (p_public P ska)\<rparr>)"
    by (rule verify_init_signed [OF P'(1,2,5) _ sd sga]) simp_all
  obtain sig where sig: "p_sign P skf rnd' (ack_signing_data P (p_generate P rnd) skf) = Inr sig"
    and ack: "prepare_ack P fs priv pub rnd rnd' ?init =
      Inr (dumps_default (ack_json (p_pub_pem P (p_public P (p_generate P rnd))) (p_pub_pem P (p_public P skf)) sig),
           sha256 z, new_signer\<lparr>sg_private := Some skf\<rparr>)"
    using prepare_ack_ok [OF P'(1,4) keys _ z(1), of ?init rnd'] by auto
  have ci: "new_cipher (sha256 z) = Inr \<lparr>cipher_key = sha256 z\<rparr>" by (simp add: new_cipher_Inr)
  have p: "p_verify P (p_public P skf) sig (ack_signing_data P (p_generate P rnd) skf)"
    using P'(2) sig by (simp add: ecdsa_ok_def)
  show ?thesis
    using init ver ack ci p loads_ack [OF P'(1)] derive_pem [OF P'(1) z(2)] P'(5)
    by (simp add: do_handshake_def paired_def agent_codec_def new_codec_def new_signer_def) blast
qed

lemma toy_crypto_ok: "crypto_ok toy_prims"
proof -
  have "13 \<notin> set (hex_encode pk)" for pk
  proof
    assume "13 \<in> set (hex_encode pk)"
    then obtain x where "x \<in> set pk" "13 = hex_digit (unat x div 16) \<or> 13 = hex_digit (unat x mod 16)"
      by (auto simp: hex_encode_def)
    then show False by (auto simp: hex_digit_def split: if_splits)
  qed
  then have "pem_text_ok toy_prims" using toy_pem_ok by (simp add: pem_text_ok_def) (simp add: toy_prims_def)
  then show ?thesis using toy_ok by (simp add: crypto_ok_def) (simp add: toy_prims_def sign_total_def)
qed

definition toy_hello :: "pystr \<Rightarrow> json \<Rightarrow> bytes \<Rightarrow> bytes \<Rightarrow> pystr" where
  "toy_hello a pr esk sk =
     dumps_default (JObj
       [(lit ''type'', JStr (lit ''HANDSHAKE_INIT'')), (lit ''agent_id'', JStr a), (lit ''projects'', pr),
        (lit ''ecdh_pub_pem'', JStr (p_pub_pem toy_prims esk)), (lit ''ecdsa_pub_pem'', JStr (p_pub_pem toy_prims sk)),
        (lit ''signature'', JStr (b64_encode (sk @ [0] @ map of_nat (a @ BAR @ p_pub_pem toy_prims esk @ BAR @ p_pub_pem toy_prims sk))))])"

lemma toy_hello_ok:
  assumes "\<forall>c \<in> set a. c < 128" and "json_ok True pr"
  shows "agent_hello toy_prims E (toy_hello a pr esk sk) (JStr a) pr esk sk"
proof -
  have P: "pem_text_ok toy_prims" using toy_crypto_ok by (simp add: crypto_ok_def)
  have pub: "p_public toy_prims x = x" for x by (simp add: toy_prims_def)
  have "\<forall>c \<in> set (a @ BAR @ p_pub_pem toy_prims esk @ BAR @ p_pub_pem toy_prims sk). c < 128"
    using assms(1) P by (auto simp: pem_text_ok_def pem_ok_def BAR_def lit_def)
  note enc = utf8_encode_ascii [OF this]
  let ?data = "map of_nat (a @ BAR @ p_pub_pem toy_prims esk @ BAR @ p_pub_pem toy_prims sk)"
  let ?kvs = "[(lit ''type'', JStr (lit ''HANDSHAKE_INIT'')), (lit ''agent_id'', JStr a), (lit ''projects'', pr),
     (lit ''ecdh_pub_pem'', JStr (p_pub_pem toy_prims esk)), (lit ''ecdsa_pub_pem'', JStr (p_pub_pem toy_prims sk)),
     (lit ''signature'', JStr (b64_encode (sk @ [0] @ ?data)))]"
  show ?thesis
    unfolding agent_hello_def pub
  proof (intro exI conjI)
    show "loads (toy_hello a pr esk sk) = Inr (JObj ?kvs)"
      unfolding toy_hello_def
      by (rule loads_dumps_default) (simp add: assms scalar_text_ok scalar_text_ascii pem_scalar [OF P])
    show "init_fields ?kvs (JStr a) pr (JStr (p_pub_pem toy_prims esk)) (JStr (p_pub_pem toy_prims sk))
        (JStr (b64_encode (sk @ [0] @ ?data)))"
      by (simp add: init_fields_def)
    show "utf8_encode (py_str E (JStr a) @ BAR @ p_pub_pem toy_prims esk @ BAR @ p_pub_pem toy_prims sk) = Inr ?data"
      by (simp only: py_str_def json.case enc)
    show "p_sign toy_prims sk r ?data = Inr (sk @ [0] @ ?data)" for r
      by (simp add: toy_prims_def)
  qed
qed

definition toy_files :: "bytes \<Rightarrow> files" where
  "toy_files sk = [lit ''priv'' \<mapsto> p_priv_pem toy_prims sk, lit ''pub'' \<mapsto> map of_nat (p_pub_pem toy_prims sk)]"

lemma toy_server_keys: "server_keys toy_prims (toy_files sk) (lit ''priv'') (lit ''pub'') sk"
  by (simp add: server_keys_def toy_files_def) (simp add: toy_prims_def)

section \<open>What a session dispatches\<close>

text \<open>The envelopes and plaintexts a codec accepts from a list of texts, and the business message that the
  loop makes of one (an acknowledgement, a heartbeat, an unknown type or a plaintext that is not UTF-8 is none).\<close>

fun accepted ::
    "('sk, 'pk) prims \<Rightarrow> py_env \<Rightarrow> ('sk, 'pk) codec \<Rightarrow> (int \<times> int \<times> pystr) list \<Rightarrow> (CryptoEnvelope \<times> bytes) list" where
  "accepted P E c [] = []"
| "accepted P E c ((t1, t2, raw) # es) =
     (let (r, c1) = decrypt P E c t1 t2 raw;
          acc = accepted P E c1 es
      in case r of
           Inl _ \<Rightarrow> acc
         | Inr x \<Rightarrow> if \<not> dr_ok x then acc
                    else (case from_json raw of Inl _ \<Rightarrow> acc | Inr env \<Rightarrow> (env, dr_plaintext x) # acc))"

definition business :: "json \<Rightarrow> CryptoEnvelope \<times> bytes \<Rightarrow> (json \<times> MessageType \<times> pystr) list" where
  "business agent_id em =
     (case em of (env, m) \<Rightarrow>
        (case parse_type (etype env) of
           Inl _ \<Rightarrow> []
         | Inr ty \<Rightarrow>
             if ty = ACK \<or> ty = HEARTBEAT then []
             else (case utf8_decode m of Inl _ \<Rightarrow> [] | Inr t \<Rightarrow> [(agent_id, ty, t)])))"

definition text_inputs :: "session_event list \<Rightarrow> (int \<times> int \<times> pystr) list" where
  "text_inputs evs = concat (map (\<lambda>ev. case ev of TextIn t1 t2 d raw \<Rightarrow> [(t1, t2, raw)] | _ \<Rightarrow> []) evs)"

lemma decrypt_accepted:
  assumes "decrypt P E c t1 t2 raw = (Inr x, c1)" and "dr_ok x"
  obtains env n where "from_json raw = Inr env" "nonce env = JStr n" "nonce_of raw = n"
  using assms decrypt_ok_iff [of P E c t1 t2 raw x c1] by (auto simp: nonce_of_def)

lemma accepted_nonces:
  "map (\<lambda>em. nonce (fst em)) (accepted P E c es) = map JStr (fst (codec_run P E c es))"
proof (induction es arbitrary: c)
  case (Cons e es)
  obtain t1 t2 raw where e: "e = (t1, t2, raw)" by (cases e)
  obtain r c1 where d: "decrypt P E c t1 t2 raw = (r, c1)" by (cases "decrypt P E c t1 t2 raw")
  obtain ns c2 where n: "codec_run P E c1 es = (ns, c2)" by (cases "codec_run P E c1 es")
  have ih: "map (\<lambda>em. nonce (fst em)) (accepted P E c1 es) = map JStr ns"
    using Cons.IH [of c1] unfolding n fst_conv .
  show ?case
  proof (cases "\<exists>x. r = Inr x \<and> dr_ok x")
    case True
    then obtain x where x: "r = Inr x" "dr_ok x" by blast
    from decrypt_accepted [OF d [unfolded x(1)] x(2)] obtain env where
      "from_json raw = Inr env" "nonce env = JStr (nonce_of raw)" by metis
    then show ?thesis using x ih by (simp add: e d n)
  next
    case False
    then show ?thesis using ih by (auto simp: e d n split: sum.splits)
  qed
qed simp

lemma accepted_distinct: "distinct (map (\<lambda>em. nonce (fst em)) (accepted P E c es))"
proof -
  have "distinct (fst (codec_run P E c es))" by (simp add: codec_run_admits guard_cache.admit_once)
  then show ?thesis by (simp add: accepted_nonces distinct_map inj_on_def)
qed

lemma send_encrypted_frame [simp]:
  "ss_agent_id (snd (send_encrypted P E d ty m s)) = ss_agent_id s"
  "ss_codec (snd (send_encrypted P E d ty m s)) = ss_codec s"
  "ss_dispatched (snd (send_encrypted P E d ty m s)) = ss_dispatched s"
  by (simp_all add: send_encrypted_def split: sum.split)

text \<open>One text: the loop goes on exactly when \<open>decrypt\<close> returns.\<close>

lemma on_text_running:
  assumes "decrypt P E (ss_codec s) t1 t2 raw = (Inr x, c1)"
  shows "\<exists>s'. on_text P E True t1 t2 d raw s = (None, s') \<and> ss_codec s' = c1 \<and> ss_agent_id s' = ss_agent_id s \<and>
    ss_dispatched s' = ss_dispatched s @
      (if dr_ok x then (case from_json raw of Inl _ \<Rightarrow> [] | Inr env \<Rightarrow> business (ss_agent_id s) (env, dr_plaintext x)) else [])"
proof (cases "dr_ok x")
  case True
  from decrypt_accepted [OF assms True] obtain env where env: "from_json raw = Inr env" by metis
  show ?thesis
  proof (cases "parse_type (etype env)")
    case (Inl e)
    then have "is_value_error e" using parse_type_Inl by (simp add: is_value_error_def)
    then show ?thesis using True Inl by (simp add: on_text_def assms env business_def)
  next
    case (Inr ty)
    then show ?thesis using True
      by (cases "utf8_decode (dr_plaintext x)"; cases ty)
        (simp_all add: on_text_def assms env business_def Let_def)
  qed
qed (simp add: on_text_def assms)

lemma on_text_crash:
  "decrypt P E (ss_codec s) t1 t2 raw = (Inl e, c1) \<Longrightarrow> fst (on_text P E has_cb t1 t2 d raw s) = Some e"
  by (simp add: on_text_def)

lemma session_run_dispatch:
  "session_run P E True evs s = (Running, s') \<Longrightarrow>
    ss_dispatched s' = ss_dispatched s @
      concat (map (business (ss_agent_id s)) (accepted P E (ss_codec s) (text_inputs evs))) \<and>
    ss_codec s' = snd (codec_run P E (ss_codec s) (text_inputs evs))"
proof (induction evs arbitrary: s)
  case (Cons ev evs)
  show ?case
  proof (cases ev)
    case (TextIn t1 t2 d raw)
    obtain r c1 where d: "decrypt P E (ss_codec s) t1 t2 raw = (r, c1)" by (cases "decrypt P E (ss_codec s) t1 t2 raw")
    obtain x where x: "r = Inr x"
      using Cons.prems on_text_crash [of P E s t1 t2 raw _ c1 True d] d
      by (cases r) (auto simp: TextIn split: prod.splits option.splits)
    obtain s1 where s1: "on_text P E True t1 t2 d raw s = (None, s1)" "ss_codec s1 = c1" "ss_agent_id s1 = ss_agent_id s"
      "ss_dispatched s1 = ss_dispatched s @
        (if dr_ok x then (case from_json raw of Inl _ \<Rightarrow> [] | Inr env \<Rightarrow> business (ss_agent_id s) (env, dr_plaintext x)) else [])"
      using on_text_running [OF d [unfolded x], of d] by blast
    have "session_run P E True evs s1 = (Running, s')" using Cons.prems s1(1) by (simp add: TextIn)
    from Cons.IH [OF this] show ?thesis
      using s1(2-4) by (auto simp: TextIn text_inputs_def d x split: sum.splits prod.splits)
  next
    case (Tick ts d)
    have "session_run P E True evs (heartbeat P E ts d s) = (Running, s')" using Cons.prems by (simp add: Tick)
    from Cons.IH [OF this] show ?thesis by (simp add: Tick text_inputs_def heartbeat_def)
  next
    case (SendOut d ty m)
    have "session_run P E True evs (snd (send_encrypted P E d ty m s)) = (Running, s')"
      using Cons.prems by (simp add: SendOut)
    from Cons.IH [OF this] show ?thesis by (simp add: SendOut text_inputs_def)
  next
    case PeerGone
    then show ?thesis using Cons.prems by simp
  qed
qed (simp add: text_inputs_def)

definition toy_session :: "bytes \<Rightarrow> bytes \<Rightarrow> (bytes, bytes) session" where
  "toy_session own peer =
     \<lparr>ss_agent_id = JStr (lit ''a1''), ss_codec = toy_codec own peer, ss_sent = [], ss_dispatched = []\<rparr>"

definition toy_send :: send_draws where
  "toy_send = \<lparr>sd_now = 1000, sd_draws = \<lparr>dw_uuid = lit ''u9'', dw_nonce = [9], dw_iv = replicate 12 0, dw_sig = []\<rparr>,
     sd_ok = True\<rparr>"

section \<open>Properties\<close>

text \<open>C17. The handshake establishes a session: an agent that sends a first message with its two public keys, signed
  by its key, gets an answer that carries the forwarder's keys and a valid signature over them, and after it the two sides
  hold paired codecs in both directions: the same 32-byte key, and each verifies with the other's public key. The agent's id and
  projects are taken as sent.\<close>

theorem handshake_establishes_session:
  assumes "crypto_ok P" and "server_keys P fs priv pub skf" and "agent_hello P E raw a pr eska ska"
  shows "\<exists>hk ack sgf key. do_handshake P E fs priv pub rnd rnd' True raw = (Inr hk, [ack]) \<and>
    hk_agent_id hk = a \<and> hk_projects hk = pr \<and>
    loads ack = Inr (ack_json (p_pub_pem P (p_public P (p_generate P rnd))) (p_pub_pem P (p_public P skf)) sgf) \<and>
    p_verify P (p_public P skf) sgf (ack_signing_data P (p_generate P rnd) skf) \<and>
    derive_shared_secret_pem P \<lparr>ecdh_private = eska\<rparr> (p_pub_pem P (p_public P (p_generate P rnd))) = Inr key \<and>
    paired P (agent_codec P ska key (p_public P skf)) (hk_codec hk) \<and>
    paired P (hk_codec hk) (agent_codec P ska key (p_public P skf))"
  using handshake_sessions [OF assms] by blast

theorem handshake_establishes_session_witness:
  "\<exists>hk ack. do_handshake toy_prims toy_env (toy_files [7]) (lit ''priv'') (lit ''pub'') [3] [] True
       (toy_hello (lit ''a1'') (JArr [JStr (lit ''p'')]) [4] [5]) = (Inr hk, [ack]) \<and>
     hk_agent_id hk = JStr (lit ''a1'') \<and> hk_projects hk = JArr [JStr (lit ''p'')]"
proof -
  have "agent_hello toy_prims toy_env (toy_hello (lit ''a1'') (JArr [JStr (lit ''p'')]) [4] [5]) (JStr (lit ''a1''))
      (JArr [JStr (lit ''p'')]) [4] [5]"
    by (rule toy_hello_ok) (auto simp: lit_def text_ok_def is_surrogate_def)
  from handshake_establishes_session [OF toy_crypto_ok toy_server_keys this, of "[7]" "[3]" "[]"]
  show ?thesis by blast
qed

text \<open>C10. The I/O loop dispatches exactly the business messages the codec accepts: as long as a session runs, through
  any interleaving of arriving texts, heartbeats and sends, the message callback has been called, in order, with the decrypted
  text of every accepted message of a known type, neither an acknowledgement nor a heartbeat, whose decrypted bytes are UTF-8, and with nothing
  else; and no two of the accepted messages have the same nonce, so none is dispatched twice.\<close>

theorem session_dispatches_accepted_once:
  assumes "session_run P E True evs s = (Running, s')"
  shows "ss_dispatched s' = ss_dispatched s @
      concat (map (business (ss_agent_id s)) (accepted P E (ss_codec s) (text_inputs evs))) \<and>
    distinct (map (\<lambda>em. nonce (fst em)) (accepted P E (ss_codec s) (text_inputs evs)))"
  using session_run_dispatch [OF assms] accepted_distinct by blast

theorem session_dispatches_accepted_once_witness:
  "\<exists>raw s'. session_run toy_prims toy_env True [TextIn 2000 2001 toy_send raw, Tick 35 toy_send] (toy_session [1] [2]) = (Running, s') \<and>
     ss_dispatched s' = [(JStr (lit ''a1''), BUILD_RESULT, lit ''ok'')]"
proof -
  let ?d = "\<lparr>dw_uuid = lit ''u1'', dw_nonce = [1, 2], dw_iv = replicate 12 0, dw_sig = []\<rparr>"
  let ?c = "toy_codec [1] [2]"
  let ?c' = "?c\<lparr>cd_guard := record_nonce (cd_guard ?c) 2001 (b64_encode [1, 2])\<rparr>"
  have "\<exists>raw env. encrypt toy_prims toy_env (toy_codec [2] [1]) 1000 ?d (map of_nat (lit ''ok'')) BUILD_RESULT = Inr raw \<and>
    from_json raw = Inr env \<and> parse_type (etype env) = Inr BUILD_RESULT \<and>
    decrypt toy_prims toy_env ?c 2000 2001 raw = (Inr \<lparr>dr_plaintext = map of_nat (lit ''ok''), dr_ok = True, dr_error = NoDecryptError\<rparr>, ?c') \<and>
    decrypt toy_prims toy_env ?c' 3000 3001 raw = (Inr (failed (ReplayDetected (JStr (dw_uuid ?d)))), ?c')"
    by (rule encrypt_decrypt [OF toy_gcm_ok toy_ecdsa_ok])
      (simp_all add: toy_codec_def new_codec_def paired_def signer_sign_def toy_prims_def is_within_window_def)
  then obtain raw env where raw: "from_json raw = Inr env" "parse_type (etype env) = Inr BUILD_RESULT"
    "decrypt toy_prims toy_env ?c 2000 2001 raw = (Inr \<lparr>dr_plaintext = map of_nat (lit ''ok''), dr_ok = True, dr_error = NoDecryptError\<rparr>, ?c')"
    by blast
  let ?run = "session_run toy_prims toy_env True [TextIn 2000 2001 toy_send raw, Tick 35 toy_send] (toy_session [1] [2])"
  have "ss_codec (toy_session [1] [2]) = ?c" by (simp add: toy_session_def)
  then obtain s1 where "on_text toy_prims toy_env True 2000 2001 toy_send raw (toy_session [1] [2]) = (None, s1)"
    using on_text_running [of toy_prims toy_env "toy_session [1] [2]" 2000 2001 raw] raw(3) by metis
  then have "fst ?run = Running" by simp
  then have run: "?run = (Running, snd ?run)" by (simp add: prod_eq_iff)
  have "utf8_decode (map of_nat (lit ''ok'')) = Inr (lit ''ok'')"
    by (rule utf8_decode_encode [OF utf8_encode_ascii]) (simp add: lit_def)
  then have "ss_dispatched (snd ?run) = [(JStr (lit ''a1''), BUILD_RESULT, lit ''ok'')]"
    using session_dispatches_accepted_once [OF run] raw
    by (simp add: text_inputs_def toy_session_def business_def)
  with run show ?thesis by blast
qed

end
