(* ===== verification/Forwarder_Server.thy ===== *)
theory Forwarder_Server
  imports Agent_Handler
begin

text \<open>
  forwarder/app/ws/server.py and \<open>handle_agent_connection\<close> of agent\_handler.py: the server with all its agent connections. A
  connection runs the handshake, registers with the manager under a callback that sends through its session, runs its
  I/O loop, and unregisters. The connections interleave at every await, so the server is a machine whose steps
  are single events of single connections and calls of the REST interface, in any order. A send callback is the
  number of the connection it belongs to.
\<close>

section \<open>State\<close>

text \<open>\<open>sv_notices\<close> are the calls of the connect callback; \<open>sv_refused\<close> the texts sent on connections whose
  handshake failed.\<close>

record ('sk, 'pk) server =
  sv_manager :: "nat manager"
  sv_sessions :: "(nat, ('sk, 'pk) session) dict"
  sv_notices :: "(json \<times> bool) list"
  sv_refused :: "pystr list"

definition new_server :: "('sk, 'pk) server" where
  "new_server = \<lparr>sv_manager = new_manager, sv_sessions = [], sv_notices = [], sv_refused = []\<rparr>"

definition UNKNOWN :: json where
  "UNKNOWN = JStr (lit ''<unknown>'')"

section \<open>The life of a connection\<close>

text \<open>The \<open>finally\<close> block: an exception of \<open>remove_agent\<close> leaves it before the connect callback runs.\<close>

definition unregister :: "py_env \<Rightarrow> json \<Rightarrow> ('sk, 'pk) server \<Rightarrow> ('sk, 'pk) server" where
  "unregister E agent_id sv =
     (let (r, m) = (if py_truthy E agent_id \<and> agent_id \<noteq> UNKNOWN
                    then remove_agent (sv_manager sv) agent_id else (Inr (), sv_manager sv));
          sv1 = sv\<lparr>sv_manager := m\<rparr>
      in case r of
           Inl e \<Rightarrow> sv1
         | Inr _ \<Rightarrow> if agent_id \<noteq> UNKNOWN then sv1\<lparr>sv_notices := sv_notices sv1 @ [(agent_id, False)]\<rparr> else sv1)"

text \<open>From the accepted socket to the start of the I/O loop.\<close>

definition connect ::
    "('sk, 'pk) prims \<Rightarrow> py_env \<Rightarrow> files \<Rightarrow> pystr \<Rightarrow> pystr \<Rightarrow> nat \<Rightarrow> int \<Rightarrow> bytes \<Rightarrow> bytes \<Rightarrow> bool \<Rightarrow> pystr \<Rightarrow>
     ('sk, 'pk) server \<Rightarrow> ('sk, 'pk) server" where
  "connect P E fs priv pub cid now rnd rnd' send_ok raw sv =
     (case do_handshake P E fs priv pub rnd rnd' send_ok raw of
        (Inl e, out) \<Rightarrow> sv\<lparr>sv_refused := sv_refused sv @ out\<rparr>
      | (Inr hk, out) \<Rightarrow>
          (let sv1 = sv\<lparr>sv_notices := sv_notices sv @ [(hk_agent_id hk, True)]\<rparr>;
               (r, m) = add_agent (sv_manager sv1) now (hk_agent_id hk) (hk_projects hk) cid;
               sv2 = sv1\<lparr>sv_manager := m\<rparr>
           in case r of
                Inl e \<Rightarrow> unregister E (hk_agent_id hk) sv2
              | Inr _ \<Rightarrow>
                  sv2\<lparr>sv_sessions := AList.update cid
                        \<lparr>ss_agent_id = hk_agent_id hk, ss_codec = hk_codec hk, ss_sent = out, ss_dispatched = []\<rparr>
                        (sv_sessions sv2)\<rparr>))"

text \<open>One event of the session of connection \<open>cid\<close>; when its loop ends, the connection unregisters.\<close>

definition session_event_step ::
    "('sk, 'pk) prims \<Rightarrow> py_env \<Rightarrow> bool \<Rightarrow> nat \<Rightarrow> session_event \<Rightarrow> ('sk, 'pk) server \<Rightarrow> ('sk, 'pk) server" where
  "session_event_step P E has_cb cid ev sv =
     (case map_of (sv_sessions sv) cid of
        None \<Rightarrow> sv
      | Some s \<Rightarrow>
          (case session_step P E has_cb ev s of
             (Running, s') \<Rightarrow> sv\<lparr>sv_sessions := AList.update cid s' (sv_sessions sv)\<rparr>
           | (_, s') \<Rightarrow> unregister E (ss_agent_id s) (sv\<lparr>sv_sessions := AList.delete cid (sv_sessions sv)\<rparr>)))"

text \<open>The send callback of connection \<open>cid\<close>: on a connection that is gone the send fails.\<close>

definition call_back ::
    "('sk, 'pk) prims \<Rightarrow> py_env \<Rightarrow> send_draws \<Rightarrow> nat \<Rightarrow> MessageType \<Rightarrow> pystr \<Rightarrow> ('sk, 'pk) server \<Rightarrow>
     bool res \<times> ('sk, 'pk) server" where
  "call_back P E d cid ty m sv =
     (case map_of (sv_sessions sv) cid of
        None \<Rightarrow> (Inr False, sv)
      | Some s \<Rightarrow>
          (let (ok, s') = send_encrypted P E d ty m s
           in (Inr ok, sv\<lparr>sv_sessions := AList.update cid s' (sv_sessions sv)\<rparr>)))"

section \<open>The forwarder's operations and its REST interface\<close>

definition server_send_to_agent ::
    "('sk, 'pk) prims \<Rightarrow> py_env \<Rightarrow> send_draws \<Rightarrow> json \<Rightarrow> MessageType \<Rightarrow> pystr \<Rightarrow> ('sk, 'pk) server \<Rightarrow>
     bool res \<times> ('sk, 'pk) server" where
  "server_send_to_agent P E d agent_id ty payload sv =
     send_to_agent (call_back P E d) (sv_manager sv) agent_id ty payload sv"

definition server_send_to_project ::
    "('sk, 'pk) prims \<Rightarrow> py_env \<Rightarrow> send_draws \<Rightarrow> json \<Rightarrow> MessageType \<Rightarrow> pystr \<Rightarrow> ('sk, 'pk) server \<Rightarrow>
     bool res \<times> ('sk, 'pk) server" where
  "server_send_to_project P E d project ty payload sv =
     send_to_project (call_back P E d) (sv_manager sv) project ty payload sv"

text \<open>An HTTP answer: the JSON body of a 200, or the status of an \<open>HTTPException\<close>; an unhandled exception
  is a 500; a page is rendered from a template, with the name of the active page.\<close>

datatype http = Answer json | HttpError nat | Unhandled exc | Rendered pystr pystr

definition health :: "('sk, 'pk) server \<Rightarrow> http" where
  "health sv =
     Answer (JObj [(lit ''status'', JStr (lit ''ok'')), (lit ''agents'', JInt (int (count_agents (sv_manager sv)))),
                   (lit ''version'', JStr (lit ''3.0.0''))])"

definition list_agents_api :: "('sk, 'pk) server \<Rightarrow> http" where
  "list_agents_api sv =
     (let agents = list_agents (sv_manager sv)
      in Answer (JObj [(lit ''agents'', JArr agents), (lit ''count'', JInt (int (length agents)))]))"

definition build_answer :: "pystr \<Rightarrow> bool res \<Rightarrow> http" where
  "build_answer project r =
     (case r of
        Inl e \<Rightarrow> Unhandled e
      | Inr success \<Rightarrow>
          if \<not> success then HttpError 404
          else Answer (JObj [(lit ''status'', JStr (lit ''sent'')), (lit ''project'', JStr project)]))"

definition trigger_build_api ::
    "('sk, 'pk) prims \<Rightarrow> py_env \<Rightarrow> send_draws \<Rightarrow> pystr \<Rightarrow> json \<Rightarrow> ('sk, 'pk) server \<Rightarrow> http \<times> ('sk, 'pk) server" where
  "trigger_build_api P E d project payload sv =
     (let (r, sv') = server_send_to_project P E d (JStr project) BUILD_TRIGGER (dumps_default payload) sv
      in (build_answer project r, sv'))"

text \<open>The shutdown half of \<open>lifespan\<close>.\<close>

definition shutdown :: "('sk, 'pk) server \<Rightarrow> ('sk, 'pk) server" where
  "shutdown sv = sv\<lparr>sv_manager := stop_all (sv_manager sv)\<rparr>"

section \<open>The machine\<close>

inductive server_step ::
    "('sk, 'pk) prims \<Rightarrow> py_env \<Rightarrow> files \<Rightarrow> pystr \<Rightarrow> pystr \<Rightarrow> bool \<Rightarrow> ('sk, 'pk) server \<Rightarrow> ('sk, 'pk) server \<Rightarrow> bool"
  for P E fs priv pub has_cb where
  step_connect: "map_of (sv_sessions sv) cid = None \<Longrightarrow>
    server_step P E fs priv pub has_cb sv (connect P E fs priv pub cid now rnd rnd' send_ok raw sv)"
| step_session: "server_step P E fs priv pub has_cb sv (session_event_step P E has_cb cid ev sv)"
| step_agent_send: "server_step P E fs priv pub has_cb sv (snd (server_send_to_agent P E d agent_id ty payload sv))"
| step_project_send: "server_step P E fs priv pub has_cb sv (snd (server_send_to_project P E d project ty payload sv))"
| step_trigger: "server_step P E fs priv pub has_cb sv (snd (trigger_build_api P E d p payload sv))"
| step_shutdown: "server_step P E fs priv pub has_cb sv (shutdown sv)"

inductive_cases server_stepE: "server_step P E fs priv pub has_cb sv sv'"

inductive server_reachable ::
    "('sk, 'pk) prims \<Rightarrow> py_env \<Rightarrow> files \<Rightarrow> pystr \<Rightarrow> pystr \<Rightarrow> bool \<Rightarrow> ('sk, 'pk) server \<Rightarrow> bool"
  for P E fs priv pub has_cb where
  reach_init: "server_reachable P E fs priv pub has_cb new_server"
| reach_next: "server_reachable P E fs priv pub has_cb sv \<Longrightarrow> server_step P E fs priv pub has_cb sv sv' \<Longrightarrow>
    server_reachable P E fs priv pub has_cb sv'"

section \<open>The invariant\<close>

text \<open>The ids that are registered and unregistered regularly: non-empty strings other than the
  placeholder.\<close>

definition named :: "json \<Rightarrow> bool" where
  "named a \<longleftrightarrow> (\<exists>s. a = JStr s \<and> s \<noteq> []) \<and> a \<noteq> UNKNOWN"

definition server_ok :: "('sk, 'pk) server \<Rightarrow> bool" where
  "server_ok sv \<longleftrightarrow>
     manager_ok (sv_manager sv) \<and>
     (\<forall>a info. named a \<longrightarrow> map_of (by_agent (sv_manager sv)) a = Some info \<longrightarrow>
        (\<exists>s. map_of (sv_sessions sv) (ai_send info) = Some s \<and> ss_agent_id s = a))"

lemma named_truthy: "named a \<Longrightarrow> py_truthy E a \<and> a \<noteq> UNKNOWN \<and> hashable a"
  by (auto simp: named_def py_truthy_def)

lemma add_agent_entries:
  "by_agent (snd (add_agent m now a pr cb)) = by_agent m \<or>
   (\<exists>info. map_of (by_agent (snd (add_agent m now a pr cb))) = (map_of (by_agent m))(a \<mapsto> info) \<and> ai_send info = cb)"
proof (cases "stopped m \<or> \<not> res_ok (py_list pr) \<or> \<not> hashable a")
  case True
  then show ?thesis by (auto simp: add_agent_def split: sum.split)
next
  case False
  then obtain ps where "py_list pr = Inr ps" by (auto simp: res_ok_iff)
  with False have "by_agent (snd (add_agent m now a pr cb)) =
      AList.update a \<lparr>ai_agent_id = a, ai_projects = ps, ai_connected_at = now, ai_send = cb\<rparr> (by_agent m)"
    by (simp add: add_agent_def Let_def split: prod.split)
  then show ?thesis by (intro disjI2 exI conjI) (simp_all, simp)
qed

lemma add_agent_entry:
  "map_of (by_agent (snd (add_agent m now a pr cb))) b = Some info \<Longrightarrow>
    (b = a \<and> ai_send info = cb) \<or> map_of (by_agent m) b = Some info"
  using add_agent_entries [of m now a pr cb] by (auto split: if_splits)

lemma add_agent_self:
  "fst (add_agent m now a pr cb) = Inr u \<Longrightarrow> \<not> stopped m \<Longrightarrow>
    \<exists>info. map_of (by_agent (snd (add_agent m now a pr cb))) a = Some info \<and> ai_send info = cb"
  "stopped (snd (add_agent m now a pr cb)) = stopped m"
  by (auto simp: add_agent_def Let_def split: sum.splits prod.splits if_splits)

lemma remove_agent_entries:
  "hashable a \<Longrightarrow> manager_ok m \<Longrightarrow>
    map_of (by_agent (snd (remove_agent m a))) = (map_of (by_agent m))(a := None)"
  by (auto simp: remove_agent_def manager_ok_def)

lemma remove_agent_other: "b \<noteq> a \<Longrightarrow> map_of (by_agent (snd (remove_agent m a))) b = map_of (by_agent m) b"
  by (simp add: remove_agent_def Let_def)

lemma unregister_manager:
  "sv_manager (unregister E a sv) =
    (if py_truthy E a \<and> a \<noteq> UNKNOWN then snd (remove_agent (sv_manager sv) a) else sv_manager sv)"
  "sv_sessions (unregister E a sv) = sv_sessions sv"
  by (auto simp: unregister_def Let_def split: sum.split prod.split)

text \<open>Who is registered after an \<open>unregister\<close> of \<open>a\<close> was registered before, under another id.\<close>

lemma unregister_entry:
  assumes "manager_ok (sv_manager sv)" and b: "named b"
    and i: "map_of (by_agent (sv_manager (unregister E a sv))) b = Some info"
  shows "b \<noteq> a \<and> map_of (by_agent (sv_manager sv)) b = Some info"
proof -
  have ne: "b \<noteq> a"
    using i named_truthy [OF b, of E] remove_agent_entries [OF _ assms(1), of a] by (auto simp: unregister_manager)
  then show ?thesis using i by (simp add: unregister_manager remove_agent_other split: if_splits)
qed

lemma manager_ok_unregister: "manager_ok (sv_manager sv) \<Longrightarrow> manager_ok (sv_manager (unregister E a sv))"
  by (simp add: unregister_manager manager_ok_remove)

text \<open>Unregistering restores the invariant when it only failed for the id that unregisters.\<close>

lemma server_ok_unregister:
  assumes "manager_ok (sv_manager sv)"
    and "\<And>b info. named b \<Longrightarrow> b \<noteq> a \<Longrightarrow> map_of (by_agent (sv_manager sv)) b = Some info \<Longrightarrow>
      \<exists>s. map_of (sv_sessions sv) (ai_send info) = Some s \<and> ss_agent_id s = b"
  shows "server_ok (unregister E a sv)"
  using assms(2) unregister_entry [OF assms(1)] manager_ok_unregister [OF assms(1)]
  unfolding server_ok_def unregister_manager(2) by blast

lemma server_ok_connect:
  assumes ok: "server_ok sv" and fresh: "map_of (sv_sessions sv) cid = None"
  shows "server_ok (connect P E fs priv pub cid now rnd rnd' send_ok raw sv)"
proof -
  obtain h out where h: "do_handshake P E fs priv pub rnd rnd' send_ok raw = (h, out)"
    by (cases "do_handshake P E fs priv pub rnd rnd' send_ok raw")
  show ?thesis
  proof (cases h)
    case (Inl e)
    then show ?thesis using ok by (simp add: connect_def h server_ok_def)
  next
    case (Inr hk)
    let ?a = "hk_agent_id hk"
    obtain r m where m: "add_agent (sv_manager sv) now ?a (hk_projects hk) cid = (r, m)"
      by (cases "add_agent (sv_manager sv) now ?a (hk_projects hk) cid")
    have mok: "manager_ok m"
      using manager_ok_add [of "sv_manager sv" now ?a "hk_projects hk" cid] ok by (simp add: m server_ok_def)
    have ent: "map_of (by_agent m) b = map_of (by_agent (sv_manager sv)) b" if "b \<noteq> ?a" for b
      using add_agent_entries [of "sv_manager sv" now ?a "hk_projects hk" cid] that by (auto simp: m)
    have live: "\<exists>s. map_of (sv_sessions sv) (ai_send info) = Some s \<and> ss_agent_id s = b \<and> ai_send info \<noteq> cid"
      if "named b" "map_of (by_agent (sv_manager sv)) b = Some info" for b info
      using ok that fresh by (fastforce simp: server_ok_def)
    have self: "ai_send info = cid \<or> map_of (by_agent (sv_manager sv)) ?a = Some info"
      if "map_of (by_agent m) ?a = Some info" for info
      using add_agent_entries [of "sv_manager sv" now ?a "hk_projects hk" cid] that by (auto simp: m)
    show ?thesis
    proof (cases r)
      case Inl': (Inl e)
      have "server_ok (unregister E ?a (sv\<lparr>sv_notices := sv_notices sv @ [(?a, True)], sv_manager := m\<rparr>))"
        using mok ent live by (intro server_ok_unregister) (auto dest!: live)
      then show ?thesis by (simp add: connect_def h Inr m Inl')
    next
      case Inr': (Inr u)
      let ?s = "\<lparr>ss_agent_id = ?a, ss_codec = hk_codec hk, ss_sent = out, ss_dispatched = []\<rparr>"
      have "\<exists>s. map_of (AList.update cid ?s (sv_sessions sv)) (ai_send info) = Some s \<and> ss_agent_id s = b"
        if "named b" "map_of (by_agent m) b = Some info" for b info
        using that live [OF that(1), of info] ent [of b] self [of info] by (cases "b = ?a") auto
      then show ?thesis using mok by (simp add: connect_def h Inr m Inr' server_ok_def)
    qed
  qed
qed

lemma session_step_agent: "ss_agent_id (snd (session_step P E has_cb ev s)) = ss_agent_id s"
proof (cases ev)
  case (TextIn t1 t2 d raw)
  have "ss_agent_id (snd (on_text P E has_cb t1 t2 d raw s)) = ss_agent_id s"
    by (auto simp: on_text_def Let_def split: prod.splits sum.splits)
  then show ?thesis by (auto simp: TextIn split: prod.split option.split)
qed (simp_all add: heartbeat_def)

lemma server_ok_update_session:
  assumes "server_ok sv" and "map_of (sv_sessions sv) cid = Some s" and "ss_agent_id s' = ss_agent_id s"
  shows "server_ok (sv\<lparr>sv_sessions := AList.update cid s' (sv_sessions sv)\<rparr>)"
  using assms by (fastforce simp: server_ok_def)

lemma server_ok_session:
  assumes ok: "server_ok sv"
  shows "server_ok (session_event_step P E has_cb cid ev sv)"
proof (cases "map_of (sv_sessions sv) cid")
  case None
  then show ?thesis using ok by (simp add: session_event_step_def)
next
  case (Some s)
  obtain r s' where r: "session_step P E has_cb ev s = (r, s')" by (cases "session_step P E has_cb ev s")
  have a: "ss_agent_id s' = ss_agent_id s" using session_step_agent [of P E has_cb ev s] r by simp
  have gone: "server_ok (unregister E (ss_agent_id s) (sv\<lparr>sv_sessions := AList.delete cid (sv_sessions sv)\<rparr>))"
    using ok Some by (intro server_ok_unregister) (fastforce simp: server_ok_def)+
  show ?thesis
    using server_ok_update_session [OF ok Some a] gone
    by (cases r) (simp_all add: session_event_step_def Some r)
qed

lemma server_ok_call:
  assumes ok: "server_ok sv"
  shows "server_ok (snd (call_back P E d cid ty m sv))"
proof (cases "map_of (sv_sessions sv) cid")
  case (Some s)
  then show ?thesis
    using server_ok_update_session [OF ok Some, of "snd (send_encrypted P E d ty m s)"]
    by (simp add: call_back_def split: prod.split) (metis snd_conv send_encrypted_frame(1))
qed (simp add: call_back_def ok)

lemma server_ok_send:
  assumes ok: "server_ok sv"
  shows "server_ok (snd (server_send_to_agent P E d a ty payload sv))"
    and "server_ok (snd (server_send_to_project P E d a ty payload sv))"
  using server_ok_call [OF ok] ok
  by (auto simp: server_send_to_agent_def server_send_to_project_def send_to_agent_def send_to_project_def
      split: sum.split option.split)

lemma server_ok_reachable: "server_reachable P E fs priv pub has_cb sv \<Longrightarrow> server_ok sv"
proof (induction rule: server_reachable.induct)
  case reach_init
  show ?case by (simp add: server_ok_def new_server_def manager_ok_new) (simp add: new_manager_def)
next
  case (reach_next sv sv')
  note ok = \<open>server_ok sv\<close>
  from reach_next.hyps(2) show ?case
  proof (cases rule: server_step.cases)
    case (step_trigger d p payload)
    then show ?thesis
      using server_ok_send(2) [OF ok, of P E d "JStr p" BUILD_TRIGGER "dumps_default payload"]
      by (auto simp: trigger_build_api_def split: prod.split sum.split)
  next
    case step_shutdown
    then show ?thesis using ok by (simp add: server_ok_def shutdown_def stop_all_def manager_ok_def)
  qed (simp_all add: ok server_ok_connect server_ok_session server_ok_send)
qed

text \<open>A successful handshake of an agent with string id and projects is one registration.\<close>

lemma connect_registers:
  assumes "crypto_ok P" "server_keys P fs priv pub skf"
    and "agent_hello P E raw (JStr a) (JArr (map JStr ps)) eska ska" and "\<not> stopped (sv_manager sv)"
  shows "\<exists>hk ack. do_handshake P E fs priv pub rnd rnd' True raw = (Inr hk, [ack]) \<and>
    connect P E fs priv pub cid now rnd rnd' True raw sv =
       sv\<lparr>sv_notices := sv_notices sv @ [(JStr a, True)],
          sv_manager := register_agent (sv_manager sv) a ps (now, cid),
          sv_sessions := AList.update cid
            \<lparr>ss_agent_id = JStr a, ss_codec = hk_codec hk, ss_sent = [ack], ss_dispatched = []\<rparr> (sv_sessions sv)\<rparr>"
proof -
  obtain hk ack where hk: "do_handshake P E fs priv pub rnd rnd' True raw = (Inr hk, [ack])"
    "hk_agent_id hk = JStr a" "hk_projects hk = JArr (map JStr ps)"
    using handshake_sessions [OF assms(1-3)] by blast
  obtain d where "assign_projects (JStr a) (map JStr ps) (project_to_agent (sv_manager sv)) = (Inr (), d)"
    using assign_projects_ok [OF hashable_JStr_list, of "JStr a" ps "project_to_agent (sv_manager sv)"]
    by (metis prod.collapse)
  then have "fst (add_agent (sv_manager sv) now (JStr a) (JArr (map JStr ps)) cid) = Inr ()"
    using assms(4) by (simp add: add_agent_def py_list_def)
  then have add: "add_agent (sv_manager sv) now (JStr a) (JArr (map JStr ps)) cid =
      (Inr (), register_agent (sv_manager sv) a ps (now, cid))"
    by (simp add: register_agent_def prod_eq_iff)
  show ?thesis
    using hk by (simp add: connect_def add)
qed

lemma connect_manager:
  assumes "crypto_ok P" "server_keys P fs priv pub skf"
    and "agent_hello P E raw (JStr a) (JArr (map JStr ps)) eska ska" and "\<not> stopped (sv_manager sv)"
  shows "sv_manager (connect P E fs priv pub cid now rnd rnd' True raw sv) =
    register_agent (sv_manager sv) a ps (now, cid)"
  using connect_registers [OF assms, of rnd rnd' cid now] by auto

definition toy_connect ::
    "nat \<Rightarrow> pystr \<Rightarrow> pystr list \<Rightarrow> bytes \<Rightarrow> (bytes, bytes) server \<Rightarrow> (bytes, bytes) server" where
  "toy_connect cid a ps sk sv =
     connect toy_prims toy_env (toy_files [7]) (lit ''priv'') (lit ''pub'') cid (int cid) [3] [] True
       (toy_hello a (JArr (map JStr ps)) [4] sk) sv"

lemma toy_agent_hello:
  "\<forall>c \<in> set a. c < 128 \<Longrightarrow> list_all (\<lambda>p. \<forall>c \<in> set p. c < 128) ps \<Longrightarrow>
    agent_hello toy_prims E (toy_hello a (JArr (map JStr ps)) esk sk) (JStr a) (JArr (map JStr ps)) esk sk"
  by (rule toy_hello_ok) (auto simp: list_all_iff scalar_text_ok scalar_text_ascii)

lemma text_manager_new_server: "text_manager (sv_manager new_server)"
  by (simp add: new_server_def text_manager_new)

lemma toy_registered:
  "server_reachable toy_prims toy_env (toy_files [7]) (lit ''priv'') (lit ''pub'') True
     (toy_connect 1 (lit ''a1'') [lit ''p''] [5] new_server)"
  "map_of (by_agent (sv_manager (toy_connect 1 (lit ''a1'') [lit ''p''] [5] new_server))) (JStr (lit ''a1'')) =
     Some \<lparr>ai_agent_id = JStr (lit ''a1''), ai_projects = [JStr (lit ''p'')], ai_connected_at = 1, ai_send = 1\<rparr>"
  "named (JStr (lit ''a1''))"
proof -
  let ?sv = "toy_connect 1 (lit ''a1'') [lit ''p''] [5] new_server"
  show "server_reachable toy_prims toy_env (toy_files [7]) (lit ''priv'') (lit ''pub'') True ?sv"
    unfolding toy_connect_def
    by (rule reach_next [OF reach_init step_connect]) (simp add: new_server_def)
  have hello: "agent_hello toy_prims toy_env (toy_hello (lit ''a1'') (JArr (map JStr [lit ''p''])) [4] [5]) (JStr (lit ''a1''))
      (JArr (map JStr [lit ''p''])) [4] [5]"
    by (rule toy_agent_hello) (simp_all add: lit_def)
  have m: "sv_manager ?sv = register_agent new_manager (lit ''a1'') [lit ''p''] (1, 1)"
    unfolding toy_connect_def using connect_manager [OF toy_crypto_ok toy_server_keys hello, of new_server]
    by (simp add: new_server_def) (simp add: new_manager_def)
  show "map_of (by_agent (sv_manager ?sv)) (JStr (lit ''a1'')) =
      Some \<lparr>ai_agent_id = JStr (lit ''a1''), ai_projects = [JStr (lit ''p'')], ai_connected_at = 1, ai_send = 1\<rparr>"
    unfolding m by (subst register_agent_eq) (simp_all add: new_manager_def)
  show "named (JStr (lit ''a1''))" by (simp add: named_def UNKNOWN_def)
qed

section \<open>Properties\<close>

text \<open>In every reachable state of the server, whatever the order of connections, messages, failures and sends, an
  agent that is registered under a name has a live connection: its registered callback belongs to a running session of that very
  agent.\<close>

lemma registered_agents_are_connected:
  assumes "server_reachable P E fs priv pub has_cb sv"
    and "named a" and "map_of (by_agent (sv_manager sv)) a = Some info"
  shows "\<exists>s. map_of (sv_sessions sv) (ai_send info) = Some s \<and> ss_agent_id s = a"
  using server_ok_reachable [OF assms(1)] assms(2,3) by (simp add: server_ok_def)

lemma registered_agents_are_connected_example:
  "\<exists>info s. map_of (by_agent (sv_manager (toy_connect 1 (lit ''a1'') [lit ''p''] [5] new_server))) (JStr (lit ''a1'')) = Some info \<and>
     map_of (sv_sessions (toy_connect 1 (lit ''a1'') [lit ''p''] [5] new_server)) (ai_send info) = Some s \<and>
     ss_agent_id s = JStr (lit ''a1'')"
  using registered_agents_are_connected [OF toy_registered(1,3,2)] toy_registered(2) by auto

text \<open>C25. The handshake does not bind an id to a key: whoever signs with a key of its own may claim the id of a
  connected agent; it replaces that agent's session, and the projects it names are routed to it.\<close>

theorem any_key_takes_over_an_id:
  assumes "crypto_ok P" and "server_keys P fs priv pub skf" and "text_manager (sv_manager sv)"
    and "agent_hello P E raw1 (JStr a) (JArr (map JStr ps1)) esk1 sk1"
    and "agent_hello P E raw2 (JStr a) (JArr (map JStr ps2)) esk2 sk2"
    and "sv1 = connect P E fs priv pub cid1 now1 rnd1 rnd1' True raw1 sv"
    and "sv2 = connect P E fs priv pub cid2 now2 rnd2 rnd2' True raw2 sv1"
    and "p \<in> set ps2"
  shows "session_of (sv_manager sv1) a = Some (now1, cid1) \<and>
    session_of (sv_manager sv2) a = Some (now2, cid2) \<and> routed_to (sv_manager sv2) p = Some a"
proof -
  have r1: "\<not> stopped (sv_manager sv)" using assms(3) by (simp add: text_manager_def)
  have m1: "sv_manager sv1 = register_agent (sv_manager sv) a ps1 (now1, cid1)"
    unfolding assms(6) by (rule connect_manager [OF assms(1,2,4) r1])
  have t1: "text_manager (sv_manager sv1)" unfolding m1 by (rule registry.ok_register [OF assms(3)])
  then have r2: "\<not> stopped (sv_manager sv1)" by (simp add: text_manager_def)
  have m2: "sv_manager sv2 = register_agent (sv_manager sv1) a ps2 (now2, cid2)"
    unfolding assms(7) by (rule connect_manager [OF assms(1,2,5) r2])
  have "session_of (sv_manager sv1) a = Some (now1, cid1)"
    unfolding m1 by (simp add: registry.agent_register [OF assms(3)])
  then show ?thesis
    using assms(8) unfolding m2
    by (simp add: registry.agent_register [OF t1] registry.route_register [OF t1])
qed

theorem any_key_takes_over_an_id_witness:
  "session_of (sv_manager (toy_connect 2 (lit ''a1'') [lit ''p''] [66] (toy_connect 1 (lit ''a1'') [lit ''p''] [5] new_server))) (lit ''a1'') =
     Some (2, 2)"
proof -
  have h: "agent_hello toy_prims toy_env (toy_hello (lit ''a1'') (JArr (map JStr [lit ''p''])) [4] sk) (JStr (lit ''a1''))
      (JArr (map JStr [lit ''p''])) [4] sk" for sk
    by (rule toy_agent_hello) (simp_all add: lit_def)
  have p: "lit ''p'' \<in> set [lit ''p'']" by simp
  have "session_of (sv_manager (toy_connect 2 (lit ''a1'') [lit ''p''] [66] (toy_connect 1 (lit ''a1'') [lit ''p''] [5] new_server)))
      (lit ''a1'') = Some (int 2, 2)"
    unfolding toy_connect_def
    by (rule any_key_takes_over_an_id [OF toy_crypto_ok toy_server_keys text_manager_new_server h h refl refl p,
        THEN conjunct2, THEN conjunct1])
  then show ?thesis by simp
qed

text \<open>An agent with an empty id is registered but never unregistered: after its connection has gone it stays
  in the registry, its projects stay routed to the dead connection, and messages for them are not delivered.\<close>

lemma unnamed_agent_stays_registered:
  assumes "crypto_ok P" and "server_keys P fs priv pub skf" and "text_manager (sv_manager sv)"
    and "agent_hello P E raw (JStr []) (JArr (map JStr ps)) esk sk"
    and "sv' = session_event_step P E has_cb cid PeerGone (connect P E fs priv pub cid now rnd rnd' True raw sv)"
    and "p \<in> set ps"
  shows "map_of (sv_sessions sv') cid = None \<and> session_of (sv_manager sv') [] = Some (now, cid) \<and>
    server_send_to_project P E d (JStr p) ty payload sv' = (Inr False, sv')"
proof -
  have r: "\<not> stopped (sv_manager sv)" using assms(3) by (simp add: text_manager_def)
  obtain co ack where c: "connect P E fs priv pub cid now rnd rnd' True raw sv =
       sv\<lparr>sv_notices := sv_notices sv @ [(JStr [], True)],
          sv_manager := register_agent (sv_manager sv) [] ps (now, cid),
          sv_sessions := AList.update cid
            \<lparr>ss_agent_id = JStr [], ss_codec = co, ss_sent = [ack], ss_dispatched = []\<rparr> (sv_sessions sv)\<rparr>"
    using connect_registers [OF assms(1,2,4) r, of rnd rnd' cid now] by blast
  let ?m = "register_agent (sv_manager sv) [] ps (now, cid)"
  have m: "sv_manager sv' = ?m" and s: "map_of (sv_sessions sv') cid = None"
    unfolding assms(5) c
    by (simp_all add: session_event_step_def unregister_manager py_truthy_def)
  have t: "text_manager ?m" by (rule registry.ok_register [OF assms(3)])
  have "session_of ?m [] = Some (now, cid)" "routed_to ?m p = Some []"
    using assms(6) by (simp_all add: registry.agent_register [OF assms(3)] registry.route_register [OF assms(3)])
  then show ?thesis
    using s by (simp add: m server_send_to_project_def send_to_project_eq [OF t] call_back_def)
qed

lemma unnamed_agent_stays_registered_example:
  "session_of (sv_manager (session_event_step toy_prims toy_env True 1 PeerGone (toy_connect 1 [] [lit ''p''] [5] new_server))) [] =
     Some (1, 1)"
proof -
  have hello: "agent_hello toy_prims toy_env (toy_hello [] (JArr (map JStr [lit ''p''])) [4] [5]) (JStr [])
      (JArr (map JStr [lit ''p''])) [4] [5]"
    by (rule toy_agent_hello) (simp_all add: lit_def)
  have p: "lit ''p'' \<in> set [lit ''p'']" by simp
  from unnamed_agent_stays_registered [OF toy_crypto_ok toy_server_keys text_manager_new_server hello refl p,
      where cid = 1 and now = 1 and has_cb = True and rnd = "[3]" and rnd' = "[]"]
  show ?thesis unfolding toy_connect_def by simp
qed

end
