(* ===== verification/Py_Json_Bytes.thy ===== *)
theory Py_Json_Bytes
  imports Py_Json_Facts
begin

text \<open>
  \<open>json.loads\<close> of a byte string, as the raw WebSocket server and the DingTalk callback use it: the encoding is
  guessed from the first bytes (\<open>json.detect\_encoding\<close>), and decoding lets lone surrogates pass
  (\<open>surrogatepass\<close>).
\<close>

section \<open>Decoders\<close>

text \<open>UTF-8 as \<open>utf8_decode\<close> has it, with surrogates allowed.\<close>

fun utf8_decode_pass :: "bytes \<Rightarrow> pystr res" where
  "utf8_decode_pass [] = Inr []"
| "utf8_decode_pass (b # bs) =
     (let x = unat b in
      if x < 0x80 then rbind (utf8_decode_pass bs) (\<lambda>cs. Inr (x # cs))
      else if 0xC2 \<le> x \<and> x < 0xE0 then
        (case bs of
           b1 # r \<Rightarrow>
             if is_cont b1
             then rbind (utf8_decode_pass r) (\<lambda>cs. Inr (((x - 0xC0) * 64 + (unat b1 - 0x80)) # cs))
             else Inl UnicodeError
         | _ \<Rightarrow> Inl UnicodeError)
      else if 0xE0 \<le> x \<and> x < 0xF0 then
        (case bs of
           b1 # b2 # r \<Rightarrow>
             let v = (x - 0xE0) * 4096 + (unat b1 - 0x80) * 64 + (unat b2 - 0x80) in
             if is_cont b1 \<and> is_cont b2 \<and> 0x800 \<le> v
             then rbind (utf8_decode_pass r) (\<lambda>cs. Inr (v # cs))
             else Inl UnicodeError
         | _ \<Rightarrow> Inl UnicodeError)
      else if 0xF0 \<le> x \<and> x < 0xF5 then
        (case bs of
           b1 # b2 # b3 # r \<Rightarrow>
             let v = (x - 0xF0) * 262144 + (unat b1 - 0x80) * 4096 + (unat b2 - 0x80) * 64
                     + (unat b3 - 0x80) in
             if is_cont b1 \<and> is_cont b2 \<and> is_cont b3 \<and> 0x10000 \<le> v \<and> v < 0x110000
             then rbind (utf8_decode_pass r) (\<lambda>cs. Inr (v # cs))
             else Inl UnicodeError
         | _ \<Rightarrow> Inl UnicodeError)
      else Inl UnicodeError)"

declare utf8_decode_pass.simps [simp del]

text \<open>The code units of UTF-16 and UTF-32; \<open>le\<close> is little endian.\<close>

fun units2 :: "bool \<Rightarrow> bytes \<Rightarrow> nat list res" where
  "units2 le (a # b # bs) =
     rbind (units2 le bs) (\<lambda>us. Inr ((if le then unat b * 256 + unat a else unat a * 256 + unat b) # us))"
| "units2 le [] = Inr []"
| "units2 le [a] = Inl UnicodeError"

fun join_surrogates :: "nat list \<Rightarrow> pystr" where
  "join_surrogates (h # l # us) =
     (if 0xD800 \<le> h \<and> h < 0xDC00 \<and> 0xDC00 \<le> l \<and> l < 0xE000
      then (0x10000 + (h - 0xD800) * 1024 + (l - 0xDC00)) # join_surrogates us
      else h # join_surrogates (l # us))"
| "join_surrogates us = us"

fun units4 :: "bool \<Rightarrow> bytes \<Rightarrow> pystr res" where
  "units4 le (a # b # c # d # bs) =
     (let v = (if le then unat d * 16777216 + unat c * 65536 + unat b * 256 + unat a
               else unat a * 16777216 + unat b * 65536 + unat c * 256 + unat d)
      in if v < 0x110000 then rbind (units4 le bs) (\<lambda>cs. Inr (v # cs)) else Inl UnicodeError)"
| "units4 le [] = Inr []"
| "units4 le _ = Inl UnicodeError"

definition utf16_decode :: "bool \<Rightarrow> bytes \<Rightarrow> pystr res" where
  "utf16_decode le bs = rbind (units2 le bs) (\<lambda>us. Inr (join_surrogates us))"

section \<open>The guess and the parser\<close>

text \<open>\<open>detect_encoding\<close>; an encoding with a byte order mark drops it.\<close>

definition decode_detected :: "bytes \<Rightarrow> pystr res" where
  "decode_detected bs =
     (if take 4 bs = [0, 0, 0xFE, 0xFF] then units4 False (drop 4 bs)
      else if take 4 bs = [0xFF, 0xFE, 0, 0] then units4 True (drop 4 bs)
      else if take 2 bs = [0xFE, 0xFF] then utf16_decode False (drop 2 bs)
      else if take 2 bs = [0xFF, 0xFE] then utf16_decode True (drop 2 bs)
      else if take 3 bs = [0xEF, 0xBB, 0xBF] then utf8_decode_pass (drop 3 bs)
      else if 4 \<le> length bs then
        (if bs ! 0 = 0 then (if bs ! 1 \<noteq> 0 then utf16_decode False bs else units4 False bs)
         else if bs ! 1 = 0 then (if bs ! 2 \<noteq> 0 \<or> bs ! 3 \<noteq> 0 then utf16_decode True bs else units4 True bs)
         else utf8_decode_pass bs)
      else if length bs = 2 then
        (if bs ! 0 = 0 then utf16_decode False bs
         else if bs ! 1 = 0 then utf16_decode True bs
         else utf8_decode_pass bs)
      else utf8_decode_pass bs)"

text \<open>A byte order mark is only looked for in a \<open>str\<close> argument; after decoding it is one more character that starts no
  value.\<close>

definition loads_bytes :: "bytes \<Rightarrow> json res" where
  "loads_bytes bs = rbind (decode_detected bs) loads"

section \<open>UTF-8 texts\<close>

lemma utf8_decode_pass: "utf8_decode bs = Inr s \<Longrightarrow> utf8_decode_pass bs = Inr s"
proof (induction bs arbitrary: s rule: utf8_decode.induct)
  case (2 b bs)
  show ?case
    using 2 unfolding utf8_decode.simps(2) [of b bs] utf8_decode_pass.simps(2) [of b bs]
    by (auto simp: Let_def outcome_iff split: if_splits list.splits)
qed (simp add: utf8_decode_pass.simps)

lemma byte_nonzero: "0 < n \<Longrightarrow> n < 256 \<Longrightarrow> (of_nat n :: byte) \<noteq> 0"
  using unat_byte [of n] by (metis less_numeral_extra(3) unat_0)

lemma utf8_char_bytes:
  assumes "utf8_char c = Inr b" and "c \<noteq> 0"
  shows "b \<noteq> [] \<and> 0 \<notin> set b \<and> unat (hd b) < 0xF5"
  using assms(1)
proof (cases rule: utf8_char_cases)
  case one
  then show ?thesis using assms(2) byte_nonzero [of c] unat_byte [of c] by auto
next
  case two
  have "0xC0 + c div 64 < 0xF5" using two(2) by linarith
  then show ?thesis
    using byte_nonzero [of "0xC0 + c div 64"] byte_nonzero [of "0x80 + c mod 64"] unat_byte [of "0xC0 + c div 64"]
    unfolding two(3) by (auto simp del: of_nat_add)
next
  case three
  have "0xE0 + c div 4096 < 0xF5" using three(2) by linarith
  then show ?thesis
    using byte_nonzero [of "0xE0 + c div 4096"] byte_nonzero [of "0x80 + c div 64 mod 64"]
      byte_nonzero [of "0x80 + c mod 64"] unat_byte [of "0xE0 + c div 4096"]
    unfolding three(4) by (auto simp del: of_nat_add)
next
  case four
  have "0xF0 + c div 262144 < 0xF5" using four(2) by linarith
  then show ?thesis
    using byte_nonzero [of "0xF0 + c div 262144"] byte_nonzero [of "0x80 + c div 4096 mod 64"]
      byte_nonzero [of "0x80 + c div 64 mod 64"] byte_nonzero [of "0x80 + c mod 64"] unat_byte [of "0xF0 + c div 262144"]
    unfolding four(3) by (auto simp del: of_nat_add)
qed

lemma utf8_encode_no_zero: "utf8_encode s = Inr bs \<Longrightarrow> 0 \<notin> set s \<Longrightarrow> 0 \<notin> set bs"
  by (induction s arbitrary: bs) (auto simp: outcome_iff dest!: utf8_char_bytes)

lemma utf8_encode_head:
  assumes "utf8_encode s = Inr (x # bs)" and "0 \<notin> set s"
  shows "unat x < 0xF5"
proof (cases s)
  case (Cons c t)
  with assms obtain b r where "utf8_char c = Inr b" "b @ r = x # bs" "c \<noteq> 0" by (auto simp: outcome_iff)
  then show ?thesis using utf8_char_bytes [of c b] by (cases b) auto
qed (use assms in simp)

lemma utf8_bom:
  assumes "utf8_encode s = Inr bs" and "take 3 bs = [0xEF, 0xBB, 0xBF]"
  shows "s \<noteq> [] \<and> hd s = 0xFEFF"
proof -
  have "bs = 0xEF # 0xBB # 0xBF # drop 3 bs"
    using assms(2) append_take_drop_id [of 3 bs] by simp
  moreover have "utf8_decode bs = Inr s" by (rule utf8_decode_encode [OF assms(1)])
  ultimately have "utf8_decode (0xEF # 0xBB # 0xBF # drop 3 bs) = Inr s" by simp
  then show ?thesis by (auto simp: utf8_decode.simps(2) is_cont_def is_surrogate_def outcome_iff)
qed

text \<open>UTF-8 text without NUL and without a byte order mark is read as the text it encodes.\<close>

lemma loads_bytes_utf8:
  assumes "utf8_encode s = Inr bs" and "0 \<notin> set s" and "s = [] \<or> hd s \<noteq> 0xFEFF"
  shows "loads_bytes bs = loads s"
proof -
  have z: "0 \<notin> set bs" by (rule utf8_encode_no_zero [OF assms(1,2)])
  have n: "bs ! 0 \<noteq> 0 \<and> bs ! 1 \<noteq> 0" if "2 \<le> length bs"
    using z that by (cases bs; cases "tl bs") auto
  have h: "take k bs \<noteq> x # r" if "0xF5 \<le> unat x" for k x r
  proof
    assume "take k bs = x # r"
    then obtain r' where "bs = x # r'" by (cases bs; cases k) auto
    then show False using utf8_encode_head [of s x r'] assms(1,2) that by simp
  qed
  have "take 4 bs \<noteq> [0, 0, 0xFE, 0xFF]"
    using z in_set_takeD [of 0 4 bs] by auto
  moreover have "take 4 bs \<noteq> [0xFF, 0xFE, 0, 0]" "take 2 bs \<noteq> [0xFE, 0xFF]" "take 2 bs \<noteq> [0xFF, 0xFE]"
    using h [of "0xFF" 4] h [of "0xFE" 2] h [of "0xFF" 2] by simp_all
  moreover have "take 3 bs \<noteq> [0xEF, 0xBB, 0xBF]"
    using utf8_bom [OF assms(1)] assms(3) by blast
  ultimately have "decode_detected bs = utf8_decode_pass bs"
    using n by (simp add: decode_detected_def)
  then show ?thesis
    using utf8_decode_pass [OF utf8_decode_encode [OF assms(1)]] by (simp add: loads_bytes_def)
qed

end
