(* ===== verification/Manual_Server.thy ===== *)
theory Manual_Server
  imports Forwarder_Server Ws_Framing Py_Json_Bytes
begin

text \<open>
  forwarder/app/ws/manual\_server.py: the thread-based WebSocket server, one \<open>_handle_client\<close> per accepted socket, with
  its own frame reader and writer over blocking sockets. The listening socket, the threads and the event loop thread are
  outside: a connection is what its socket delivers, and the event loop it finds (\<open>self._loop\<close>), to which it hands its
  coroutines. While a connection is served the other threads change the manager; what they do is a parameter of the connection.
\<close>

unbundle bit_operations_syntax

section \<open>Blocking sockets\<close>

text \<open>What a socket still has to deliver: segments of bytes, or a \<open>recv\<close> that raises (the 30 second timeout, a reset);
  after the last one the peer has closed. \<open>sk_sends\<close> are the outcomes of the coming \<open>sendall\<close> calls (all succeed
  when it runs out), \<open>sk_out\<close> what they have written.\<close>

datatype sock_event = Bytes bytes | Stall

record sock =
  sk_in :: "sock_event list"
  sk_sends :: "bool list"
  sk_out :: "bytes list"
  sk_closed :: bool

fun next_bytes :: "nat \<Rightarrow> sock_event list \<Rightarrow> bytes res \<times> sock_event list" where
  "next_bytes n [] = (Inr [], [])"
| "next_bytes n (Stall # es) = (Inl OSError, es)"
| "next_bytes n (Bytes bs # es) =
     (if bs = [] then next_bytes n es
      else (Inr (take n bs), if length bs \<le> n then es else Bytes (drop n bs) # es))"

definition sock_recv :: "nat \<Rightarrow> sock \<Rightarrow> bytes res \<times> sock" where
  "sock_recv n s =
     (if sk_closed s then (Inl OSError, s)
      else (let (r, es) = next_bytes n (sk_in s) in (r, s\<lparr>sk_in := es\<rparr>)))"

definition sock_sendall :: "bytes \<Rightarrow> sock \<Rightarrow> unit res \<times> sock" where
  "sock_sendall data s =
     (if sk_closed s then (Inl OSError, s)
      else
        (case sk_sends s of
           False # fs \<Rightarrow> (Inl OSError, s\<lparr>sk_sends := fs\<rparr>)
         | fs \<Rightarrow> (Inr (), s\<lparr>sk_sends := tl fs, sk_out := sk_out s @ [data]\<rparr>)))"

definition sock_close :: "sock \<Rightarrow> sock" where
  "sock_close s = s\<lparr>sk_closed := True\<rparr>"

text \<open>One step after another, an exception ends the sequence.\<close>

definition sbind :: "'a res \<times> 's \<Rightarrow> ('a \<Rightarrow> 's \<Rightarrow> 'b res \<times> 's) \<Rightarrow> 'b res \<times> 's" where
  "sbind m f = (case m of (Inl e, s) \<Rightarrow> (Inl e, s) | (Inr x, s) \<Rightarrow> f x s)"

lemma sbind_simps [simp]: "sbind (Inl e, s) f = (Inl e, s)" "sbind (Inr x, s) f = f x s"
  by (simp_all add: sbind_def)

section \<open>Frames over a blocking socket\<close>

definition to_bytes2 :: "nat \<Rightarrow> bytes res" where
  "to_bytes2 n = (if n < 65536 then Inr (be_bytes 2 n) else Inl OverflowError)"

definition send_frame :: "sock \<Rightarrow> bytes \<Rightarrow> byte \<Rightarrow> unit res \<times> sock" where
  "send_frame s payload opcode =
     (let frame = [0x80 OR opcode];
          len = length payload
      in if len < 126 then sock_sendall (frame @ [of_nat len] @ payload) s
         else
           (case to_bytes2 len of
              Inl e \<Rightarrow> (Inl e, s)
            | Inr lb \<Rightarrow> sock_sendall (frame @ [126] @ lb @ payload) s))"

text \<open>The rest of the payload, in pieces of at most 16 KiB; \<open>None\<close> when the peer closes first.\<close>

function recv_payload :: "nat \<Rightarrow> bytes \<Rightarrow> sock \<Rightarrow> bytes option res \<times> sock" where
  "recv_payload len payload s =
     (if length payload < len then
        (case sock_recv (min (len - length payload) 16384) s of
           (Inl e, s') \<Rightarrow> (Inl e, s')
         | (Inr chunk, s') \<Rightarrow>
             if chunk = [] then (Inr None, s') else recv_payload len (payload @ chunk) s')
      else (Inr (Some payload), s))"
  by pat_completeness auto
termination
  by (relation "measure (\<lambda>(len, payload, s). len - length payload)")
    (auto simp: diff_less_mono2 simp flip: length_greater_0_conv)

declare recv_payload.simps [simp del]

text \<open>The extended length: a short \<open>recv\<close> gives a short number.\<close>

definition recv_length :: "nat \<Rightarrow> sock \<Rightarrow> nat res \<times> sock" where
  "recv_length len s =
     (if len = 126 then sbind (sock_recv 2 s) (\<lambda>data s'. (Inr (be_val data), s'))
      else if len = 127 then sbind (sock_recv 8 s) (\<lambda>data s'. (Inr (be_val data), s'))
      else (Inr len, s))"

text \<open>\<open>payload[i] ^= mask_key[i % 4]\<close> with a key of any length.\<close>

definition xor_mask :: "bytes \<Rightarrow> bytes \<Rightarrow> bytes res" where
  "xor_mask mask_key payload =
     (if min 4 (length payload) \<le> length mask_key then Inr (unmask mask_key payload) else Inl IndexError)"

definition recv_frame :: "sock \<Rightarrow> (byte \<times> bytes) option res \<times> sock" where
  "recv_frame s =
     (case sock_recv 2 s of
        (Inl e, s1) \<Rightarrow> (Inr None, s1)
      | (Inr data, s1) \<Rightarrow>
          if length data < 2 then (Inr None, s1)
          else
            (let opcode = data ! 0 AND 0x0F
             in sbind (recv_length (unat (data ! 1 AND 0x7F)) s1) (\<lambda>len s2.
                sbind (sock_recv 4 s2) (\<lambda>mask_key s3.
                sbind (recv_payload len [] s3) (\<lambda>received s4.
                  case received of
                    None \<Rightarrow> (Inr None, s4)
                  | Some payload \<Rightarrow> (rbind (xor_mask mask_key payload) (\<lambda>p. Inr (Some (opcode, p))), s4))))))"

section \<open>The event loop\<close>

text \<open>The loop that \<open>self._loop\<close> holds runs or has been stopped; it stays assigned. The coroutines for it: \<open>add_agent\<close>,
  \<open>remove_agent\<close>, the connect callback.\<close>

datatype event_loop = Up | Stopped

datatype loop_task = AddTask int json json nat | RemoveTask json | ConnectTask json bool

text \<open>What a coroutine does to the manager and to what the connect callback has been told, when the loop gets to it.\<close>

definition do_task :: "loop_task \<Rightarrow> nat manager \<times> (json \<times> bool) list \<Rightarrow> nat manager \<times> (json \<times> bool) list" where
  "do_task t = (\<lambda>(m, notified).
     case t of
       AddTask now a ps cid \<Rightarrow> (snd (add_agent m now a ps cid), notified)
     | RemoveTask a \<Rightarrow> (snd (remove_agent m a), notified)
     | ConnectTask a up \<Rightarrow> (m, notified @ [(a, up)]))"

section \<open>A connection\<close>

text \<open>The local variables of \<open>_handle_client\<close>, and what it has handed to the event loop without waiting for it: the coroutines that
  concern the registry (\<open>mc_scheduled\<close>) and the messages for the message callback (\<open>mc_dispatched\<close>). \<open>mc_loop\<close> says whether the
  variable \<open>loop\<close> has been assigned.\<close>

record ('sk, 'pk) client =
  mc_sock :: sock
  mc_agent_id :: json
  mc_codec :: "('sk, 'pk) codec option"
  mc_loop :: bool
  mc_manager :: "nat manager"
  mc_scheduled :: "loop_task list"
  mc_dispatched :: "(json \<times> MessageType \<times> pystr) list"

definition new_client :: "sock \<Rightarrow> nat manager \<Rightarrow> ('sk, 'pk) client" where
  "new_client s m =
     \<lparr>mc_sock = s, mc_agent_id = UNKNOWN, mc_codec = None, mc_loop = False, mc_manager = m, mc_scheduled = [],
      mc_dispatched = []\<rparr>"

text \<open>A socket operation of the connection.\<close>

definition on_sock :: "(sock \<Rightarrow> 'a \<times> sock) \<Rightarrow> ('sk, 'pk) client \<Rightarrow> 'a \<times> ('sk, 'pk) client" where
  "on_sock f c = (let (r, s) = f (mc_sock c) in (r, c\<lparr>mc_sock := s\<rparr>))"

definition hand_over :: "loop_task list \<Rightarrow> ('sk, 'pk) client \<Rightarrow> ('sk, 'pk) client" where
  "hand_over ts c = c\<lparr>mc_scheduled := mc_scheduled c @ ts\<rparr>"

definition close_conn :: "('sk, 'pk) client \<Rightarrow> ('sk, 'pk) client" where
  "close_conn c = c\<lparr>mc_sock := sock_close (mc_sock c)\<rparr>"

text \<open>The WebSocket upgrade; the result says whether to go on (\<open>conn.close(); return\<close> otherwise).\<close>

definition upgrade_response :: "pystr \<Rightarrow> pystr" where
  "upgrade_response accept =
     lit ''HTTP/1.1 101 Switching Protocols'' @ CRLF @
     lit ''Upgrade: websocket'' @ CRLF @
     lit ''Connection: Upgrade'' @ CRLF @
     lit ''Sec-WebSocket-Accept: '' @ accept @ CRLF @
     CRLF"

definition upgrade :: "('sk, 'pk) client \<Rightarrow> bool res \<times> ('sk, 'pk) client" where
  "upgrade c =
     sbind (on_sock (sock_recv 4096) c) (\<lambda>data c1.
       case parse_http_upgrade data of
         None \<Rightarrow> (Inr False, close_conn c1)
       | Some headers \<Rightarrow>
           (let client_key = (case map_of headers (lit ''sec-websocket-key'') of None \<Rightarrow> [] | Some k \<Rightarrow> k)
            in if client_key = [] then (Inr False, close_conn c1)
               else
                 (case rbind (compute_accept_key client_key) (\<lambda>accept. utf8_encode (upgrade_response accept)) of
                    Inl e \<Rightarrow> (Inl e, c1)
                  | Inr response \<Rightarrow> sbind (on_sock (sock_sendall response) c1) (\<lambda>_ c2. (Inr True, c2)))))"

text \<open>\<open>init[field]\<close>.\<close>

definition subscript :: "json \<Rightarrow> pystr \<Rightarrow> json res" where
  "subscript j field =
     (case j of
        JObj kvs \<Rightarrow> (case map_of kvs field of None \<Rightarrow> Inl KeyError | Some v \<Rightarrow> Inr v)
      | _ \<Rightarrow> Inl TypeError)"

text \<open>The verifier, the agent's ephemeral key and whether the signature is valid.\<close>

definition manual_verify ::
    "('sk, 'pk) prims \<Rightarrow> py_env \<Rightarrow> json \<Rightarrow> json \<Rightarrow> (('sk, 'pk) signer \<times> json \<times> bool) res" where
  "manual_verify P E init agent_id =
     rbind (subscript init (lit ''ecdsa_pub_pem'')) (\<lambda>ecdsa_pem.
     rbind (text_of ecdsa_pem) (\<lambda>pem.
     rbind (utf8_encode pem) (\<lambda>pem_data.
     rbind (from_public_key_data P pem_data) (\<lambda>verifier.
     rbind (subscript init (lit ''ecdh_pub_pem'')) (\<lambda>ecdh_pem.
     rbind (subscript init (lit ''signature'')) (\<lambda>sig_b64.
     rbind (decode_field sig_b64) (\<lambda>sig.
     rbind (utf8_encode (py_str E agent_id @ BAR @ py_str E ecdh_pem @ BAR @ py_str E ecdsa_pem)) (\<lambda>data.
       Inr (verifier, ecdh_pem, signer_verify P verifier data sig)))))))))"

text \<open>\<open>open(path).read()\<close>: text mode without an encoding, which is the locale's.\<close>

definition read_locale_text :: "py_env \<Rightarrow> files \<Rightarrow> pystr \<Rightarrow> pystr res" where
  "read_locale_text E fs path =
     rbind (read_file fs path) (\<lambda>data. rbind (locale_decode E data) (\<lambda>s. Inr (universal_newlines s)))"

text \<open>The ephemeral key, the shared secret, the own keys and the signed answer.\<close>

definition manual_ack ::
    "('sk, 'pk) prims \<Rightarrow> py_env \<Rightarrow> files \<Rightarrow> pystr \<Rightarrow> pystr \<Rightarrow> bytes \<Rightarrow> bytes \<Rightarrow> json \<Rightarrow>
     (pystr \<times> bytes \<times> ('sk, 'pk) signer) res" where
  "manual_ack P E fs ecdsa_priv_file ecdsa_pub_file ecdh_rnd sig_rnd ecdh_pem =
     (let ecdh = new_ecdh P ecdh_rnd
      in rbind (text_of ecdh_pem) (\<lambda>peer_pem.
         rbind (derive_shared_secret_pem P ecdh peer_pem) (\<lambda>shared.
         rbind (from_private_key_file P fs ecdsa_priv_file) (\<lambda>signer.
         rbind (read_locale_text E fs ecdsa_pub_file) (\<lambda>fwd_pub_pem.
         rbind (utf8_encode (ecdh_public_key_pem P ecdh @ BAR @ fwd_pub_pem)) (\<lambda>ack_data.
         rbind (signer_sign P signer sig_rnd ack_data) (\<lambda>sig.
           Inr (dumps_default (ack_json (ecdh_public_key_pem P ecdh) fwd_pub_pem sig), shared, signer))))))))"

text \<open>A text sent as a frame.\<close>

definition send_text :: "pystr \<Rightarrow> ('sk, 'pk) client \<Rightarrow> unit res \<times> ('sk, 'pk) client" where
  "send_text text c =
     (case utf8_encode text of
        Inl e \<Rightarrow> (Inl e, c)
      | Inr data \<Rightarrow> on_sock (\<lambda>s. send_frame s data 1) c)"

text \<open>From the first frame to the codec; the projects go on to the registration, \<open>None\<close> is an early return.
  \<open>agent_id\<close> is assigned before the signature is checked.\<close>

definition manual_handshake ::
    "('sk, 'pk) prims \<Rightarrow> py_env \<Rightarrow> files \<Rightarrow> pystr \<Rightarrow> pystr \<Rightarrow> bytes \<Rightarrow> bytes \<Rightarrow> ('sk, 'pk) client \<Rightarrow>
     json option res \<times> ('sk, 'pk) client" where
  "manual_handshake P E fs priv pub rnd rnd' c =
     sbind (on_sock recv_frame c) (\<lambda>frame c1.
       case frame of
         None \<Rightarrow> (Inr None, close_conn c1)
       | Some (_, init_raw) \<Rightarrow>
           sbind (rbind (loads_bytes init_raw) (\<lambda>init. rbind (subscript init (lit ''agent_id'')) (\<lambda>a. Inr (init, a))), c1)
             (\<lambda>(init, agent_id) c1.
           let c2 = c1\<lparr>mc_agent_id := agent_id\<rparr>
           in sbind (rbind (subscript init (lit ''projects'')) (\<lambda>projects.
                     rbind (manual_verify P E init agent_id) (\<lambda>v. Inr (projects, v))), c2)
                (\<lambda>(projects, verifier, ecdh_pem, valid) c2.
              if \<not> valid then
                sbind (send_text (error_ack (lit ''Signature verification failed'')) c2) (\<lambda>_ c3. (Inr None, close_conn c3))
              else
                sbind (manual_ack P E fs priv pub rnd rnd' ecdh_pem, c2) (\<lambda>(ack, shared, signer) c2.
                sbind (send_text ack c2) (\<lambda>_ c3.
                sbind (new_cipher shared, c3) (\<lambda>ci c3.
                  (Inr (Some projects), c3\<lparr>mc_codec := Some (new_codec ci signer verifier (Some (new_guard 300)))\<rparr>)))))))"

text \<open>Registration on the event loop, when there is one: \<open>future.result(timeout=5)\<close> waits for \<open>add_agent\<close> and raises what it
  raises, a \<open>TimeoutError\<close> (an \<open>OSError\<close>) when the loop has been stopped. (A running loop that takes more than five seconds is
  not modelled.) The connect callback is only scheduled. \<open>cid\<close> is the connection's number, which stands for its send callback.\<close>

definition notice_tasks :: "bool \<Rightarrow> json \<Rightarrow> bool \<Rightarrow> loop_task list" where
  "notice_tasks connect_cb agent_id up = (if connect_cb then [ConnectTask agent_id up] else [])"

definition manual_register ::
    "event_loop option \<Rightarrow> bool \<Rightarrow> nat \<Rightarrow> int \<Rightarrow> json \<Rightarrow> ('sk, 'pk) client \<Rightarrow> unit res \<times> ('sk, 'pk) client" where
  "manual_register loop connect_cb cid now projects c =
     (let c1 = c\<lparr>mc_loop := True\<rparr>
      in case loop of
           None \<Rightarrow> (Inr (), c1)
         | Some Stopped \<Rightarrow> (Inl OSError, hand_over [AddTask now (mc_agent_id c1) projects cid] c1)
         | Some Up \<Rightarrow>
             (case add_agent (mc_manager c1) now (mc_agent_id c1) projects cid of
                (Inl e, m) \<Rightarrow> (Inl e, c1\<lparr>mc_manager := m\<rparr>)
              | (Inr _, m) \<Rightarrow> (Inr (), hand_over (notice_tasks connect_cb (mc_agent_id c1) True) (c1\<lparr>mc_manager := m\<rparr>))))"

section \<open>The I/O loop\<close>

text \<open>The clock readings and random draws of one iteration or one send.\<close>

record io_draws =
  io_now1 :: int
  io_now2 :: int
  io_enc_now :: int
  io_enc :: draws

definition send_enc ::
    "('sk, 'pk) prims \<Rightarrow> py_env \<Rightarrow> ('sk, 'pk) codec \<Rightarrow> io_draws \<Rightarrow> pystr \<Rightarrow> MessageType \<Rightarrow> ('sk, 'pk) client \<Rightarrow>
     unit res \<times> ('sk, 'pk) client" where
  "send_enc P E codec d text ty c =
     (case rbind (utf8_encode text) (\<lambda>data. encrypt P E codec (io_enc_now d) (io_enc d) data ty) of
        Inl e \<Rightarrow> (Inl e, c)
      | Inr enc_json \<Rightarrow> send_text enc_json c)"

text \<open>The send callback: it returns a plain \<open>bool\<close>, and \<open>AgentManager\<close> awaits what it returns.\<close>

definition manual_send ::
    "('sk, 'pk) prims \<Rightarrow> py_env \<Rightarrow> io_draws \<Rightarrow> MessageType \<Rightarrow> pystr \<Rightarrow> ('sk, 'pk) client \<Rightarrow>
     bool \<times> ('sk, 'pk) client" where
  "manual_send P E d ty msg c =
     (case mc_codec c of
        None \<Rightarrow> (False, c)
      | Some codec \<Rightarrow> (case send_enc P E codec d msg ty c of (Inl e, c') \<Rightarrow> (False, c') | (Inr _, c') \<Rightarrow> (True, c')))"

definition manual_call_back ::
    "('sk, 'pk) prims \<Rightarrow> py_env \<Rightarrow> io_draws \<Rightarrow> nat \<Rightarrow> MessageType \<Rightarrow> pystr \<Rightarrow> ('sk, 'pk) client \<Rightarrow>
     bool res \<times> ('sk, 'pk) client" where
  "manual_call_back P E d cid ty msg c = (let (ok, c') = manual_send P E d ty msg c in (Inl TypeError, c'))"

definition HEARTBEAT_ACK :: pystr where
  "HEARTBEAT_ACK = dumps_compact (JObj [(lit ''ack'', JStr (lit ''heartbeat''))])"

text \<open>What is done with one received text.\<close>

definition manual_text ::
    "('sk, 'pk) prims \<Rightarrow> py_env \<Rightarrow> bool \<Rightarrow> io_draws \<Rightarrow> pystr \<Rightarrow> ('sk, 'pk) codec \<Rightarrow> ('sk, 'pk) client \<Rightarrow>
     unit res \<times> ('sk, 'pk) client" where
  "manual_text P E dispatches d dec_text codec c =
     (let (result, codec1) = decrypt P E codec (io_now1 d) (io_now2 d) dec_text;
          c1 = c\<lparr>mc_codec := Some codec1\<rparr>
      in sbind (result, c1) (\<lambda>r c1.
           if \<not> dr_ok r then (Inr (), c1)
           else
             (case rbind (from_json dec_text) (\<lambda>env. rbind (parse_type (etype env)) (\<lambda>ty. Inr (env, ty))) of
                Inl e \<Rightarrow> if is_value_error e then (Inr (), c1) else (Inl e, c1)
              | Inr (env, msg_type) \<Rightarrow>
                  if msg_type = HEARTBEAT then send_enc P E codec1 d HEARTBEAT_ACK ACK c1
                  else if msg_type = ACK then (Inr (), c1)
                  else
                    sbind (if msg_type = BUILD_TRIGGER then send_enc P E codec1 d (received_ack (msg_id env)) ACK c1
                           else (Inr (), c1)) (\<lambda>_ c2.
                      if \<not> dispatches then (Inr (), c2)
                      else
                        (case utf8_decode (dr_plaintext r) of
                           Inl e \<Rightarrow> (Inl e, c2)
                         | Inr plaintext \<Rightarrow>
                             (Inr (), c2\<lparr>mc_dispatched := mc_dispatched c2 @ [(mc_agent_id c2, msg_type, plaintext)]\<rparr>))))))"

text \<open>One iteration, which finds the running flag set: the result says whether the loop goes on.\<close>

definition manual_iteration ::
    "('sk, 'pk) prims \<Rightarrow> py_env \<Rightarrow> bool \<Rightarrow> io_draws \<Rightarrow> ('sk, 'pk) client \<Rightarrow> bool res \<times> ('sk, 'pk) client" where
  "manual_iteration P E dispatches d c =
     sbind (on_sock recv_frame c) (\<lambda>frame c1.
       case frame of
         None \<Rightarrow> (Inr False, c1)
       | Some (opcode, payload) \<Rightarrow>
           if opcode = 0x8 then (Inr False, c1)
           else
             (case utf8_decode payload of
                Inl e \<Rightarrow> (Inl e, c1)
              | Inr dec_text \<Rightarrow>
                  (case mc_codec c1 of
                     None \<Rightarrow> (Inl AttributeError, c1)
                   | Some codec \<Rightarrow>
                       sbind (manual_text P E dispatches d dec_text codec c1) (\<lambda>_ c2. (Inr True, c2)))))"

text \<open>What happens to a served connection: iterations of its loop, and calls of its send callback by other threads
  between them. When the list runs out, the loop is still running or the flag has been cleared.\<close>

datatype io_event = Iterate io_draws | CallBack io_draws MessageType pystr

datatype loop_end = Looping | Broke | LoopRaised exc

fun io_loop ::
    "('sk, 'pk) prims \<Rightarrow> py_env \<Rightarrow> bool \<Rightarrow> io_event list \<Rightarrow> ('sk, 'pk) client \<Rightarrow> loop_end \<times> ('sk, 'pk) client" where
  "io_loop P E dispatches [] c = (Looping, c)"
| "io_loop P E dispatches (CallBack d ty msg # evs) c =
     io_loop P E dispatches evs (snd (manual_send P E d ty msg c))"
| "io_loop P E dispatches (Iterate d # evs) c =
     (case manual_iteration P E dispatches d c of
        (Inl e, c') \<Rightarrow> (LoopRaised e, c')
      | (Inr False, c') \<Rightarrow> (Broke, c')
      | (Inr True, c') \<Rightarrow> io_loop P E dispatches evs c')"

section \<open>The whole connection\<close>

text \<open>The \<open>try\<close> body: upgrade, handshake, registration, loop; the first component is the exception that ends it.
  \<open>others\<close> is what the rest of the program does to the manager meanwhile; the events' end is the cleared running flag.\<close>

definition client_body ::
    "('sk, 'pk) prims \<Rightarrow> py_env \<Rightarrow> files \<Rightarrow> pystr \<Rightarrow> pystr \<Rightarrow> bool \<Rightarrow> bool \<Rightarrow> event_loop option \<Rightarrow> nat \<Rightarrow> int \<Rightarrow> bytes \<Rightarrow> bytes \<Rightarrow>
     io_event list \<Rightarrow> (nat manager \<Rightarrow> nat manager) \<Rightarrow> ('sk, 'pk) client \<Rightarrow> unit res \<times> ('sk, 'pk) client" where
  "client_body P E fs priv pub has_cb connect_cb loop cid now rnd rnd' evs others c =
     sbind (upgrade c) (\<lambda>go c1.
       if \<not> go then (Inr (), c1)
       else
         sbind (manual_handshake P E fs priv pub rnd rnd' c1) (\<lambda>projects c2.
           case projects of
             None \<Rightarrow> (Inr (), c2)
           | Some ps \<Rightarrow>
               sbind (manual_register loop connect_cb cid now ps c2) (\<lambda>_ c3.
                 let (r, c4) = io_loop P E (has_cb \<and> loop \<noteq> None) evs (c3\<lparr>mc_manager := others (mc_manager c3)\<rparr>)
                 in ((case r of LoopRaised e \<Rightarrow> Inl e | _ \<Rightarrow> Inr ()), c4))))"

text \<open>\<open>_handle_client\<close>: the exceptions of the body are logged; the \<open>finally\<close> block reads \<open>loop\<close> first. It schedules the removal and the
  connect callback on the event loop, waits for neither and closes the socket.\<close>

definition leave_tasks :: "bool \<Rightarrow> json \<Rightarrow> loop_task list" where
  "leave_tasks connect_cb agent_id = RemoveTask agent_id # notice_tasks connect_cb agent_id False"

definition handle_client ::
    "('sk, 'pk) prims \<Rightarrow> py_env \<Rightarrow> files \<Rightarrow> pystr \<Rightarrow> pystr \<Rightarrow> bool \<Rightarrow> bool \<Rightarrow> event_loop option \<Rightarrow> nat \<Rightarrow> int \<Rightarrow> bytes \<Rightarrow> bytes \<Rightarrow>
     io_event list \<Rightarrow> (nat manager \<Rightarrow> nat manager) \<Rightarrow> ('sk, 'pk) client \<Rightarrow> unit res \<times> ('sk, 'pk) client" where
  "handle_client P E fs priv pub has_cb connect_cb loop cid now rnd rnd' evs others c =
     (let (_, c1) = client_body P E fs priv pub has_cb connect_cb loop cid now rnd rnd' evs others c;
          a = mc_agent_id c1
      in if \<not> mc_loop c1 then (Inl UnboundLocalError, c1)
         else if loop \<noteq> None \<and> py_truthy E a \<and> a \<noteq> UNKNOWN then
           (Inr (), close_conn (hand_over (leave_tasks connect_cb a) c1))
         else (Inr (), close_conn c1))"

end
