(* ===== verification/Manual_Server_Facts.thy ===== *)
theory Manual_Server_Facts
  imports Manual_Server
begin

text \<open>
  What the thread-based server guarantees: its frame writer and reader against the wire format, the termination of a
  connection's loop, its agreement with the asyncio handler on what is dispatched, and how \<open>_handle_client\<close> ends.
\<close>

unbundle bit_operations_syntax

section \<open>Reading from segments\<close>

lemma next_bytes_first:
  assumes "a \<noteq> []"
  shows "next_bytes (length a) (Bytes (a @ b) # es) = (Inr a, if b = [] then es else Bytes b # es)"
  using assms by simp

lemma next_bytes_segments:
  assumes "concat segs \<noteq> []" and "0 < n"
  shows "\<exists>x segs'. next_bytes n (map Bytes segs @ es) = (Inr x, map Bytes segs' @ es) \<and>
    x \<noteq> [] \<and> length x \<le> n \<and> x @ concat segs' = concat segs \<and> ([] \<notin> set segs \<longrightarrow> [] \<notin> set segs')"
  using assms(1)
proof (induction segs)
  case (Cons seg segs)
  show ?case
  proof (cases "seg = []")
    case True
    then show ?thesis using Cons by auto
  next
    case False
    show ?thesis
    proof (cases "length seg \<le> n")
      case True
      with False show ?thesis by (intro exI [of _ seg] exI [of _ segs]) simp
    next
      case less: False
      with False assms(2) show ?thesis
        by (intro exI [of _ "take n seg"] exI [of _ "drop n seg # segs"]) simp
    qed
  qed
qed simp

lemma sock_recv_first:
  assumes "\<not> sk_closed s" and "length a = n" and "0 < n"
  shows "sock_recv n (s\<lparr>sk_in := Bytes (a @ b) # es\<rparr>) = (Inr a, s\<lparr>sk_in := (if b = [] then es else Bytes b # es)\<rparr>)"
  using assms next_bytes_first [of a b es] by (simp add: sock_recv_def) auto

lemma recv_payload_segments:
  assumes "\<not> sk_closed s" and "concat segs = more' @ following" and "length got + length more' = len"
  shows "\<exists>segs'. recv_payload len got (s\<lparr>sk_in := map Bytes segs @ es\<rparr>) =
      (Inr (Some (got @ more')), s\<lparr>sk_in := map Bytes segs' @ es\<rparr>) \<and> concat segs' = following \<and>
      ([] \<notin> set segs \<longrightarrow> [] \<notin> set segs')"
  using assms(2,3)
proof (induction "length more'" arbitrary: more' got segs rule: less_induct)
  case less
  show ?case
  proof (cases "more' = []")
    case True
    then show ?thesis using less.prems by (subst recv_payload.simps) auto
  next
    case False
    let ?n = "min (len - length got) 16384"
    have "concat segs \<noteq> []" "0 < ?n" using less.prems False by auto
    from next_bytes_segments [OF this, of es] obtain x segs1 where
      x: "next_bytes ?n (map Bytes segs @ es) = (Inr x, map Bytes segs1 @ es)" "x \<noteq> []" "length x \<le> ?n"
        "x @ concat segs1 = concat segs" "[] \<notin> set segs \<longrightarrow> [] \<notin> set segs1" by blast
    then have "length x \<le> len - length got" by simp
    then have "length x \<le> length more'" using less.prems(2) by linarith
    then obtain m1 where m1: "more' = x @ m1" "concat segs1 = m1 @ following"
      using x(4) less.prems(1) by (auto simp: append_eq_append_conv2)
    have "length m1 < length more'" using m1(1) x(2) by simp
    from less.hyps [OF this m1(2), of "got @ x"] obtain segs' where
      "recv_payload len (got @ x) (s\<lparr>sk_in := map Bytes segs1 @ es\<rparr>) =
         (Inr (Some ((got @ x) @ m1)), s\<lparr>sk_in := map Bytes segs' @ es\<rparr>)" "concat segs' = following"
         "[] \<notin> set segs1 \<longrightarrow> [] \<notin> set segs'"
      using less.prems(2) m1(1) by auto
    moreover have "length got < len" using less.prems(2) False by auto
    ultimately show ?thesis
      using x(1,2,5) assms(1) m1(1) by (subst recv_payload.simps) (auto simp: sock_recv_def)
  qed
qed

lemma recv_length_header:
  assumes "\<not> sk_closed s" and "n < 2 ^ 64"
  shows "\<exists>b x. frame_header 0x80 opcode n = (0x80 OR opcode_value opcode) # b # x \<and>
    recv_length (unat (b AND 0x7F)) (s\<lparr>sk_in := Bytes (x @ k # r) # es\<rparr>) = (Inr n, s\<lparr>sk_in := Bytes (k # r) # es\<rparr>)"
proof -
  consider "n < 126" | "126 \<le> n" "n < 65536" | "65536 \<le> n" by linarith
  then show ?thesis
  proof cases
    case 1
    then show ?thesis using length_bits [of n "0x80"]
      by (intro exI [of _ "0x80 OR of_nat n"] exI [of _ "[]"]) (simp add: frame_header_def recv_length_def)
  next
    case 2
    then show ?thesis using length_bits [of 126 "0x80"] sock_recv_first [OF assms(1), of "be_bytes 2 n" 2 "k # r" es]
      by (intro exI [of _ "0x80 OR 126"] exI [of _ "be_bytes 2 n"])
        (simp add: frame_header_def recv_length_def be_val_2 del: be_bytes.simps)
  next
    case 3
    then show ?thesis
      using length_bits [of 127 "0x80"] sock_recv_first [OF assms(1), of "be_bytes 8 n" 8 "k # r" es] assms(2)
      by (intro exI [of _ "0x80 OR 127"] exI [of _ "be_bytes 8 n"])
        (simp add: frame_header_def recv_length_def be_val_8 del: be_bytes.simps)
  qed
qed

lemma xor_mask_unmask: "length k = 4 \<Longrightarrow> xor_mask k (unmask k p) = Inr p"
  by (simp add: xor_mask_def unmask_unmask)

text \<open>A masked frame whose header comes in one segment, its payload in any pieces.\<close>

lemma recv_frame_segments:
  assumes open': "\<not> sk_closed s" and k: "length k = 4" and n: "length data < 2 ^ 64"
    and segs: "first @ concat segs = unmask k data @ following"
  shows "\<exists>segs'. recv_frame (s\<lparr>sk_in := Bytes (frame_header 0x80 opcode (length data) @ k @ first) # map Bytes segs @ es\<rparr>) =
      (Inr (Some (opcode_value opcode, data)), s\<lparr>sk_in := map Bytes segs' @ es\<rparr>) \<and> concat segs' = following \<and>
      ([] \<notin> set segs \<longrightarrow> [] \<notin> set segs')"
proof -
  obtain k0 k' where k': "k = k0 # k'" using k by (cases k) auto
  obtain b x where h: "frame_header 0x80 opcode (length data) = (0x80 OR opcode_value opcode) # b # x"
    and l: "recv_length (unat (b AND 0x7F)) (s\<lparr>sk_in := Bytes (x @ k @ first) # map Bytes segs @ es\<rparr>) =
      (Inr (length data), s\<lparr>sk_in := Bytes (k @ first) # map Bytes segs @ es\<rparr>)"
    using recv_length_header [OF open' n, of opcode k0 "k' @ first" "map Bytes segs @ es"] k' by auto
  have r2: "sock_recv 2 (s\<lparr>sk_in := Bytes (frame_header 0x80 opcode (length data) @ k @ first) # map Bytes segs @ es\<rparr>) =
      (Inr [0x80 OR opcode_value opcode, b], s\<lparr>sk_in := Bytes (x @ k @ first) # map Bytes segs @ es\<rparr>)"
    using sock_recv_first [OF open', of "[0x80 OR opcode_value opcode, b]" 2 "x @ k @ first" "map Bytes segs @ es"] k'
    by (simp add: h)
  have op: "(0x80 OR opcode_value opcode) AND 0x0F = opcode_value opcode" by (cases opcode) simp_all
  let ?s1 = "s\<lparr>sk_in := (if first = [] then map Bytes segs @ es else Bytes first # map Bytes segs @ es)\<rparr>"
  have r4: "sock_recv 4 (s\<lparr>sk_in := Bytes (k @ first) # map Bytes segs @ es\<rparr>) = (Inr k, ?s1)"
    using sock_recv_first [OF open', of k 4 first "map Bytes segs @ es"] k by simp
  have "?s1 = s\<lparr>sk_in := map Bytes (if first = [] then segs else first # segs) @ es\<rparr>" by simp
  moreover have "concat (if first = [] then segs else first # segs) = unmask k data @ following"
    using segs by auto
  ultimately have "\<exists>segs'. recv_payload (length data) [] ?s1 = (Inr (Some (unmask k data)), s\<lparr>sk_in := map Bytes segs' @ es\<rparr>) \<and>
      concat segs' = following \<and> ([] \<notin> set segs \<longrightarrow> [] \<notin> set segs')"
    using recv_payload_segments [OF open', of "if first = [] then segs else first # segs" "unmask k data" following "[]" "length data" es]
    by (auto split: if_splits)
  then show ?thesis
    using r2 l r4 by (auto simp: recv_frame_def op xor_mask_unmask [OF k])
qed

section \<open>A connection's loop ends\<close>

text \<open>What is still to come from the peer: every byte counts, and every failing \<open>recv\<close>.\<close>

definition pending :: "sock_event list \<Rightarrow> nat" where
  "pending es = sum_list (map (\<lambda>e. case e of Bytes bs \<Rightarrow> length bs | Stall \<Rightarrow> 1) es)"

abbreviation to_come :: "('sk, 'pk) client \<Rightarrow> nat" where
  "to_come c \<equiv> pending (sk_in (mc_sock c))"

lemma pending_next: "next_bytes n es = (r, es') \<Longrightarrow> pending es' + (case r of Inl e \<Rightarrow> 1 | Inr x \<Rightarrow> length x) = pending es"
  by (induction n es rule: next_bytes.induct) (auto simp: pending_def split: if_splits)

lemma pending_recv:
  "sock_recv n s = (r, s') \<Longrightarrow> pending (sk_in s') + (case r of Inl e \<Rightarrow> 0 | Inr x \<Rightarrow> length x) \<le> pending (sk_in s)"
  using pending_next [of n "sk_in s"] by (fastforce simp: sock_recv_def split: if_splits prod.splits sum.splits)

lemma recv_payload_more:
  "length got < len \<Longrightarrow> sock_recv (min (len - length got) 16384) s = (Inr chunk, s1) \<Longrightarrow> chunk \<noteq> [] \<Longrightarrow>
    recv_payload len got s = recv_payload len (got @ chunk) s1"
  by (subst recv_payload.simps) simp

lemma recv_payload_end:
  "length got < len \<Longrightarrow> sock_recv (min (len - length got) 16384) s = (r1, s1) \<Longrightarrow> r1 = Inl e \<or> r1 = Inr [] \<Longrightarrow>
    snd (recv_payload len got s) = s1"
  by (subst recv_payload.simps) auto

lemma pending_payload: "pending (sk_in (snd (recv_payload len got s))) \<le> pending (sk_in s)"
proof (induction len got s rule: recv_payload.induct)
  case (1 len got s)
  show ?case
  proof (cases "length got < len")
    case True
    obtain r1 s1 where r1: "sock_recv (min (len - length got) 16384) s = (r1, s1)"
      by (cases "sock_recv (min (len - length got) 16384) s")
    then have le: "pending (sk_in s1) \<le> pending (sk_in s)" using pending_recv by fastforce
    show ?thesis
    proof (cases "\<exists>chunk. r1 = Inr chunk \<and> chunk \<noteq> []")
      case ch: True
      then obtain chunk where "r1 = Inr chunk" "chunk \<noteq> []" by blast
      with r1 le "1.IH" [OF True r1 [symmetric]] recv_payload_more [OF True] show ?thesis by simp
    next
      case False
      then have "(\<exists>e. r1 = Inl e) \<or> r1 = Inr []" by (cases r1) auto
      then show ?thesis using recv_payload_end [OF True r1] le by auto
    qed
  qed (simp add: recv_payload.simps)
qed

lemma pending_length: "recv_length n s = (r, s') \<Longrightarrow> pending (sk_in s') \<le> pending (sk_in s)"
  using pending_recv [of 2 s] pending_recv [of 8 s]
  by (auto simp: recv_length_def sbind_def split: if_splits prod.splits sum.splits)

text \<open>A frame takes at least two bytes.\<close>

lemma sbind_Inr_iff [outcome_iff]: "sbind m f = (Inr y, s') \<longleftrightarrow> (\<exists>x s1. m = (Inr x, s1) \<and> f x s1 = (Inr y, s'))"
  by (auto simp: sbind_def split: prod.splits sum.splits)

lemma pending_frame:
  assumes "recv_frame s = (Inr (Some f), s')"
  shows "pending (sk_in s') + 2 \<le> pending (sk_in s)"
proof -
  from assms obtain data s1 len s2 mask_key s3 received s4 where
    1: "sock_recv 2 s = (Inr data, s1)" "2 \<le> length data"
    and 2: "recv_length (unat (data ! 1 AND 0x7F)) s1 = (Inr len, s2)"
    and 3: "sock_recv 4 s2 = (Inr mask_key, s3)" and 4: "recv_payload len [] s3 = (received, s')"
    by (auto simp: recv_frame_def Let_def outcome_iff not_less
        split: prod.splits sum.splits if_splits option.splits)
  show ?thesis
    using pending_recv [OF 1(1)] 1(2) pending_length [OF 2] pending_recv [OF 3] pending_payload [of len "[]" s3]
    by (simp add: 4)
qed

lemma sendall_in [simp]: "sk_in (snd (sock_sendall x s)) = sk_in s" "sk_closed (snd (sock_sendall x s)) = sk_closed s"
  by (auto simp: sock_sendall_def split: list.split bool.split)

lemma send_frame_in [simp]: "sk_in (snd (send_frame s x op)) = sk_in s" "sk_closed (snd (send_frame s x op)) = sk_closed s"
  by (auto simp: send_frame_def Let_def split: sum.split)

lemma on_sock_same [simp]:
  "mc_agent_id (snd (on_sock f c)) = mc_agent_id c" "mc_codec (snd (on_sock f c)) = mc_codec c"
  "mc_loop (snd (on_sock f c)) = mc_loop c" "mc_manager (snd (on_sock f c)) = mc_manager c"
  "mc_scheduled (snd (on_sock f c)) = mc_scheduled c" "mc_dispatched (snd (on_sock f c)) = mc_dispatched c"
  "mc_sock (snd (on_sock f c)) = snd (f (mc_sock c))"
  by (simp_all add: on_sock_def split: prod.split)

lemma send_text_same [simp]:
  "mc_agent_id (snd (send_text t c)) = mc_agent_id c" "mc_codec (snd (send_text t c)) = mc_codec c"
  "mc_loop (snd (send_text t c)) = mc_loop c" "mc_manager (snd (send_text t c)) = mc_manager c"
  "mc_scheduled (snd (send_text t c)) = mc_scheduled c" "mc_dispatched (snd (send_text t c)) = mc_dispatched c"
  "sk_in (mc_sock (snd (send_text t c))) = sk_in (mc_sock c)"
  "sk_closed (mc_sock (snd (send_text t c))) = sk_closed (mc_sock c)"
  by (auto simp: send_text_def split: sum.split)

lemma send_enc_same [simp]:
  "mc_agent_id (snd (send_enc P E cd d t ty c)) = mc_agent_id c" "mc_codec (snd (send_enc P E cd d t ty c)) = mc_codec c"
  "mc_dispatched (snd (send_enc P E cd d t ty c)) = mc_dispatched c"
  "sk_in (mc_sock (snd (send_enc P E cd d t ty c))) = sk_in (mc_sock c)"
  "sk_closed (mc_sock (snd (send_enc P E cd d t ty c))) = sk_closed (mc_sock c)"
  by (auto simp: send_enc_def split: sum.split)

lemma send_enc_result:
  "send_enc P E cd d t ty c = (r, c') \<Longrightarrow>
    mc_agent_id c' = mc_agent_id c \<and> mc_codec c' = mc_codec c \<and> mc_dispatched c' = mc_dispatched c"
  using send_enc_same [of P E cd d t ty c] by simp

lemma snd_manual_send:
  "snd (manual_send P E d ty m c) = (case mc_codec c of None \<Rightarrow> c | Some cd \<Rightarrow> snd (send_enc P E cd d m ty c))"
  by (simp add: manual_send_def split: option.split prod.split sum.split)

lemma manual_send_same [simp]:
  "mc_agent_id (snd (manual_send P E d ty m c)) = mc_agent_id c" "mc_codec (snd (manual_send P E d ty m c)) = mc_codec c"
  "mc_dispatched (snd (manual_send P E d ty m c)) = mc_dispatched c"
  "sk_in (mc_sock (snd (manual_send P E d ty m c))) = sk_in (mc_sock c)"
  "sk_closed (mc_sock (snd (manual_send P E d ty m c))) = sk_closed (mc_sock c)"
  by (simp_all add: snd_manual_send split: option.split)

lemma manual_text_in:
  "sk_in (mc_sock (snd (manual_text P E cb d t cd c))) = sk_in (mc_sock c) \<and>
   sk_closed (mc_sock (snd (manual_text P E cb d t cd c))) = sk_closed (mc_sock c)"
proof -
  obtain r cd1 where dec: "decrypt P E cd (io_now1 d) (io_now2 d) t = (r, cd1)" by (cases "decrypt P E cd (io_now1 d) (io_now2 d) t")
  have "sk_in (mc_sock c2) = sk_in (mc_sock c) \<and> sk_closed (mc_sock c2) = sk_closed (mc_sock c)"
    if "send_enc P E cd1 d x ty (c\<lparr>mc_codec := Some cd1\<rparr>) = (y, c2)" for x ty y c2
    using send_enc_same(4,5) [of P E cd1 d x ty "c\<lparr>mc_codec := Some cd1\<rparr>"] that by simp
  note same = this
  show ?thesis
  proof (cases r)
    case (Inr x)
    show ?thesis
      using same
      by (auto simp: manual_text_def dec Inr sbind_def Let_def split: sum.splits prod.splits)
  qed (simp add: manual_text_def dec)
qed

lemma manual_iteration_frame:
  assumes "recv_frame (mc_sock c) = (Inr (Some (op, payload)), s1)"
  shows "manual_iteration P E cb d c =
    (if op = 8 then (Inr False, c\<lparr>mc_sock := s1\<rparr>)
     else
       (case utf8_decode payload of
          Inl e \<Rightarrow> (Inl e, c\<lparr>mc_sock := s1\<rparr>)
        | Inr t \<Rightarrow>
            (case mc_codec c of
               None \<Rightarrow> (Inl AttributeError, c\<lparr>mc_sock := s1\<rparr>)
             | Some cd \<Rightarrow> sbind (manual_text P E cb d t cd (c\<lparr>mc_sock := s1\<rparr>)) (\<lambda>_ c2. (Inr True, c2)))))"
  using assms by (simp add: manual_iteration_def on_sock_def split: sum.split option.split)

lemma manual_iteration_continues:
  "manual_iteration P E cb d c = (Inr True, c') \<longleftrightarrow>
    (\<exists>op payload s1 t cd. recv_frame (mc_sock c) = (Inr (Some (op, payload)), s1) \<and> op \<noteq> 8 \<and>
       utf8_decode payload = Inr t \<and> mc_codec c = Some cd \<and>
       manual_text P E cb d t cd (c\<lparr>mc_sock := s1\<rparr>) = (Inr (), c'))"
proof (cases "\<exists>f s1. recv_frame (mc_sock c) = (Inr (Some f), s1)")
  case True
  then obtain op payload s1 where f: "recv_frame (mc_sock c) = (Inr (Some (op, payload)), s1)" by auto
  then show ?thesis by (simp add: manual_iteration_frame sbind_Inr_iff split: sum.split option.split)
next
  case False
  then show ?thesis
    by (cases "recv_frame (mc_sock c)") (auto simp: manual_iteration_def on_sock_def sbind_def split: sum.splits option.splits)
qed

definition iterations :: "io_event list \<Rightarrow> io_draws list" where
  "iterations evs = concat (map (\<lambda>ev. case ev of Iterate d \<Rightarrow> [d] | _ \<Rightarrow> []) evs)"

lemma iterations_simps [simp]:
  "iterations [] = []" "iterations (Iterate d # evs) = d # iterations evs"
  "iterations (CallBack d ty m # evs) = iterations evs"
  by (simp_all add: iterations_def)

lemma io_loop_iterate:
  assumes "fst (io_loop P E cb (Iterate d # evs) c) = Looping"
  obtains c1 where "manual_iteration P E cb d c = (Inr True, c1)"
    "io_loop P E cb (Iterate d # evs) c = io_loop P E cb evs c1"
  using assms by (auto split: prod.splits sum.splits bool.splits)

lemma io_loop_consumes:
  "fst (io_loop P E cb evs c) = Looping \<Longrightarrow>
    2 * length (iterations evs) + to_come (snd (io_loop P E cb evs c)) \<le> to_come c"
proof (induction evs arbitrary: c)
  case (Cons ev evs)
  show ?case
  proof (cases ev)
    case (Iterate d)
    obtain c1 where it: "manual_iteration P E cb d c = (Inr True, c1)"
      and io: "io_loop P E cb (ev # evs) c = io_loop P E cb evs c1"
      using Cons.prems unfolding Iterate by (rule io_loop_iterate)
    from it obtain f s1 t cd where f: "recv_frame (mc_sock c) = (Inr (Some f), s1)"
      and t: "manual_text P E cb d t cd (c\<lparr>mc_sock := s1\<rparr>) = (Inr (), c1)"
      unfolding manual_iteration_continues by blast
    have "sk_in (mc_sock c1) = sk_in s1" using manual_text_in [of P E cb d t cd "c\<lparr>mc_sock := s1\<rparr>"] by (simp add: t)
    moreover have "fst (io_loop P E cb evs c1) = Looping" using Cons.prems unfolding io .
    ultimately show ?thesis using Cons.IH [of c1] pending_frame [OF f] unfolding io by (simp add: Iterate)
  next
    case (CallBack d ty m)
    then show ?thesis using Cons.IH [of "snd (manual_send P E d ty m c)"] Cons.prems by simp
  qed
qed simp

section \<open>Agreement with the asyncio handler\<close>

text \<open>The session of agent\_handler.py that corresponds to a connection, and the events that correspond to the loop's when
  its iterations read the given texts.\<close>

definition same_session :: "('sk, 'pk) client \<Rightarrow> ('sk, 'pk) session \<Rightarrow> bool" where
  "same_session c s \<longleftrightarrow>
     mc_codec c = Some (ss_codec s) \<and> mc_agent_id c = ss_agent_id s \<and> mc_dispatched c = ss_dispatched s"

definition send_inputs :: "io_draws \<Rightarrow> send_draws" where
  "send_inputs d = \<lparr>sd_now = io_enc_now d, sd_draws = io_enc d, sd_ok = True\<rparr>"

fun session_events :: "io_event list \<Rightarrow> pystr list \<Rightarrow> session_event list" where
  "session_events [] ts = []"
| "session_events (CallBack d ty m # evs) ts = SendOut (send_inputs d) ty m # session_events evs ts"
| "session_events (Iterate d # evs) [] = []"
| "session_events (Iterate d # evs) (t # ts) =
     TextIn (io_now1 d) (io_now2 d) (send_inputs d) t # session_events evs ts"

text \<open>A masked text frame in one segment.\<close>

definition text_frame :: "bytes \<times> pystr \<times> bytes \<Rightarrow> sock_event" where
  "text_frame = (\<lambda>(k, t, data). Bytes (wire_frame (Some k) TEXT data))"

definition frame_of :: "bytes \<times> pystr \<times> bytes \<Rightarrow> bool" where
  "frame_of = (\<lambda>(k, t, data). length k = 4 \<and> utf8_encode t = Inr data \<and> length data < 2 ^ 64)"

lemma recv_text_frame:
  assumes "\<not> sk_closed s" and "frame_of (k, t, data)"
  shows "recv_frame (s\<lparr>sk_in := text_frame (k, t, data) # es\<rparr>) = (Inr (Some (1, data)), s\<lparr>sk_in := es\<rparr>)"
proof -
  have k: "length k = 4" "length data < 2 ^ 64" using assms(2) by (simp_all add: frame_of_def)
  obtain segs' where "recv_frame (s\<lparr>sk_in := Bytes (frame_header 0x80 TEXT (length data) @ k @ unmask k data) # es\<rparr>) =
      (Inr (Some (1, data)), s\<lparr>sk_in := map Bytes segs' @ es\<rparr>)" "concat segs' = []" "[] \<notin> set segs'"
    using recv_frame_segments [OF assms(1) k, of "unmask k data" "[]" "[]" TEXT es] by auto
  then show ?thesis by (cases segs') (auto simp: text_frame_def wire_frame_def)
qed

lemma same_session_send: "same_session c s \<Longrightarrow>
    same_session (snd (manual_send P E d ty m c)) (snd (send_encrypted P E sd ty m s))"
  by (simp add: same_session_def)

text \<open>One text: if the thread gets through it without an exception, the asyncio handler does the same with it.\<close>

lemma manual_text_agrees:
  assumes "same_session c s" and "mc_codec c = Some cd" and "manual_text P E True d t cd c = (Inr (), c')"
  shows "\<exists>s'. on_text P E True (io_now1 d) (io_now2 d) sd t s = (None, s') \<and> same_session c' s'"
proof -
  have cd: "cd = ss_codec s" using assms(1,2) by (simp add: same_session_def)
  obtain r cd1 where dec: "decrypt P E cd (io_now1 d) (io_now2 d) t = (r, cd1)" by (cases "decrypt P E cd (io_now1 d) (io_now2 d) t")
  obtain x where x: "r = Inr x" using assms(3) by (cases r) (auto simp: manual_text_def dec)
  have rel: "same_session (c\<lparr>mc_codec := Some cd1\<rparr>) (s\<lparr>ss_codec := cd1\<rparr>)"
    using assms(1) by (simp add: same_session_def)
  show ?thesis
  proof (cases "dr_ok x")
    case True
    from decrypt_accepted [OF dec [unfolded x] True] obtain env where env: "from_json t = Inr env" by metis
    show ?thesis
    proof (cases "parse_type (etype env)")
      case (Inl e)
      then have "is_value_error e" using parse_type_Inl by (simp add: is_value_error_def)
      then show ?thesis
        using assms(3) rel by (auto simp: manual_text_def on_text_def dec [unfolded cd] dec x env Inl True cd)
    next
      case (Inr ty)
      show ?thesis
        using assms(3) rel
        by (cases ty; cases "utf8_decode (dr_plaintext x)")
          (auto simp: manual_text_def on_text_def dec [unfolded cd] x env Inr True cd Let_def sbind_Inr_iff same_session_def
            dest!: send_enc_result)
    qed
  next
    case False
    then show ?thesis using assms(3) rel by (auto simp: manual_text_def on_text_def dec [unfolded cd] x cd)
  qed
qed

lemma manual_loop_agrees:
  assumes "fst (io_loop P E True evs c) = Looping" and "same_session c s" and "\<not> sk_closed (mc_sock c)"
    and "sk_in (mc_sock c) = map text_frame fs @ es" and "\<forall>f \<in> set fs. frame_of f"
    and "length fs = length (iterations evs)"
  shows "\<exists>s'. session_run P E True (session_events evs (map (fst \<circ> snd) fs)) s = (Running, s') \<and>
    same_session (snd (io_loop P E True evs c)) s' \<and> sk_in (mc_sock (snd (io_loop P E True evs c))) = es"
  using assms
proof (induction evs arbitrary: c s fs)
  case (Cons ev evs)
  show ?case
  proof (cases ev)
    case (Iterate d)
    obtain c1 where it: "manual_iteration P E True d c = (Inr True, c1)"
      and io: "io_loop P E True (ev # evs) c = io_loop P E True evs c1"
      using Cons.prems(1) unfolding Iterate by (rule io_loop_iterate)
    obtain k t data fs' where fs: "fs = (k, t, data) # fs'" "length fs' = length (iterations evs)"
      using Cons.prems(6) Iterate by (cases fs) auto
    have "recv_frame ((mc_sock c)\<lparr>sk_in := text_frame (k, t, data) # map text_frame fs' @ es\<rparr>) =
        (Inr (Some (1, data)), (mc_sock c)\<lparr>sk_in := map text_frame fs' @ es\<rparr>)"
      by (rule recv_text_frame) (use Cons.prems(3,5) fs in auto)
    moreover have "(mc_sock c)\<lparr>sk_in := text_frame (k, t, data) # map text_frame fs' @ es\<rparr> = mc_sock c"
      using Cons.prems(4) fs(1) by simp
    ultimately have f: "recv_frame (mc_sock c) = (Inr (Some (1, data)), (mc_sock c)\<lparr>sk_in := map text_frame fs' @ es\<rparr>)"
      by simp
    have u: "utf8_decode data = Inr t"
      by (rule utf8_decode_encode) (use Cons.prems(5) fs in \<open>auto simp: frame_of_def\<close>)
    let ?c = "c\<lparr>mc_sock := (mc_sock c)\<lparr>sk_in := map text_frame fs' @ es\<rparr>\<rparr>"
    have c: "same_session ?c s" "mc_codec ?c = Some (ss_codec s)" using Cons.prems(2) by (simp_all add: same_session_def)
    have t: "manual_text P E True d t (ss_codec s) ?c = (Inr (), c1)"
      using it c(2) by (simp add: manual_iteration_frame [OF f] u sbind_Inr_iff)
    obtain s1 where s1: "on_text P E True (io_now1 d) (io_now2 d) (send_inputs d) t s = (None, s1)" "same_session c1 s1"
      using manual_text_agrees [OF c t] by blast
    have in1: "sk_in (mc_sock c1) = map text_frame fs' @ es" "\<not> sk_closed (mc_sock c1)"
      using manual_text_in [of P E True d t "ss_codec s" ?c] Cons.prems(3) by (simp_all add: t)
    have "fst (io_loop P E True evs c1) = Looping" using Cons.prems(1) unfolding io .
    from Cons.IH [OF this s1(2) in1(2,1) _ fs(2)] show ?thesis
      using s1(1) Cons.prems(5) fs unfolding io by (auto simp: Iterate)
  next
    case (CallBack d ty m)
    from Cons.IH [OF _ same_session_send [OF Cons.prems(2), of P E d ty m "send_inputs d"], of fs] Cons.prems
    show ?thesis by (simp add: CallBack)
  qed
qed simp

section \<open>How a connection ends\<close>

lemma recv_closed [simp]:
  "sk_closed (snd (sock_recv n s)) = sk_closed s" "sk_closed (snd (recv_length n s)) = sk_closed s"
  by (auto simp: sock_recv_def recv_length_def sbind_def split: prod.splits sum.splits)

lemma recv_payload_closed [simp]: "sk_closed (snd (recv_payload len got s)) = sk_closed s"
proof (induction len got s rule: recv_payload.induct)
  case (1 len got s)
  obtain r1 s1 where r1: "sock_recv (min (len - length got) 16384) s = (r1, s1)"
    by (cases "sock_recv (min (len - length got) 16384) s")
  then have "sk_closed s1 = sk_closed s" using recv_closed(1) [of "min (len - length got) 16384" s] by simp
  then show ?case
    using "1.IH" r1 by (subst recv_payload.simps) (auto split: sum.split)
qed

lemma recv_closedD:
  "sock_recv n s = (r, s') \<Longrightarrow> sk_closed s' = sk_closed s"
  "recv_length n s = (r', s') \<Longrightarrow> sk_closed s' = sk_closed s"
  "recv_payload len got s = (r'', s') \<Longrightarrow> sk_closed s' = sk_closed s"
  using recv_closed [of n s] recv_payload_closed [of len got s] by simp_all

lemma sbind_keeps:
  "h (snd m) = v \<Longrightarrow> (\<And>x s. h s = v \<Longrightarrow> h (snd (f x s)) = v) \<Longrightarrow> h (snd (sbind m f)) = v"
  by (cases m; cases "fst m") (auto simp: sbind_def)

lemma recv_frame_closed [simp]: "sk_closed (snd (recv_frame s)) = sk_closed s"
proof -
  obtain r s1 where r: "sock_recv 2 s = (r, s1)" by (cases "sock_recv 2 s")
  have s1: "sk_closed s1 = sk_closed s" by (rule recv_closedD(1) [OF r])
  show ?thesis
    using s1 by (auto simp: recv_frame_def r Let_def split: sum.split option.splits
        intro!: sbind_keeps [where h = sk_closed])
qed

text \<open>What a connection has changed before it registers: nothing outside its socket.\<close>

definition local_only :: "('sk, 'pk) client \<Rightarrow> ('sk, 'pk) client \<Rightarrow> bool" where
  "local_only c c' \<longleftrightarrow>
     mc_loop c' = mc_loop c \<and> mc_manager c' = mc_manager c \<and> mc_scheduled c' = mc_scheduled c \<and>
     mc_dispatched c' = mc_dispatched c"

lemma local_only_refl [simp]: "local_only c c"
  by (simp add: local_only_def)

lemma local_only_trans: "local_only a b \<Longrightarrow> local_only b c \<Longrightarrow> local_only a c"
  by (simp add: local_only_def)

lemma on_sock_result:
  "on_sock f c = (r, c') \<Longrightarrow> local_only c c' \<and> f (mc_sock c) = (r, mc_sock c') \<and> mc_agent_id c' = mc_agent_id c"
  by (auto simp: on_sock_def local_only_def split: prod.splits)

lemma send_text_result:
  "send_text t c = (r, c') \<Longrightarrow> local_only c c' \<and> sk_closed (mc_sock c') = sk_closed (mc_sock c) \<and> mc_agent_id c' = mc_agent_id c"
  using send_text_same [of t c] by (simp add: local_only_def)

lemma upgrade_local:
  assumes "upgrade c = (r, c')" and "\<not> sk_closed (mc_sock c)"
  shows "local_only c c' \<and> (sk_closed (mc_sock c') \<longleftrightarrow> r = Inr False)"
proof -
  obtain r1 c1 where 1: "on_sock (sock_recv 4096) c = (r1, c1)" by (cases "on_sock (sock_recv 4096) c")
  have c1: "local_only c c1" "\<not> sk_closed (mc_sock c1)"
    using on_sock_result [OF 1] recv_closedD(1) [of 4096 "mc_sock c" r1 "mc_sock c1"] assms(2) by simp_all
  have cl: "local_only c (close_conn c1)" "sk_closed (mc_sock (close_conn c1))"
    using c1(1) by (simp_all add: close_conn_def local_only_def sock_close_def)
  have snd: "local_only c c2 \<and> \<not> sk_closed (mc_sock c2)" if "on_sock (sock_sendall x) c1 = (r2, c2)" for x r2 c2
    using on_sock_result [OF that] sendall_in(2) [of x "mc_sock c1"] c1 local_only_trans [OF c1(1)] by simp
  show ?thesis
    using assms(1) c1 cl
    by (auto simp: upgrade_def 1 sbind_def Let_def dest!: snd split: sum.splits option.splits if_splits prod.splits)
qed

lemma handshake_local:
  assumes "manual_handshake P E fs priv pub rnd rnd' c = (r, c')" and "\<not> sk_closed (mc_sock c)"
  shows "local_only c c' \<and> (sk_closed (mc_sock c') \<longleftrightarrow> r = Inr None)"
proof -
  obtain r1 c1 where 1: "on_sock recv_frame c = (r1, c1)" by (cases "on_sock recv_frame c")
  have c1: "local_only c c1" "\<not> sk_closed (mc_sock c1)"
    using on_sock_result [OF 1] recv_frame_closed [of "mc_sock c"] assms(2) by auto
  have cl: "local_only x y \<Longrightarrow> local_only x (close_conn y)" "sk_closed (mc_sock (close_conn y))" for x y :: "('a, 'b) client"
    by (simp_all add: close_conn_def local_only_def sock_close_def)
  have ag: "local_only c (c1\<lparr>mc_agent_id := a\<rparr>)" for a using c1(1) by (simp add: local_only_def)
  have snd: "local_only c c2 \<and> \<not> sk_closed (mc_sock c2)" if "send_text x (c1\<lparr>mc_agent_id := a\<rparr>) = (r2, c2)" for x r2 c2 a
    using send_text_result [OF that] c1(2) local_only_trans [OF ag] by auto
  have cd: "local_only x y \<Longrightarrow> local_only x (y\<lparr>mc_codec := k\<rparr>)" for x y :: "('a, 'b) client" and k
    by (simp add: local_only_def)
  show ?thesis
    using assms(1) c1 ag
    by (auto simp: manual_handshake_def 1 sbind_def Let_def cl cd dest!: snd
        split: sum.splits option.splits if_splits prod.splits)
qed

text \<open>The handshake of a well-formed first message is the asyncio handler's.\<close>

lemma manual_verify_agrees:
  assumes "init_fields kvs (hi_agent_id init) pr (hi_ecdh_pub_pem init) (hi_ecdsa_pub_pem init) (hi_signature_b64 init)"
    and "verify_init P E init = Inr verifier"
  shows "manual_verify P E (JObj kvs) (hi_agent_id init) = Inr (verifier, hi_ecdh_pub_pem init, True)"
  using assms
  by (auto simp: manual_verify_def verify_init_def init_fields_def subscript_def outcome_iff init_signing_data_def
      split: if_splits)

text \<open>The locale matters for the key file: it reads the same when the locale decodes its bytes as UTF-8 does. A locale that decodes
  ASCII as ASCII does so for a PEM file.\<close>

definition locale_agrees :: "py_env \<Rightarrow> files \<Rightarrow> pystr \<Rightarrow> bool" where
  "locale_agrees E fs path \<longleftrightarrow> (\<forall>data. fs path = Some data \<longrightarrow> locale_decode E data = utf8_decode data)"

lemma read_locale_agrees: "locale_agrees E fs path \<Longrightarrow> read_locale_text E fs path = read_text fs path"
  by (auto simp: locale_agrees_def read_locale_text_def read_text_def read_file_def split: option.split)

lemma locale_agrees_pem:
  assumes "\<forall>s. (\<forall>c \<in> set s. c < 128) \<longrightarrow> locale_decode E (map of_nat s) = Inr s"
    and "pem_text_ok P" and "fs path = Some (map of_nat (p_pub_pem P pk))"
  shows "locale_agrees E fs path"
proof -
  have "\<forall>c \<in> set (p_pub_pem P pk). c < 128" using assms(2) by (simp add: pem_text_ok_def pem_ok_def)
  then show ?thesis
    using assms(1,3) utf8_decode_encode [OF pem_encode [OF assms(2), of pk]] by (simp add: locale_agrees_def)
qed

lemma manual_ack_agrees:
  "prepare_ack P fs priv pub rnd rnd' init = Inr x \<Longrightarrow> locale_agrees E fs pub \<Longrightarrow>
    manual_ack P E fs priv pub rnd rnd' (hi_ecdh_pub_pem init) = Inr x"
  by (auto simp: manual_ack_def prepare_ack_def read_locale_agrees Let_def outcome_iff)

lemma loads_no_bom: "loads s = Inr j \<Longrightarrow> s = [] \<or> hd s \<noteq> 0xFEFF"
  by (auto simp: loads_def split: if_splits)

lemma send_frame_ok:
  assumes "\<not> sk_closed s" and "sk_sends s = []"
  shows "send_frame s payload (opcode_value opcode) =
    (if length payload < 65536 then (Inr (), s\<lparr>sk_out := sk_out s @ [encode_frame payload opcode]\<rparr>)
     else (Inl OverflowError, s))"
  using assms by (simp add: send_frame_def sock_sendall_def encode_frame_def to_bytes2_def Let_def)

lemma send_text_ok:
  assumes "\<not> sk_closed (mc_sock c)" and "sk_sends (mc_sock c) = []" and "utf8_encode t = Inr data"
  shows "send_text t c =
    (if length data < 65536 then (Inr (), c\<lparr>mc_sock := (mc_sock c)\<lparr>sk_out := sk_out (mc_sock c) @ [encode_frame data TEXT]\<rparr>\<rparr>)
     else (Inl OverflowError, c))"
  using send_frame_ok [OF assms(1,2), of data TEXT] assms(3) by (simp add: send_text_def on_sock_def)

lemma utf8_encode_scalarD: "utf8_encode s = Inr bs \<Longrightarrow> scalar_text s"
proof (induction s arbitrary: bs)
  case (Cons c s)
  then obtain b bs' where "utf8_char c = Inr b" "utf8_encode s = Inr bs'" by (auto simp: outcome_iff)
  with Cons.IH show ?case by (auto simp: utf8_char_def is_surrogate_def split: if_splits)
qed simp

text \<open>The answer of a handshake is ASCII.\<close>

lemma handshake_ack_ascii:
  assumes "do_handshake P E fs priv pub rnd rnd' True raw = (Inr hk, [ack])"
  shows "utf8_encode ack = Inr (map of_nat ack)"
proof -
  from assms obtain init shared signer where "prepare_ack P fs priv pub rnd rnd' init = Inr (ack, shared, signer)"
    by (auto simp: do_handshake_def split: sum.splits prod.splits if_splits)
  then obtain ec ed sig data where ack: "ack = dumps_default (ack_json ec ed sig)" and "utf8_encode (ec @ BAR @ ed) = Inr data"
    by (auto simp: prepare_ack_def Let_def outcome_iff)
  then have "json_ok True (ack_json ec ed sig)"
    using utf8_encode_scalarD by (force simp: ack_json_def scalar_text_ok)
  then show ?thesis
    unfolding ack dumps_default_def by (intro utf8_encode_ascii dumps_ascii) (simp_all add: lit_def)
qed

lemma manual_handshake_ok:
  assumes hs: "do_handshake P E fs priv pub rnd rnd' True raw = (Inr hk, [ack])"
    and fr: "frame_of (k, raw, data)" "0 \<notin> set raw"
    and sock: "\<not> sk_closed (mc_sock c)" "sk_sends (mc_sock c) = []" "sk_in (mc_sock c) = text_frame (k, raw, data) # es"
    and loc: "locale_agrees E fs pub"
  shows "manual_handshake P E fs priv pub rnd rnd' c =
    (if length ack < 65536 then
       (Inr (Some (hk_projects hk)),
        c\<lparr>mc_agent_id := hk_agent_id hk, mc_codec := Some (hk_codec hk),
          mc_sock := (mc_sock c)\<lparr>sk_in := es, sk_out := sk_out (mc_sock c) @ [encode_frame (map of_nat ack) TEXT]\<rparr>\<rparr>)
     else (Inl OverflowError, c\<lparr>mc_agent_id := hk_agent_id hk, mc_sock := (mc_sock c)\<lparr>sk_in := es\<rparr>\<rparr>))"
proof -
  obtain init verifier shared signer ci where init: "parse_handshake_init raw = Inr init"
    and ver: "verify_init P E init = Inr verifier"
    and prep: "prepare_ack P fs priv pub rnd rnd' init = Inr (ack, shared, signer)"
    and ci: "new_cipher shared = Inr ci"
    and hk: "hk = \<lparr>hk_agent_id = hi_agent_id init, hk_projects = hi_projects init,
      hk_codec = new_codec ci signer verifier (Some (new_guard 300))\<rparr>"
    using hs by (auto simp: do_handshake_def split: sum.splits prod.splits if_splits)
  obtain kvs where kvs: "loads raw = Inr (JObj kvs)"
    "init_fields kvs (hi_agent_id init) (hi_projects init) (hi_ecdh_pub_pem init) (hi_ecdsa_pub_pem init) (hi_signature_b64 init)"
    by (rule parse_init_Inr [OF init])
  have data: "utf8_encode raw = Inr data" using fr(1) by (simp add: frame_of_def)
  have j: "loads_bytes data = Inr (JObj kvs)"
    using loads_bytes_utf8 [OF data fr(2) loads_no_bom [OF kvs(1)]] kvs(1) by simp
  have sub: "subscript (JObj kvs) (lit ''agent_id'') = Inr (hi_agent_id init)"
    "subscript (JObj kvs) (lit ''projects'') = Inr (hi_projects init)"
    using kvs(2) by (simp_all add: subscript_def init_fields_def)
  have s: "(mc_sock c)\<lparr>sk_in := text_frame (k, raw, data) # es\<rparr> = mc_sock c" using sock(3) by simp
  have f: "on_sock recv_frame c = (Inr (Some (1, data)), c\<lparr>mc_sock := (mc_sock c)\<lparr>sk_in := es\<rparr>\<rparr>)"
    using recv_text_frame [OF sock(1) fr(1), of es] by (simp add: s on_sock_def)
  have send: "send_text ack (c\<lparr>mc_sock := (mc_sock c)\<lparr>sk_in := es\<rparr>, mc_agent_id := hi_agent_id init\<rparr>) =
      (if length ack < 65536 then
         (Inr (), c\<lparr>mc_agent_id := hi_agent_id init,
            mc_sock := (mc_sock c)\<lparr>sk_in := es, sk_out := sk_out (mc_sock c) @ [encode_frame (map of_nat ack) TEXT]\<rparr>\<rparr>)
       else (Inl OverflowError, c\<lparr>mc_agent_id := hi_agent_id init, mc_sock := (mc_sock c)\<lparr>sk_in := es\<rparr>\<rparr>))"
    using sock(1,2) by (subst send_text_ok [OF _ _ handshake_ack_ascii [OF hs]]) simp_all
  show ?thesis
    using manual_verify_agrees [OF kvs(2) ver] manual_ack_agrees [OF prep loc] ci
    by (simp add: manual_handshake_def f j sub send hk Let_def)
qed

text \<open>What a served connection does outside its socket.\<close>

definition served :: "('sk, 'pk) client \<Rightarrow> ('sk, 'pk) client \<Rightarrow> bool" where
  "served c c' \<longleftrightarrow>
     mc_loop c' = mc_loop c \<and> mc_manager c' = mc_manager c \<and> mc_scheduled c' = mc_scheduled c \<and>
     mc_agent_id c' = mc_agent_id c"

lemma served_trans: "served a b \<Longrightarrow> served b c \<Longrightarrow> served a c"
  by (simp add: served_def)

lemma served_send_enc: "send_enc P E cd d t ty c = (r, c') \<Longrightarrow> served c c'"
  by (auto simp: send_enc_def served_def local_only_def dest!: send_text_result split: sum.splits)

lemma served_manual_send: "served c (snd (manual_send P E d ty m c))"
  by (auto simp: snd_manual_send served_def [of c c] split: option.split intro: served_send_enc [OF prod.collapse [symmetric]])

lemma served_manual_text:
  assumes "manual_text P E cb d t cd c = (r, c')"
  shows "served c c'"
proof -
  obtain x cd1 where dec: "decrypt P E cd (io_now1 d) (io_now2 d) t = (x, cd1)" by (cases "decrypt P E cd (io_now1 d) (io_now2 d) t")
  have c1: "served c (c\<lparr>mc_codec := Some cd1\<rparr>)" by (simp add: served_def)
  have disp: "served a b \<Longrightarrow> served a (b\<lparr>mc_dispatched := y\<rparr>)" for a b :: "('a, 'b) client" and y
    by (simp add: served_def)
  note snd = served_trans [OF c1 served_send_enc]
  show ?thesis
    using assms c1
    by (cases x) (auto simp: manual_text_def dec sbind_def Let_def disp dest!: snd
        split: sum.splits prod.splits if_splits)
qed

lemma served_iteration:
  assumes "manual_iteration P E cb d c = (r, c')"
  shows "served c c'"
proof -
  obtain f s1 where f: "recv_frame (mc_sock c) = (f, s1)" by (cases "recv_frame (mc_sock c)")
  have c1: "served c (c\<lparr>mc_sock := s1\<rparr>)" by (simp add: served_def)
  note text_in = served_trans [OF c1 served_manual_text]
  show ?thesis
    using assms c1
    by (auto simp: manual_iteration_def on_sock_def f sbind_def dest: text_in
        split: sum.splits prod.splits option.splits if_splits)
qed

lemma served_loop: "served c (snd (io_loop P E cb evs c))"
proof (induction evs arbitrary: c)
  case Nil
  show ?case by (simp add: served_def)
next
  case (Cons ev evs)
  show ?case
  proof (cases ev)
    case (Iterate d)
    obtain r c1 where it: "manual_iteration P E cb d c = (r, c1)" by (cases "manual_iteration P E cb d c")
    show ?thesis using served_iteration [OF it] served_trans [OF served_iteration [OF it] Cons.IH]
      by (simp add: Iterate it split: sum.split bool.split)
  next
    case (CallBack d ty m)
    then show ?thesis using served_trans [OF served_manual_send Cons.IH] by simp
  qed
qed

text \<open>The coroutines of the event loop: none stops the manager, a removal unregisters its id, and only a registration of the id brings it back.\<close>

lemma do_task_manager:
  "\<not> stopped (fst x) \<Longrightarrow> \<not> stopped (fst (do_task t x))"
  "\<not> stopped (fst x) \<Longrightarrow> map_of (by_agent (fst (do_task (RemoveTask (JStr a)) x))) (JStr a) = None"
  "\<not> stopped (fst x) \<Longrightarrow> map_of (by_agent (fst x)) (JStr a) = None \<Longrightarrow> \<forall>now ps cid. t \<noteq> AddTask now (JStr a) ps cid \<Longrightarrow>
    map_of (by_agent (fst (do_task t x))) (JStr a) = None"
  by (auto simp: do_task_def add_agent_def remove_agent_def Let_def split: prod.split loop_task.split sum.split)

lemma do_tasks_running: "\<not> stopped (fst x) \<Longrightarrow> \<not> stopped (fst (fold do_task ts x))"
  by (induction ts arbitrary: x) (simp_all add: do_task_manager(1))

lemma do_tasks_unregistered:
  assumes "\<not> stopped (fst x)" and "map_of (by_agent (fst x)) (JStr a) = None"
    and "\<forall>now ps cid. AddTask now (JStr a) ps cid \<notin> set ts"
  shows "map_of (by_agent (fst (fold do_task ts x))) (JStr a) = None"
  using assms
proof (induction ts arbitrary: x)
  case (Cons t ts)
  from Cons.IH [OF do_task_manager(1) [OF Cons.prems(1)] do_task_manager(3) [OF Cons.prems(1,2), of t]] Cons.prems(3)
  show ?case by (simp, metis)
qed simp

lemma removal_unregisters:
  assumes "\<not> stopped m" and "\<forall>now ps cid. AddTask now (JStr a) ps cid \<notin> set after"
  shows "get_by_agent (fst (fold do_task (before @ RemoveTask (JStr a) # after) (m, ns))) (JStr a) = Inr None"
proof -
  let ?x = "fold do_task before (m, ns)"
  have r: "\<not> stopped (fst ?x)" using assms(1) by (intro do_tasks_running) simp
  from do_tasks_unregistered [OF do_task_manager(1) [OF r] do_task_manager(2) [OF r] assms(2)] show ?thesis
    by (simp add: get_by_agent_def)
qed

text \<open>A connection that finds a stopped loop registers nobody: its handler schedules the registration, gives up waiting for it, schedules the removal
  and ends; the manager is as it was.\<close>

lemma stopped_loop_registers_nobody:
  assumes "upgrade c = (Inr True, c1)" and "manual_handshake P E fs priv pub rnd rnd' c1 = (Inr (Some ps), c2)"
    and "mc_agent_id c2 = JStr a" and "a \<noteq> []" and "JStr a \<noteq> UNKNOWN"
  shows "\<exists>c'. handle_client P E fs priv pub has_cb connect_cb (Some Stopped) cid now rnd rnd' evs others c = (Inr (), c') \<and>
    mc_manager c' = mc_manager c2 \<and>
    mc_scheduled c' = mc_scheduled c2 @ AddTask now (JStr a) ps cid # leave_tasks connect_cb (JStr a)"
  using assms
  by (simp add: handle_client_def client_body_def manual_register_def hand_over_def close_conn_def py_truthy_def Let_def)

text \<open>The send callback is no coroutine: after the message has been sent, awaiting its result raises.\<close>

lemma manual_send_raises:
  assumes "hashable a" and "map_of (by_agent m) a = Some info" and "manual_send P E d ty payload c = (True, c')"
  shows "send_to_agent (manual_call_back P E d) m a ty payload c = (Inl TypeError, c')"
  using assms by (simp add: send_to_agent_def get_by_agent_def manual_call_back_def)

section \<open>A connection for the examples\<close>

definition toy_sock :: "sock_event list \<Rightarrow> sock" where
  "toy_sock es = \<lparr>sk_in = es, sk_sends = [], sk_out = [], sk_closed = False\<rparr>"

definition toy_io :: io_draws where
  "toy_io = \<lparr>io_now1 = 2000, io_now2 = 2001, io_enc_now = 2002,
     io_enc = \<lparr>dw_uuid = lit ''u9'', dw_nonce = [9], dw_iv = replicate 12 0, dw_sig = []\<rparr>\<rparr>"

definition toy_request :: bytes where
  "toy_request = map of_nat (lit ''GET / HTTP/1.1'' @ CRLF @ lit ''Sec-WebSocket-Key: k'' @ CRLF @ CRLF)"

lemma toy_upgrade:
  "\<exists>response. upgrade (new_client (toy_sock (Bytes toy_request # es)) m) =
     (Inr True, (new_client ((toy_sock es)\<lparr>sk_out := [response]\<rparr>) m :: ('sk, 'pk) client))"
proof -
  have len: "length toy_request = 40" by (simp add: toy_request_def CRLF_def)
  have r: "on_sock (sock_recv 4096) (new_client (toy_sock (Bytes toy_request # es)) m :: ('sk, 'pk) client) =
      (Inr toy_request, new_client (toy_sock es) m)"
    using len by (cases "toy_request = []") (simp_all add: on_sock_def new_client_def toy_sock_def sock_recv_def)
  have "parse_http_upgrade toy_request =
      Some [(lit ''_method'', lit ''GET''), (lit ''_path'', lit ''/''), (lit ''_version'', lit ''HTTP/1.1''),
            (lit ''sec-websocket-key'', lit ''k'')]"
    by (simp add: toy_request_def parse_http_upgrade_def latin1_decode_def CRLF_def lit_def py_lower_def lower_char_def)
  then obtain hs where hs: "parse_http_upgrade toy_request = Some hs" "map_of hs (lit ''sec-websocket-key'') = Some (lit ''k'')"
    by (simp add: lit_def)
  have "scalar_text (lit ''k'' @ WS_GUID)" by (simp add: WS_GUID_def)
  then obtain data where d: "utf8_encode (lit ''k'' @ WS_GUID) = Inr data" using utf8_encode_scalar by blast
  have "scalar_text (std_b64encode (sha1 data))"
    using std_b64encode_chars by (blast intro: scalar_text_ascii)
  then have "scalar_text (upgrade_response (std_b64encode (sha1 data)))"
    by (simp add: upgrade_response_def CRLF_def is_surrogate_def)
  from utf8_encode_scalar [OF this] obtain resp where
    resp: "utf8_encode (upgrade_response (std_b64encode (sha1 data))) = Inr resp" by blast
  have snd: "on_sock (sock_sendall resp) (new_client (toy_sock es) m :: ('sk, 'pk) client) =
      (Inr (), new_client ((toy_sock es)\<lparr>sk_out := [resp]\<rparr>) m)"
    by (simp add: on_sock_def new_client_def toy_sock_def sock_sendall_def)
  show ?thesis
    by (rule exI [of _ resp]) (simp add: upgrade_def r hs compute_accept_key_def d resp snd)
qed

definition toy_raw :: pystr where
  "toy_raw = toy_hello (lit ''a1'') (JArr []) [4] [5]"

lemma toy_raw_frame: "frame_of ([1, 2, 3, 4], toy_raw, map of_nat toy_raw)" "0 \<notin> set toy_raw"
proof -
  have chars: "list_all (\<lambda>c. 0 < c \<and> c < 128) toy_raw" "length toy_raw < 1000" by code_simp+
  then have "utf8_encode toy_raw = Inr (map of_nat toy_raw)" by (intro utf8_encode_ascii) (simp add: list_all_iff)
  then show "frame_of ([1, 2, 3, 4], toy_raw, map of_nat toy_raw)" "0 \<notin> set toy_raw"
    using chars by (auto simp: frame_of_def list_all_iff)
qed

lemma toy_raw_handshake:
  obtains hk ack where "do_handshake toy_prims toy_env (toy_files [7]) (lit ''priv'') (lit ''pub'') [3] [] True toy_raw = (Inr hk, [ack])"
    "hk_agent_id hk = JStr (lit ''a1'')" "hk_projects hk = JArr []" "length ack < 65536"
proof -
  have hello: "agent_hello toy_prims toy_env toy_raw (JStr (lit ''a1'')) (JArr []) [4] [5]"
    unfolding toy_raw_def by (rule toy_hello_ok) (simp_all add: lit_def)
  obtain hk ack where hs: "do_handshake toy_prims toy_env (toy_files [7]) (lit ''priv'') (lit ''pub'') [3] [] True toy_raw = (Inr hk, [ack])"
    and a: "hk_agent_id hk = JStr (lit ''a1'')" "hk_projects hk = JArr []"
    using handshake_sessions [OF toy_crypto_ok toy_server_keys hello, of "[7]" "[3]" "[]"] by blast
  let ?ec = "ecdh_public_key_pem toy_prims (new_ecdh toy_prims [3])" and ?ed = "p_pub_pem toy_prims (p_public toy_prims [7])"
  let ?sg = "new_signer\<lparr>sg_private := Some [7]\<rparr> :: (bytes, bytes) signer"
  have P: "pem_text_ok toy_prims" using toy_crypto_ok by (simp add: crypto_ok_def)
  have "server_keys toy_prims (toy_files [7]) (lit ''priv'') (lit ''pub'') [7]" by (rule toy_server_keys)
  then have keys: "from_private_key_file toy_prims (toy_files [7]) (lit ''priv'') = Inr ?sg"
    "read_text (toy_files [7]) (lit ''pub'') = Inr (p_pub_pem toy_prims (p_public toy_prims [7]))"
    using P read_text_pem [OF P]
    by (simp_all add: from_private_key_file_def read_file_def server_keys_def from_private_key_data_def
        pem_text_ok_def pem_ok_def)
  have len: "case rbind (utf8_encode (?ec @ BAR @ ?ed)) (signer_sign toy_prims ?sg []) of
      Inl _ \<Rightarrow> True | Inr sig \<Rightarrow> length (dumps_default (ack_json ?ec ?ed sig)) < 1000"
    by code_simp
  from hs obtain init shared signer where "prepare_ack toy_prims (toy_files [7]) (lit ''priv'') (lit ''pub'') [3] [] init = Inr (ack, shared, signer)"
    by (auto simp: do_handshake_def split: sum.splits prod.splits if_splits)
  then have "length ack < 65536"
    using len by (auto simp: prepare_ack_def Let_def outcome_iff keys)
  then show thesis using that hs a by blast
qed

lemma toy_locale: "locale_agrees toy_env fs pub"
  by (simp add: locale_agrees_def toy_env_def)

section \<open>Properties\<close>

text \<open>C40. The frame writer's limit: on a socket that takes what it is given, a payload of less than 65536 bytes leaves as
  the very frame \<open>encode_frame\<close> builds, in one \<open>sendall\<close>; a longer one raises \<open>OverflowError\<close> and nothing is sent,
  because the 64-bit length of the protocol is missing.\<close>

theorem send_frame_size_limit:
  assumes "\<not> sk_closed s" and "sk_sends s = []"
  shows "send_frame s payload (opcode_value opcode) =
    (if length payload < 65536 then (Inr (), s\<lparr>sk_out := sk_out s @ [encode_frame payload opcode]\<rparr>)
     else (Inl OverflowError, s))"
  by (rule send_frame_ok [OF assms])

theorem send_frame_size_limit_witness:
  "send_frame (toy_sock []) (replicate 65535 0) (opcode_value TEXT) =
     (Inr (), (toy_sock [])\<lparr>sk_out := [encode_frame (replicate 65535 0) TEXT]\<rparr>) \<and>
   send_frame (toy_sock []) (replicate 65536 0) (opcode_value TEXT) = (Inl OverflowError, toy_sock [])"
  using send_frame_size_limit [of "toy_sock []" "replicate 65535 0" TEXT]
    send_frame_size_limit [of "toy_sock []" "replicate 65536 0" TEXT]
  by (simp add: toy_sock_def)

text \<open>The frame reader: a masked frame is read whatever the pieces its payload comes in, and what follows it stays
  to be read, unless its header is cut: a header that arrives in two pieces makes the reader give up the connection.\<close>

lemma frame_read_in_pieces:
  assumes "\<not> sk_closed s" and "length k = 4" and "length data < 2 ^ 64"
    and "first @ concat segs = unmask k data @ following"
  shows "(\<exists>segs'. recv_frame (s\<lparr>sk_in := Bytes (frame_header 0x80 opcode (length data) @ k @ first) # map Bytes segs @ es\<rparr>) =
      (Inr (Some (opcode_value opcode, data)), s\<lparr>sk_in := map Bytes segs' @ es\<rparr>) \<and> concat segs' = following) \<and>
    fst (recv_frame (s\<lparr>sk_in := Bytes (take 1 (frame_header 0x80 opcode (length data))) #
      Bytes (drop 1 (frame_header 0x80 opcode (length data)) @ k @ first) # map Bytes segs @ es\<rparr>)) = Inr None"
  using recv_frame_segments [OF assms, of opcode es] assms(1)
  by (auto simp: frame_header_def recv_frame_def sock_recv_def)

lemma frame_read_in_pieces_example:
  "\<exists>segs'. recv_frame (toy_sock [Bytes (frame_header 0x80 TEXT 2 @ [1, 2, 3, 4] @ [0x49]), Bytes [0x6b, 7]]) =
     (Inr (Some (opcode_value TEXT, [0x48, 0x69])), toy_sock (map Bytes segs')) \<and> concat segs' = [7]"
proof -
  have m: "unmask [1, 2, 3, 4] [0x48, 0x69] = [0x49, 0x6b]" by (simp add: unmask_def upt_conv_Cons)
  have "\<exists>segs'. recv_frame ((toy_sock [])\<lparr>sk_in := Bytes (frame_header 0x80 TEXT (length [0x48, 0x69 :: byte]) @ [1, 2, 3, 4] @ [0x49]) #
        map Bytes [[0x6b, 7]] @ []\<rparr>) =
      (Inr (Some (opcode_value TEXT, [0x48, 0x69])), (toy_sock [])\<lparr>sk_in := map Bytes segs' @ []\<rparr>) \<and> concat segs' = [7]"
    by (rule frame_read_in_pieces [THEN conjunct1]) (simp_all add: m toy_sock_def)
  then show ?thesis by (simp add: toy_sock_def numeral_2_eq_2)
qed

text \<open>A connection's thread ends: every iteration that goes on has read at least two bytes, so a loop cannot take
  more iterations than half the bytes the peer sends; it leaves the loop or raises, whatever the messages are.\<close>

lemma connection_loop_ends:
  assumes "to_come c < 2 * length (iterations evs)"
  shows "fst (io_loop P E cb evs c) \<noteq> Looping"
  using io_loop_consumes [of P E cb evs c] assms by auto

lemma connection_loop_ends_example:
  "fst (io_loop toy_prims toy_env True [Iterate toy_io, Iterate toy_io] (new_client (toy_sock [Bytes [0x81], Stall, Bytes [3]]) new_manager)) \<noteq> Looping"
  by (rule connection_loop_ends) (simp add: new_client_def toy_sock_def pending_def)

text \<open>C15. The thread dispatches what the asyncio handler dispatches: a connection whose loop reads a list of framed texts
  without an exception has, at its end, the same codec state and has handed the same messages to the message callback, in the same order, as
  \<open>handle_agent_connection\<close> does with these texts and the same sends in between.\<close>

theorem thread_dispatches_as_handler:
  assumes "mc_codec c = Some codec" and "\<not> sk_closed (mc_sock c)" and "\<forall>f \<in> set fs. frame_of f"
    and "sk_in (mc_sock c) = map text_frame fs @ es" and "length fs = length (iterations evs)"
    and "io_loop P E True evs c = (Looping, c')"
  shows "\<exists>s'. session_run P E True (session_events evs (map (fst \<circ> snd) fs))
      \<lparr>ss_agent_id = mc_agent_id c, ss_codec = codec, ss_sent = [], ss_dispatched = mc_dispatched c\<rparr> = (Running, s') \<and>
    mc_dispatched c' = ss_dispatched s' \<and> mc_codec c' = Some (ss_codec s') \<and> sk_in (mc_sock c') = es"
proof -
  have "same_session c \<lparr>ss_agent_id = mc_agent_id c, ss_codec = codec, ss_sent = [], ss_dispatched = mc_dispatched c\<rparr>"
    using assms(1) by (simp add: same_session_def)
  from manual_loop_agrees [OF _ this assms(2,4,3,5), of P E] assms(6) show ?thesis
    by (auto simp: same_session_def)
qed

definition toy_client :: "sock_event list \<Rightarrow> (bytes, bytes) client" where
  "toy_client es = (new_client (toy_sock es) new_manager)\<lparr>mc_codec := Some (toy_codec [1] [2])\<rparr>"

theorem thread_dispatches_as_handler_witness:
  "\<exists>s'. session_run toy_prims toy_env True [TextIn 1000000 2001 (send_inputs toy_io) (lit ''{}'')]
       \<lparr>ss_agent_id = UNKNOWN, ss_codec = toy_codec [1] [2], ss_sent = [], ss_dispatched = []\<rparr> = (Running, s') \<and>
     mc_codec (snd (io_loop toy_prims toy_env True [Iterate (toy_io\<lparr>io_now1 := 1000000\<rparr>)]
       (toy_client [text_frame ([1, 2, 3, 4], lit ''{}'', [0x7b, 0x7d])]))) = Some (ss_codec s')"
proof -
  let ?f = "([1, 2, 3, 4], lit ''{}'', [0x7b, 0x7d]) :: bytes \<times> pystr \<times> bytes"
  let ?d = "toy_io\<lparr>io_now1 := 1000000\<rparr>"
  have fr: "frame_of ?f" by (simp add: frame_of_def lit_def utf8_char_def)
  have sk: "\<not> sk_closed (toy_sock [])" by (simp add: toy_sock_def)
  have r: "recv_frame (mc_sock (toy_client [text_frame ?f])) = (Inr (Some (1, [0x7b, 0x7d])), toy_sock [])"
    using recv_text_frame [OF sk fr, of "[]"] by (simp add: toy_client_def new_client_def toy_sock_def)
  have u: "utf8_decode [0x7b, 0x7d] = Inr (lit ''{}'')"
    by (rule utf8_decode_encode) (simp add: lit_def utf8_char_def)
  have "loads (lit ''{}'') = Inr (JObj [])"
    using loads_dumps_default [of "JObj []"] by (simp add: dumps_default_def lit_def)
  then have dec: "decrypt toy_prims toy_env (toy_codec [1] [2]) 1000000 2001 (lit ''{}'') =
      (Inr (failed (TimestampOutside (JStr []))), toy_codec [1] [2])"
    by (simp add: decrypt_def from_json_def jget_def validate_def within_window_def is_within_window_def toy_codec_def
        new_codec_def)
  have io: "io_loop toy_prims toy_env True [Iterate ?d] (toy_client [text_frame ?f]) =
      (Looping, snd (io_loop toy_prims toy_env True [Iterate ?d] (toy_client [text_frame ?f])))"
    by (simp add: manual_iteration_frame [OF r] u manual_text_def dec toy_io_def)
      (simp add: toy_client_def manual_text_def dec)
  have c: "mc_codec (toy_client es) = Some (toy_codec [1] [2])" "mc_agent_id (toy_client es) = UNKNOWN"
    "mc_dispatched (toy_client es) = []" "\<not> sk_closed (mc_sock (toy_client es))" "sk_in (mc_sock (toy_client es)) = es" for es
    by (simp_all add: toy_client_def new_client_def toy_sock_def)
  have ev: "session_events [Iterate ?d] (map (fst \<circ> snd) [?f]) = [TextIn 1000000 2001 (send_inputs toy_io) (lit ''{}'')]"
    by (simp add: send_inputs_def toy_io_def)
  have "\<forall>f \<in> set [?f]. frame_of f" "sk_in (mc_sock (toy_client [text_frame ?f])) = map text_frame [?f] @ []"
    "length [?f] = length (iterations [Iterate ?d])" using fr c by simp_all
  from thread_dispatches_as_handler [OF c(1,4) this io] show ?thesis
    unfolding ev c by blast
qed

text \<open>A connection that fails before it registers ends with an \<open>UnboundLocalError\<close>: the \<open>finally\<close> block reads
  \<open>loop\<close>, which is assigned only after the handshake. The manager is untouched; the socket has been closed exactly when the
  handler refused the peer itself, and stays open when an exception (a timeout, malformed JSON, a bad key) ended the handshake.\<close>

lemma failed_connection_raises:
  assumes "\<not> sk_closed (mc_sock c)" and "\<not> mc_loop c"
    and "\<nexists>c1 c2 ps. upgrade c = (Inr True, c1) \<and> manual_handshake P E fs priv pub rnd rnd' c1 = (Inr (Some ps), c2)"
  shows "\<exists>r c'. client_body P E fs priv pub has_cb connect_cb loop cid now rnd rnd' evs others c = (r, c') \<and>
    handle_client P E fs priv pub has_cb connect_cb loop cid now rnd rnd' evs others c = (Inl UnboundLocalError, c') \<and>
    mc_manager c' = mc_manager c \<and> mc_scheduled c' = mc_scheduled c \<and> (sk_closed (mc_sock c') \<longleftrightarrow> r = Inr ())"
proof -
  let ?body = "client_body P E fs priv pub has_cb connect_cb loop cid now rnd rnd' evs others c"
  obtain r1 c1 where u: "upgrade c = (r1, c1)" by (cases "upgrade c")
  obtain r2 c2 where h: "manual_handshake P E fs priv pub rnd rnd' c1 = (r2, c2)"
    by (cases "manual_handshake P E fs priv pub rnd rnd' c1")
  note lu = upgrade_local [OF u assms(1)]
  have "local_only c (snd ?body) \<and> (sk_closed (mc_sock (snd ?body)) \<longleftrightarrow> fst ?body = Inr ())"
  proof (cases "r1 = Inr True")
    case True
    then have "\<not> sk_closed (mc_sock c1)" using lu by simp
    note lh = handshake_local [OF h this]
    have "\<nexists>ps. r2 = Inr (Some ps)" using assms(3) u h True by blast
    then show ?thesis using lu lh local_only_trans [of c c1 c2]
      by (cases r2) (auto simp: client_body_def u h True split: option.splits)
  next
    case False
    then show ?thesis using lu by (cases r1) (auto simp: client_body_def u)
  qed
  then show ?thesis
    using assms(2) by (cases ?body) (auto simp: handle_client_def local_only_def)
qed

lemma failed_connection_raises_example:
  "\<exists>c'. handle_client toy_prims toy_env (toy_files [7]) (lit ''priv'') (lit ''pub'') True True (Some Up) 1 0 [3] [] [] id
       (new_client (toy_sock [Stall]) new_manager) = (Inl UnboundLocalError, c') \<and> \<not> sk_closed (mc_sock c')"
proof -
  let ?c = "new_client (toy_sock [Stall]) new_manager :: (bytes, bytes) client"
  have u: "upgrade ?c = (Inl OSError, new_client (toy_sock []) new_manager)"
    by (simp add: upgrade_def on_sock_def sock_recv_def toy_sock_def new_client_def)
  then have "fst (client_body toy_prims toy_env (toy_files [7]) (lit ''priv'') (lit ''pub'') True True (Some Up) 1 0 [3] [] [] id ?c) \<noteq> Inr ()"
    by (simp add: client_body_def)
  then show ?thesis
    using failed_connection_raises [of ?c toy_prims toy_env "toy_files [7]" "lit ''priv''" "lit ''pub''" "[3]" "[]" True True "Some Up" 1 0 "[]" id] u
    by (auto simp: toy_sock_def new_client_def)
qed

text \<open>C24. The thread's handshake is the asyncio handler's, when its first message comes as one masked frame in one segment with no
  NUL character in its text, the sends succeed, and the locale reads the public key file as UTF-8 does (agent\_handler.py opens it
  as UTF-8, manual\_server.py with the locale's encoding): on a message that \<open>_do_handshake\<close> accepts, the thread takes the same id
  and projects, sends the same answer in one frame and holds the same codec, unless the answer does not fit a frame, when it
  raises \<open>OverflowError\<close> and nothing is sent.\<close>

theorem thread_handshake_as_handler:
  assumes "do_handshake P E fs priv pub rnd rnd' True raw = (Inr hk, [ack])"
    and "frame_of (k, raw, data)" and "0 \<notin> set raw"
    and "\<not> sk_closed (mc_sock c)" and "sk_sends (mc_sock c) = []" and "sk_in (mc_sock c) = text_frame (k, raw, data) # es"
    and "locale_agrees E fs pub"
  shows "manual_handshake P E fs priv pub rnd rnd' c =
    (if length ack < 65536 then
       (Inr (Some (hk_projects hk)),
        c\<lparr>mc_agent_id := hk_agent_id hk, mc_codec := Some (hk_codec hk),
          mc_sock := (mc_sock c)\<lparr>sk_in := es, sk_out := sk_out (mc_sock c) @ [encode_frame (map of_nat ack) TEXT]\<rparr>\<rparr>)
     else (Inl OverflowError, c\<lparr>mc_agent_id := hk_agent_id hk, mc_sock := (mc_sock c)\<lparr>sk_in := es\<rparr>\<rparr>))"
  by (rule manual_handshake_ok [OF assms])

theorem thread_handshake_as_handler_witness:
  "\<exists>hk c'. fst (do_handshake toy_prims toy_env (toy_files [7]) (lit ''priv'') (lit ''pub'') [3] [] True toy_raw) = Inr hk \<and>
     hk_agent_id hk = JStr (lit ''a1'') \<and> mc_codec c' = Some (hk_codec hk) \<and>
     manual_handshake toy_prims toy_env (toy_files [7]) (lit ''priv'') (lit ''pub'') [3] []
       (new_client (toy_sock [text_frame ([1, 2, 3, 4], toy_raw, map of_nat toy_raw)]) new_manager) = (Inr (Some (hk_projects hk)), c')"
proof -
  let ?c = "new_client (toy_sock [text_frame ([1, 2, 3, 4], toy_raw, map of_nat toy_raw)]) new_manager :: (bytes, bytes) client"
  obtain hk ack where hs: "do_handshake toy_prims toy_env (toy_files [7]) (lit ''priv'') (lit ''pub'') [3] [] True toy_raw = (Inr hk, [ack])"
    and a: "hk_agent_id hk = JStr (lit ''a1'')" "length ack < 65536" by (rule toy_raw_handshake)
  have "\<not> sk_closed (mc_sock ?c)" "sk_sends (mc_sock ?c) = []"
    "sk_in (mc_sock ?c) = text_frame ([1, 2, 3, 4], toy_raw, map of_nat toy_raw) # []"
    by (simp_all add: new_client_def toy_sock_def)
  from thread_handshake_as_handler [OF hs toy_raw_frame this toy_locale] show ?thesis using hs a by simp
qed

text \<open>C39. A connection that is served while the event loop runs, under a text id that is neither empty nor \<open><unknown>\<close>, registers once and hands
  its removal to the event loop: however its I/O loop ends, the handler itself takes nothing out of the manager; it closes the socket and has scheduled, in this order, the notice of the connection, one removal of its id and the
  notice of its end, the notices only when there is a connect callback. Whenever the event loop runs that removal, after
  and before whatever other coroutines, the id is unregistered, unless one of the later ones registers it again; on a loop that has been
  stopped it never runs (Manual\_Lifecycle).\<close>

theorem served_connection_unregisters:
  assumes "upgrade c = (Inr True, c1)"
    and "manual_handshake P E fs priv pub rnd rnd' c1 = (Inr (Some ps), c2)"
    and "\<not> sk_closed (mc_sock c)" and "mc_scheduled c = []"
    and "mc_agent_id c2 = JStr a" and "a \<noteq> []" and "JStr a \<noteq> UNKNOWN"
    and "add_agent (mc_manager c2) now (JStr a) ps cid = (Inr (), m)"
  shows "\<exists>c'. handle_client P E fs priv pub has_cb connect_cb (Some Up) cid now rnd rnd' evs others c = (Inr (), c') \<and>
    mc_manager c' = others m \<and> sk_closed (mc_sock c') \<and>
    mc_scheduled c' =
      (if connect_cb then [ConnectTask (JStr a) True, RemoveTask (JStr a), ConnectTask (JStr a) False] else [RemoveTask (JStr a)]) \<and>
    (\<forall>before after m' ns. \<not> stopped m' \<and> (\<forall>now' ps' cid'. AddTask now' (JStr a) ps' cid' \<notin> set after) \<longrightarrow>
       get_by_agent (fst (fold do_task (before @ RemoveTask (JStr a) # after) (m', ns))) (JStr a) = Inr None)"
proof -
  let ?c3 = "hand_over (notice_tasks connect_cb (JStr a) True) (c2\<lparr>mc_loop := True, mc_manager := m\<rparr>)"
  let ?c4 = "?c3\<lparr>mc_manager := others m\<rparr>"
  let ?io = "io_loop P E has_cb evs ?c4"
  have "local_only c c1" "\<not> sk_closed (mc_sock c1)" using upgrade_local [OF assms(1,3)] by simp_all
  then have c2: "mc_scheduled c2 = []" using handshake_local [OF assms(2)] assms(4) by (simp add: local_only_def)
  have reg: "manual_register (Some Up) connect_cb cid now ps c2 = (Inr (), ?c3)"
    using assms(5,8) by (simp add: manual_register_def)
  have mgr: "mc_manager ?c3 = m" by (simp add: hand_over_def)
  have body: "snd (client_body P E fs priv pub has_cb connect_cb (Some Up) cid now rnd rnd' evs others c) = snd ?io"
    by (simp add: client_body_def assms(1,2) reg mgr split: prod.split)
  have io: "mc_loop (snd ?io)" "mc_manager (snd ?io) = others m" "mc_agent_id (snd ?io) = JStr a"
    "mc_scheduled (snd ?io) = notice_tasks connect_cb (JStr a) True"
    using served_loop [of ?c4 P E has_cb evs] assms(5) c2 by (simp_all add: served_def hand_over_def)
  obtain r where "client_body P E fs priv pub has_cb connect_cb (Some Up) cid now rnd rnd' evs others c = (r, snd ?io)"
    using body by (metis prod.collapse)
  then have "handle_client P E fs priv pub has_cb connect_cb (Some Up) cid now rnd rnd' evs others c =
      (Inr (), close_conn (hand_over (leave_tasks connect_cb (JStr a)) (snd ?io)))"
    using io(1,3) assms(6,7) by (simp add: handle_client_def py_truthy_def Let_def)
  then show ?thesis
    using io(2,4) removal_unregisters [of _ a]
    by (intro exI [of _ "close_conn (hand_over (leave_tasks connect_cb (JStr a)) (snd ?io))"])
      (simp add: close_conn_def sock_close_def hand_over_def leave_tasks_def notice_tasks_def)
qed

theorem served_connection_unregisters_witness:
  "\<exists>c'. handle_client toy_prims toy_env (toy_files [7]) (lit ''priv'') (lit ''pub'') True True (Some Up) 1 0 [3] [] [Iterate toy_io] id
       (new_client (toy_sock [Bytes toy_request, text_frame ([1, 2, 3, 4], toy_raw, map of_nat toy_raw)]) new_manager) = (Inr (), c') \<and>
     mc_scheduled c' = [ConnectTask (JStr (lit ''a1'')) True, RemoveTask (JStr (lit ''a1'')), ConnectTask (JStr (lit ''a1'')) False] \<and>
     get_by_agent (fst (fold do_task ([] @ RemoveTask (JStr (lit ''a1'')) # []) (mc_manager c', []))) (JStr (lit ''a1'')) = Inr None"
proof -
  let ?f = "text_frame ([1, 2, 3, 4], toy_raw, map of_nat toy_raw)"
  let ?c = "new_client (toy_sock [Bytes toy_request, ?f]) new_manager :: (bytes, bytes) client"
  obtain resp where up: "upgrade ?c = (Inr True, new_client ((toy_sock [?f])\<lparr>sk_out := [resp]\<rparr>) new_manager)"
    using toy_upgrade [of "[?f]" new_manager] by blast
  let ?c1 = "new_client ((toy_sock [?f])\<lparr>sk_out := [resp]\<rparr>) new_manager :: (bytes, bytes) client"
  obtain hk ack where hs: "do_handshake toy_prims toy_env (toy_files [7]) (lit ''priv'') (lit ''pub'') [3] [] True toy_raw = (Inr hk, [ack])"
    and a: "hk_agent_id hk = JStr (lit ''a1'')" "hk_projects hk = JArr []" "length ack < 65536" by (rule toy_raw_handshake)
  have "\<not> sk_closed (mc_sock ?c1)" "sk_sends (mc_sock ?c1) = []" "sk_in (mc_sock ?c1) = ?f # []"
    by (simp_all add: new_client_def toy_sock_def)
  from manual_handshake_ok [OF hs toy_raw_frame this toy_locale] obtain c2 where
    hh: "manual_handshake toy_prims toy_env (toy_files [7]) (lit ''priv'') (lit ''pub'') [3] [] ?c1 = (Inr (Some (JArr [])), c2)"
    and c2: "mc_agent_id c2 = JStr (lit ''a1'')" "mc_manager c2 = new_manager"
    using a by (simp add: new_client_def)
  have "fst (add_agent (mc_manager c2) 0 (JStr (lit ''a1'')) (JArr []) 1) = Inr ()"
    by (simp add: c2 add_agent_def new_manager_def py_list_def)
  then obtain m where m: "add_agent (mc_manager c2) 0 (JStr (lit ''a1'')) (JArr []) 1 = (Inr (), m)" by (metis prod.collapse)
  then have r: "\<not> stopped (id m)" by (auto simp: c2 add_agent_def new_manager_def py_list_def)
  have c: "\<not> sk_closed (mc_sock ?c)" "mc_scheduled ?c = []" by (simp_all add: new_client_def toy_sock_def)
  have a1: "lit ''a1'' \<noteq> []" "JStr (lit ''a1'') \<noteq> UNKNOWN" by (simp_all add: UNKNOWN_def)
  obtain c' where c': "handle_client toy_prims toy_env (toy_files [7]) (lit ''priv'') (lit ''pub'') True True (Some Up) 1 0 [3] []
      [Iterate toy_io] id ?c = (Inr (), c')" "mc_manager c' = id m"
    "mc_scheduled c' = [ConnectTask (JStr (lit ''a1'')) True, RemoveTask (JStr (lit ''a1'')), ConnectTask (JStr (lit ''a1'')) False]"
    and u: "\<forall>before after m' ns. \<not> stopped m' \<and> (\<forall>now' ps' cid'. AddTask now' (JStr (lit ''a1'')) ps' cid' \<notin> set after) \<longrightarrow>
      get_by_agent (fst (fold do_task (before @ RemoveTask (JStr (lit ''a1'')) # after) (m', ns))) (JStr (lit ''a1'')) = Inr None"
    using served_connection_unregisters [OF up hh c c2(1) a1 m, of True True "[Iterate toy_io]" id] by fastforce
  have "get_by_agent (fst (fold do_task ([] @ RemoveTask (JStr (lit ''a1'')) # []) (mc_manager c', []))) (JStr (lit ''a1'')) = Inr None"
    using u r unfolding c'(2) by (metis empty_iff list.set(1))
  with c'(1,3) show ?thesis by blast
qed

end
