(* ===== verification/Manual_Lifecycle.thy ===== *)
theory Manual_Lifecycle
  imports Manual_Server_Facts
begin

text \<open>
  The thread-based server of forwarder/app/ws/manual\_server.py around its connections: \<open>__init__\<close>, \<open>start\<close>, \<open>stop\<close>, the accept loop, and the event
  loop in its own thread, to which the connections' threads hand their coroutines. A step is what one thread does up to the next
  point at which the others matter; what \<open>bind\<close> and \<open>accept\<close> return comes from outside.
\<close>

section \<open>The server object\<close>

text \<open>The accept thread: about to bind, about to read the running flag, blocked in \<open>accept\<close>, or at its end. \<open>mw_loop\<close> is the event loop
  that \<open>self._loop\<close> holds, \<open>mw_tasks\<close> the coroutines it has been handed and has not run; \<open>mw_coming\<close> says whether a loop thread has been
  started that has not assigned its loop yet.\<close>

datatype acceptor = Binding | Checking | InAccept | Ended

record manual =
  mw_host :: pystr
  mw_port :: int
  mw_priv_file :: pystr
  mw_pub_file :: pystr
  mw_message_cb :: bool
  mw_connect_cb :: bool
  mw_running :: bool
  mw_thread :: "acceptor option"
  mw_coming :: bool
  mw_loop :: "event_loop option"
  mw_tasks :: "loop_task list"
  mw_manager :: "nat manager"
  mw_notified :: "(json \<times> bool) list"
  mw_clients :: "nat list"
  mw_stopping :: bool

definition new_manual :: "pystr \<Rightarrow> int \<Rightarrow> pystr \<Rightarrow> pystr \<Rightarrow> nat manager \<Rightarrow> bool \<Rightarrow> bool \<Rightarrow> manual" where
  "new_manual host port priv pub manager message_cb connect_cb =
     \<lparr>mw_host = host, mw_port = port, mw_priv_file = priv, mw_pub_file = pub, mw_message_cb = message_cb,
      mw_connect_cb = connect_cb, mw_running = False, mw_thread = None, mw_coming = False, mw_loop = None, mw_tasks = [],
      mw_manager = manager, mw_notified = [], mw_clients = [], mw_stopping = False\<rparr>"

text \<open>\<open>start\<close>: the flag and two threads; it does not wait for either.\<close>

definition manual_start :: "manual \<Rightarrow> manual" where
  "manual_start sv = sv\<lparr>mw_running := True, mw_coming := True, mw_thread := Some Binding\<rparr>"

text \<open>\<open>run_loop\<close> assigns a new loop to \<open>self._loop\<close> and runs it; what waits on an old one is never run.\<close>

definition loop_runs :: "manual \<Rightarrow> manual" where
  "loop_runs sv = sv\<lparr>mw_coming := False, mw_loop := Some Up, mw_tasks := []\<rparr>"

text \<open>\<open>if self._loop\<close>.\<close>

definition has_loop :: "manual \<Rightarrow> bool" where
  "has_loop sv \<longleftrightarrow> mw_loop sv \<noteq> None"

text \<open>\<open>stop\<close>: first the flag and a connection of its own to wake the acceptor, which reaches a listening accept thread as one of the
  connections \<open>accept\<close> may return; then the event loop, if it is there (\<open>stop_loop\<close> is the moment at which it stops). The
  joins wait at most five seconds each and change nothing.\<close>

definition stop_flag :: "manual \<Rightarrow> manual" where
  "stop_flag sv = sv\<lparr>mw_running := False, mw_stopping := True\<rparr>"

definition stop_loop :: "manual \<Rightarrow> manual" where
  "stop_loop sv = sv\<lparr>mw_loop := (if has_loop sv then Some Stopped else None), mw_stopping := False\<rparr>"

definition manual_stop :: "manual \<Rightarrow> manual" where
  "manual_stop sv = stop_loop (stop_flag sv)"

section \<open>The accept loop\<close>

definition accept_bind :: "unit res \<Rightarrow> manual \<Rightarrow> manual" where
  "accept_bind bound sv = sv\<lparr>mw_thread := Some (case bound of Inl _ \<Rightarrow> Ended | Inr _ \<Rightarrow> Checking)\<rparr>"

definition accept_check :: "manual \<Rightarrow> manual" where
  "accept_check sv = sv\<lparr>mw_thread := Some (if mw_running sv then InAccept else Ended)\<rparr>"

text \<open>\<open>accept\<close> returns a connection, times out after a second or raises; a connection gets a thread of its own, whatever the
  flag says by then.\<close>

datatype accepted = Connection nat | TimedOut | AcceptFailed

definition accept_return :: "accepted \<Rightarrow> manual \<Rightarrow> manual" where
  "accept_return a sv =
     (case a of
        Connection cid \<Rightarrow> sv\<lparr>mw_clients := mw_clients sv @ [cid], mw_thread := Some Checking\<rparr>
      | TimedOut \<Rightarrow> sv\<lparr>mw_thread := Some Checking\<rparr>
      | AcceptFailed \<Rightarrow> sv\<lparr>mw_thread := Some Ended\<rparr>)"

section \<open>The event loop\<close>

definition schedule :: "loop_task \<Rightarrow> manual \<Rightarrow> manual" where
  "schedule t sv = sv\<lparr>mw_tasks := mw_tasks sv @ [t]\<rparr>"

text \<open>A connection's thread hands over its registration when it finds a loop, and its end when it found one then.\<close>

definition client_registers :: "nat \<Rightarrow> int \<Rightarrow> json \<Rightarrow> json \<Rightarrow> manual \<Rightarrow> manual" where
  "client_registers cid now agent_id projects sv =
     (if has_loop sv then schedule (AddTask now agent_id projects cid) sv else sv)"

definition client_notifies :: "json \<Rightarrow> manual \<Rightarrow> manual" where
  "client_notifies agent_id sv = (if has_loop sv \<and> mw_connect_cb sv then schedule (ConnectTask agent_id True) sv else sv)"

definition client_leaves :: "py_env \<Rightarrow> bool \<Rightarrow> json \<Rightarrow> manual \<Rightarrow> manual" where
  "client_leaves E found_loop agent_id sv =
     (if found_loop \<and> py_truthy E agent_id \<and> agent_id \<noteq> UNKNOWN then
        (let sv1 = schedule (RemoveTask agent_id) sv
         in if mw_connect_cb sv1 then schedule (ConnectTask agent_id False) sv1 else sv1)
      else sv)"

text \<open>What a coroutine does when the loop gets to it.\<close>

definition run_task :: "loop_task \<Rightarrow> manual \<Rightarrow> manual" where
  "run_task t sv =
     (let (m, notified) = do_task t (mw_manager sv, mw_notified sv)
      in sv\<lparr>mw_manager := m, mw_notified := notified\<rparr>)"

section \<open>The threads\<close>

text \<open>Steps of the threads, and of a call of \<open>stop\<close>, of a server that has been started; a running loop may take any coroutine it has.\<close>

inductive thread_step :: "py_env \<Rightarrow> manual \<Rightarrow> manual \<Rightarrow> bool" for E where
  thread_loop: "mw_coming sv \<Longrightarrow> thread_step E sv (loop_runs sv)"
| thread_binds: "mw_thread sv = Some Binding \<Longrightarrow> thread_step E sv (accept_bind r sv)"
| thread_checks: "mw_thread sv = Some Checking \<Longrightarrow> thread_step E sv (accept_check sv)"
| thread_accepts: "mw_thread sv = Some InAccept \<Longrightarrow> thread_step E sv (accept_return a sv)"
| thread_task: "mw_loop sv = Some Up \<Longrightarrow> mw_tasks sv = before @ t # after \<Longrightarrow>
    thread_step E sv (run_task t (sv\<lparr>mw_tasks := before @ after\<rparr>))"
| thread_registers: "cid \<in> set (mw_clients sv) \<Longrightarrow> thread_step E sv (client_registers cid now a ps sv)"
| thread_notifies: "thread_step E sv (client_notifies a sv)"
| thread_leaves: "thread_step E sv (client_leaves E found_loop a sv)"
| thread_stop: "thread_step E sv (stop_flag sv)"
| thread_stops_loop: "mw_stopping sv \<Longrightarrow> thread_step E sv (stop_loop sv)"

inductive_cases thread_stepE: "thread_step E sv sv'"

definition thread_run :: "py_env \<Rightarrow> manual \<Rightarrow> manual \<Rightarrow> bool" where
  "thread_run E = (thread_step E)\<^sup>*\<^sup>*"

section \<open>Lemmas\<close>

lemmas lifecycle_defs = loop_runs_def accept_bind_def accept_check_def accept_return_def run_task_def do_task_def client_registers_def
  client_notifies_def client_leaves_def schedule_def stop_flag_def stop_loop_def has_loop_def Let_def

text \<open>The connections that may still come once the flag is cleared.\<close>

definition room :: "manual \<Rightarrow> nat" where
  "room sv = (if mw_thread sv = Some InAccept then 1 else 0)"

text \<open>A turn of the accept thread, with what \<open>bind\<close> and \<open>accept\<close> return.\<close>

definition accept_turn :: "unit res \<times> accepted \<Rightarrow> manual \<Rightarrow> manual" where
  "accept_turn outcome sv =
     (case mw_thread sv of
        Some Binding \<Rightarrow> accept_bind (fst outcome) sv
      | Some Checking \<Rightarrow> accept_check sv
      | Some InAccept \<Rightarrow> accept_return (snd outcome) sv
      | _ \<Rightarrow> sv)"

lemma step_winds_down:
  assumes "thread_step E sv sv'" and "\<not> mw_running sv"
  shows "\<not> mw_running sv' \<and> (\<exists>cids. mw_clients sv' = mw_clients sv @ cids \<and> length cids + room sv' \<le> room sv)"
  using assms
  by (cases rule: thread_step.cases)
    (auto simp: lifecycle_defs room_def split: sum.splits accepted.splits loop_task.splits)

lemma run_winds_down:
  assumes "thread_run E sv sv'" and "\<not> mw_running sv"
  shows "\<not> mw_running sv' \<and> (\<exists>cids. mw_clients sv' = mw_clients sv @ cids \<and> length cids + room sv' \<le> room sv)"
  using assms unfolding thread_run_def
proof (induction rule: rtranclp_induct)
  case (step y z)
  then obtain cids where c: "\<not> mw_running y" "mw_clients y = mw_clients sv @ cids" "length cids + room y \<le> room sv" by blast
  from step_winds_down [OF step.hyps(2) c(1)] c(2,3) show ?case by force
qed simp

lemma stopped_step:
  assumes "thread_step E sv sv'" and "mw_loop sv = Some Stopped" and "\<not> mw_coming sv"
  shows "mw_loop sv' = Some Stopped \<and> \<not> mw_coming sv' \<and> mw_manager sv' = mw_manager sv \<and> mw_notified sv' = mw_notified sv \<and>
    (\<exists>ts. mw_tasks sv' = mw_tasks sv @ ts)"
  using assms
  by (cases rule: thread_step.cases)
    (auto simp: lifecycle_defs split: sum.splits accepted.splits)

lemma stopped_run:
  assumes "thread_run E sv sv'" and "mw_loop sv = Some Stopped" and "\<not> mw_coming sv"
  shows "mw_loop sv' = Some Stopped \<and> \<not> mw_coming sv' \<and> mw_manager sv' = mw_manager sv \<and> mw_notified sv' = mw_notified sv \<and>
    (\<exists>ts. mw_tasks sv' = mw_tasks sv @ ts)"
  using assms unfolding thread_run_def
proof (induction rule: rtranclp_induct)
  case (step y z)
  then have y: "mw_loop y = Some Stopped" "\<not> mw_coming y" "mw_manager y = mw_manager sv" "mw_notified y = mw_notified sv"
    "\<exists>ts. mw_tasks y = mw_tasks sv @ ts" by blast+
  from stopped_step [OF step.hyps(2) y(1,2)] y(3-5) show ?case by fastforce
qed simp

text \<open>The connection that \<open>stop\<close> makes to wake the acceptor sends nothing: when a thread is started for it, that thread ends with the
  \<open>UnboundLocalError\<close> of the \<open>finally\<close> block.\<close>

lemma wake_up_connection_raises:
  "\<exists>c'. handle_client P E fs priv pub has_cb connect_cb loop cid now rnd rnd' evs others
      (new_client \<lparr>sk_in = [], sk_sends = [], sk_out = [], sk_closed = False\<rparr> m) = (Inl UnboundLocalError, c') \<and>
    sk_closed (mc_sock c') \<and> mc_manager c' = m \<and> mc_scheduled c' = []"
proof -
  have "parse_http_upgrade [] = None" by (simp add: parse_http_upgrade_def latin1_decode_def Let_def)
  then show ?thesis
    by (simp add: handle_client_def client_body_def upgrade_def on_sock_def sock_recv_def new_client_def close_conn_def sock_close_def)
qed

text \<open>The server's steps are the handler's: the coroutine of a registration does to the manager what \<open>manual_register\<close> waits for on a running
  loop, and what a connection's end schedules is what \<open>handle_client\<close> hands over.\<close>

lemma add_task_registers:
  assumes "mc_manager c = mw_manager sv" and "mc_agent_id c = a"
  shows "mw_manager (run_task (AddTask now a ps cid) sv) = mc_manager (snd (manual_register (Some Up) connect_cb cid now ps c))"
  using assms by (simp add: run_task_def do_task_def manual_register_def hand_over_def Let_def split: prod.split sum.split)

lemma client_leaves_hands_over:
  assumes "client_body P E fs priv pub has_cb (mw_connect_cb sv) loop cid now rnd rnd' evs others c = (r, c')" and "mc_loop c'"
    and "mc_agent_id c' = a" and "mc_scheduled c' = mw_tasks sv"
  shows "mw_tasks (client_leaves E (loop \<noteq> None) a sv) =
    mc_scheduled (snd (handle_client P E fs priv pub has_cb (mw_connect_cb sv) loop cid now rnd rnd' evs others c))"
  using assms by (simp add: client_leaves_def schedule_def handle_client_def close_conn_def hand_over_def leave_tasks_def notice_tasks_def Let_def)

section \<open>Properties\<close>

text \<open>C31. A stopped server winds down: once the running flag is cleared, whatever the threads and the network do, it stays cleared, at most one more
  connection gets a thread, and that only if \<open>accept\<close> was already waiting (it may be the connection that \<open>stop\<close> itself makes); and the
  accept thread is at its end after two more turns, whatever \<open>bind\<close> and \<open>accept\<close> return.\<close>

theorem stopped_server_winds_down:
  assumes "thread_run E sv sv'" and "\<not> mw_running sv"
  shows "\<not> mw_running sv' \<and>
    (\<exists>cids. mw_clients sv' = mw_clients sv @ cids \<and> length cids \<le> (if mw_thread sv = Some InAccept then 1 else 0)) \<and>
    mw_thread (accept_turn y (accept_turn x sv')) \<in> {None, Some Ended}"
proof -
  have r: "\<not> mw_running sv'" "\<exists>cids. mw_clients sv' = mw_clients sv @ cids \<and> length cids + room sv' \<le> room sv"
    using run_winds_down [OF assms] by blast+
  have "mw_thread (accept_turn y (accept_turn x sv')) \<in> {None, Some Ended}"
    using r(1)
    by (cases "mw_thread sv'" rule: option.exhaust [case_product acceptor.exhaust [of "the (mw_thread sv')"]])
      (auto simp: accept_turn_def accept_bind_def accept_check_def accept_return_def split: sum.split accepted.split)
  then show ?thesis using r by (auto simp: room_def split: if_splits)
qed

text \<open>A server with one connection, whose agent has registered; then \<open>stop\<close> in full, and the end of the connection.\<close>

definition toy_manual :: "event_loop \<Rightarrow> bool \<Rightarrow> acceptor \<Rightarrow> manual" where
  "toy_manual l run th =
     \<lparr>mw_host = lit ''h'', mw_port = 1, mw_priv_file = lit ''priv'', mw_pub_file = lit ''pub'', mw_message_cb = True,
      mw_connect_cb = False, mw_running = run, mw_thread = Some th, mw_coming = False, mw_loop = Some l, mw_tasks = [],
      mw_manager = snd (add_agent new_manager 0 (JStr (lit ''a1'')) (JArr []) 7), mw_notified = [], mw_clients = [7], mw_stopping = False\<rparr>"

lemma toy_manual_reached:
  "thread_run E (manual_start (new_manual (lit ''h'') 1 (lit ''priv'') (lit ''pub'') new_manager True False)) (toy_manual Up True Checking)"
proof -
  let ?s1 = "manual_start (new_manual (lit ''h'') 1 (lit ''priv'') (lit ''pub'') new_manager True False)"
  let ?s2 = "loop_runs ?s1"
  let ?s3 = "accept_bind (Inr ()) ?s2"
  let ?s4 = "accept_check ?s3"
  let ?s5 = "accept_return (Connection 7) ?s4"
  let ?s6 = "client_registers 7 0 (JStr (lit ''a1'')) (JArr []) ?s5"
  note defs = manual_start_def new_manual_def lifecycle_defs
  have "thread_step E ?s1 ?s2" by (rule thread_loop) (simp add: defs)
  moreover have "thread_step E ?s2 ?s3" by (rule thread_binds) (simp add: defs)
  moreover have "thread_step E ?s3 ?s4" by (rule thread_checks) (simp add: defs)
  moreover have "thread_step E ?s4 ?s5" by (rule thread_accepts) (simp add: defs)
  moreover have "thread_step E ?s5 ?s6" by (rule thread_registers) (simp add: defs)
  moreover have "thread_step E ?s6 (run_task (AddTask 0 (JStr (lit ''a1'')) (JArr []) 7) (?s6\<lparr>mw_tasks := [] @ []\<rparr>))"
    by (rule thread_task) (simp_all add: defs)
  moreover have "run_task (AddTask 0 (JStr (lit ''a1'')) (JArr []) 7) (?s6\<lparr>mw_tasks := [] @ []\<rparr>) = toy_manual Up True Checking"
    by (simp add: defs toy_manual_def)
  ultimately show ?thesis unfolding thread_run_def by simp
qed

theorem stopped_server_winds_down_witness:
  "\<exists>sv. thread_run toy_env (stop_flag (toy_manual Up True InAccept)) sv \<and> mw_clients sv = [7, 8] \<and>
     mw_thread (accept_turn (Inr (), TimedOut) (accept_turn (Inr (), TimedOut) sv)) \<in> {None, Some Ended}"
proof -
  let ?sv = "stop_flag (toy_manual Up True InAccept)"
  have "thread_step toy_env ?sv (accept_return (Connection 8) ?sv)" by (rule thread_accepts) (simp add: stop_flag_def toy_manual_def)
  then have r: "thread_run toy_env ?sv (accept_return (Connection 8) ?sv)" unfolding thread_run_def by simp
  have "\<not> mw_running ?sv" by (simp add: stop_flag_def)
  from stopped_server_winds_down [OF r this] r show ?thesis
    by (intro exI [of _ "accept_return (Connection 8) ?sv"]) (simp add: accept_return_def stop_flag_def toy_manual_def)
qed

text \<open>C30. A stop strands the registered agents: once \<open>stop\<close> has stopped the event loop, nothing that the threads of the server do changes the
  manager or calls the connect callback; the removals that ending connections schedule wait forever, and every agent that was registered stays registered.\<close>

theorem stop_strands_agents:
  assumes "thread_run E (stop_loop sv) sv'" and "has_loop sv" and "\<not> mw_coming sv"
  shows "mw_manager sv' = mw_manager sv \<and> mw_notified sv' = mw_notified sv \<and> (\<exists>ts. mw_tasks sv' = mw_tasks sv @ ts)"
proof -
  have "mw_loop (stop_loop sv) = Some Stopped" "\<not> mw_coming (stop_loop sv)" using assms(2,3) by (simp_all add: stop_loop_def)
  from stopped_run [OF assms(1) this] show ?thesis by (simp add: stop_loop_def)
qed

theorem stop_strands_agents_witness:
  "\<exists>sv. thread_run toy_env (manual_stop (toy_manual Up True Checking)) sv \<and> mw_tasks sv = [RemoveTask (JStr (lit ''a1''))] \<and>
     get_by_agent (mw_manager sv) (JStr (lit ''a1'')) \<noteq> Inr None"
proof -
  let ?sv = "stop_flag (toy_manual Up True Checking)"
  let ?fin = "client_leaves toy_env True (JStr (lit ''a1'')) (stop_loop ?sv)"
  have "thread_step toy_env (stop_loop ?sv) ?fin" by (rule thread_leaves)
  then have r: "thread_run toy_env (stop_loop ?sv) ?fin" unfolding thread_run_def by simp
  have "mw_manager ?fin = mw_manager ?sv"
    using stop_strands_agents [OF r] by (simp add: has_loop_def stop_flag_def toy_manual_def)
  moreover have "get_by_agent (mw_manager ?sv) (JStr (lit ''a1'')) \<noteq> Inr None"
    by (simp add: stop_flag_def toy_manual_def get_by_agent_def add_agent_def py_list_def new_manager_def)
  moreover have "mw_tasks ?fin = [RemoveTask (JStr (lit ''a1''))]"
    by (simp add: lifecycle_defs toy_manual_def py_truthy_def UNKNOWN_def)
  ultimately show ?thesis using r by (intro exI [of _ ?fin]) (simp add: manual_stop_def)
qed

end
