(* ===== verification/Busy_Server.thy ===== *)
theory Busy_Server
  imports Forwarder_Server
begin

text \<open>
  The server of ws/server.py with the life of a connection (\<open>handle_agent_connection\<close> of ws/agent\_handler.py) divided where it really waits.
  After the handshake it awaits the connect callback, and only then registers; after its I/O loop it cancels the heartbeat task and
  awaits its end, and only then unregisters. Meanwhile other connections come, go and send. The methods of the manager hold their
  lock over no await, so nothing comes between a lookup and the call of the send callback it found: sends stay one step.
  The lemmas: the runs of Forwarder\_Server are among its runs; a registered callback belongs to a connection of its agent; an agent that has its id for itself stays reachable.
\<close>

section \<open>State\<close>

text \<open>\<open>bs_joining\<close>: connections in their connect callback, with what the handshake gave and the texts it sent. \<open>bs_leaving\<close>: connections
  whose loop has ended and that have not unregistered; their send callback still works while the socket takes the text.\<close>

record ('sk, 'pk) busy_server =
  bs_server :: "('sk, 'pk) server"
  bs_joining :: "(nat, ('sk, 'pk) handshake \<times> pystr list) dict"
  bs_leaving :: "(nat, ('sk, 'pk) session) dict"

definition idle_server :: "('sk, 'pk) server \<Rightarrow> ('sk, 'pk) busy_server" where
  "idle_server sv = \<lparr>bs_server = sv, bs_joining = [], bs_leaving = []\<rparr>"

text \<open>The connection with number \<open>cid\<close> behind a registered send callback.\<close>

definition connection :: "('sk, 'pk) busy_server \<Rightarrow> nat \<Rightarrow> ('sk, 'pk) session option" where
  "connection bs cid =
     (case map_of (sv_sessions (bs_server bs)) cid of Some s \<Rightarrow> Some s | None \<Rightarrow> map_of (bs_leaving bs) cid)"

section \<open>The life of a connection, in pieces\<close>

text \<open>The handshake, up to the call of the connect callback.\<close>

definition accept_connection ::
    "('sk, 'pk) prims \<Rightarrow> py_env \<Rightarrow> files \<Rightarrow> pystr \<Rightarrow> pystr \<Rightarrow> nat \<Rightarrow> bytes \<Rightarrow> bytes \<Rightarrow> bool \<Rightarrow> pystr \<Rightarrow>
     ('sk, 'pk) busy_server \<Rightarrow> ('sk, 'pk) busy_server" where
  "accept_connection P E fs priv pub cid rnd rnd' send_ok raw bs =
     (let sv = bs_server bs
      in case do_handshake P E fs priv pub rnd rnd' send_ok raw of
           (Inl e, out) \<Rightarrow> bs\<lparr>bs_server := sv\<lparr>sv_refused := sv_refused sv @ out\<rparr>\<rparr>
         | (Inr hk, out) \<Rightarrow>
             bs\<lparr>bs_server := sv\<lparr>sv_notices := sv_notices sv @ [(hk_agent_id hk, True)]\<rparr>,
                bs_joining := AList.update cid (hk, out) (bs_joining bs)\<rparr>)"

text \<open>From the return of the connect callback to the start of the I/O loop. An exception of \<open>add_agent\<close> leads straight to the
  \<open>finally\<close> block: there is no heartbeat task yet.\<close>

definition register_connection :: "py_env \<Rightarrow> int \<Rightarrow> nat \<Rightarrow> ('sk, 'pk) busy_server \<Rightarrow> ('sk, 'pk) busy_server" where
  "register_connection E now cid bs =
     (case map_of (bs_joining bs) cid of
        None \<Rightarrow> bs
      | Some (hk, out) \<Rightarrow>
          (let sv = bs_server bs;
               (r, m) = add_agent (sv_manager sv) now (hk_agent_id hk) (hk_projects hk) cid;
               sv1 = sv\<lparr>sv_manager := m\<rparr>;
               sv2 = (case r of
                        Inl e \<Rightarrow> unregister E (hk_agent_id hk) sv1
                      | Inr _ \<Rightarrow>
                          sv1\<lparr>sv_sessions := AList.update cid
                                \<lparr>ss_agent_id = hk_agent_id hk, ss_codec = hk_codec hk, ss_sent = out, ss_dispatched = []\<rparr>
                                (sv_sessions sv1)\<rparr>)
           in bs\<lparr>bs_server := sv2, bs_joining := AList.delete cid (bs_joining bs)\<rparr>))"

text \<open>One event of the loop; when the loop ends, the connection awaits its heartbeat task.\<close>

definition connection_event ::
    "('sk, 'pk) prims \<Rightarrow> py_env \<Rightarrow> bool \<Rightarrow> nat \<Rightarrow> session_event \<Rightarrow> ('sk, 'pk) busy_server \<Rightarrow> ('sk, 'pk) busy_server" where
  "connection_event P E has_cb cid ev bs =
     (let sv = bs_server bs
      in case map_of (sv_sessions sv) cid of
           None \<Rightarrow> bs
         | Some s \<Rightarrow>
             (case session_step P E has_cb ev s of
                (Running, s') \<Rightarrow> bs\<lparr>bs_server := sv\<lparr>sv_sessions := AList.update cid s' (sv_sessions sv)\<rparr>\<rparr>
              | (_, s') \<Rightarrow>
                  bs\<lparr>bs_server := sv\<lparr>sv_sessions := AList.delete cid (sv_sessions sv)\<rparr>,
                     bs_leaving := AList.update cid s' (bs_leaving bs)\<rparr>))"

text \<open>The \<open>finally\<close> block of the handler, by the id of the agent.\<close>

definition leave_connection :: "py_env \<Rightarrow> nat \<Rightarrow> ('sk, 'pk) busy_server \<Rightarrow> ('sk, 'pk) busy_server" where
  "leave_connection E cid bs =
     (case map_of (bs_leaving bs) cid of
        None \<Rightarrow> bs
      | Some s \<Rightarrow>
          bs\<lparr>bs_server := unregister E (ss_agent_id s) (bs_server bs), bs_leaving := AList.delete cid (bs_leaving bs)\<rparr>)"

section \<open>Sends\<close>

definition call_connection ::
    "('sk, 'pk) prims \<Rightarrow> py_env \<Rightarrow> send_draws \<Rightarrow> nat \<Rightarrow> MessageType \<Rightarrow> pystr \<Rightarrow> ('sk, 'pk) busy_server \<Rightarrow>
     bool res \<times> ('sk, 'pk) busy_server" where
  "call_connection P E d cid ty m bs =
     (case map_of (bs_leaving bs) cid of
        Some s \<Rightarrow>
          (let (ok, s') = send_encrypted P E d ty m s
           in (Inr ok, bs\<lparr>bs_leaving := AList.update cid s' (bs_leaving bs)\<rparr>))
      | None \<Rightarrow> (let (r, sv) = call_back P E d cid ty m (bs_server bs) in (r, bs\<lparr>bs_server := sv\<rparr>)))"

definition busy_send_to_agent ::
    "('sk, 'pk) prims \<Rightarrow> py_env \<Rightarrow> send_draws \<Rightarrow> json \<Rightarrow> MessageType \<Rightarrow> pystr \<Rightarrow> ('sk, 'pk) busy_server \<Rightarrow>
     bool res \<times> ('sk, 'pk) busy_server" where
  "busy_send_to_agent P E d agent_id ty payload bs =
     send_to_agent (call_connection P E d) (sv_manager (bs_server bs)) agent_id ty payload bs"

definition busy_send_to_project ::
    "('sk, 'pk) prims \<Rightarrow> py_env \<Rightarrow> send_draws \<Rightarrow> json \<Rightarrow> MessageType \<Rightarrow> pystr \<Rightarrow> ('sk, 'pk) busy_server \<Rightarrow>
     bool res \<times> ('sk, 'pk) busy_server" where
  "busy_send_to_project P E d project ty payload bs =
     send_to_project (call_connection P E d) (sv_manager (bs_server bs)) project ty payload bs"

definition busy_trigger_build ::
    "('sk, 'pk) prims \<Rightarrow> py_env \<Rightarrow> send_draws \<Rightarrow> pystr \<Rightarrow> json \<Rightarrow> ('sk, 'pk) busy_server \<Rightarrow>
     http \<times> ('sk, 'pk) busy_server" where
  "busy_trigger_build P E d project payload bs =
     (let (r, bs') = busy_send_to_project P E d (JStr project) BUILD_TRIGGER (dumps_default payload) bs
      in (build_answer project r, bs'))"

section \<open>The machine\<close>

definition fresh_connection :: "nat \<Rightarrow> ('sk, 'pk) busy_server \<Rightarrow> bool" where
  "fresh_connection cid bs \<longleftrightarrow> connection bs cid = None \<and> map_of (bs_joining bs) cid = None"

inductive connection_step ::
    "('sk, 'pk) prims \<Rightarrow> py_env \<Rightarrow> files \<Rightarrow> pystr \<Rightarrow> pystr \<Rightarrow> bool \<Rightarrow> ('sk, 'pk) busy_server \<Rightarrow> ('sk, 'pk) busy_server \<Rightarrow> bool"
  for P E fs priv pub has_cb where
  conn_accept: "fresh_connection cid bs \<Longrightarrow>
    connection_step P E fs priv pub has_cb bs (accept_connection P E fs priv pub cid rnd rnd' send_ok raw bs)"
| conn_register: "connection_step P E fs priv pub has_cb bs (register_connection E now cid bs)"
| conn_event: "connection_step P E fs priv pub has_cb bs (connection_event P E has_cb cid ev bs)"
| conn_leave: "connection_step P E fs priv pub has_cb bs (leave_connection E cid bs)"
| conn_agent_send: "connection_step P E fs priv pub has_cb bs (snd (busy_send_to_agent P E d agent_id ty payload bs))"
| conn_project_send: "connection_step P E fs priv pub has_cb bs (snd (busy_send_to_project P E d project ty payload bs))"
| conn_trigger: "connection_step P E fs priv pub has_cb bs (snd (busy_trigger_build P E d p payload bs))"
| conn_shutdown: "connection_step P E fs priv pub has_cb bs (bs\<lparr>bs_server := shutdown (bs_server bs)\<rparr>)"

definition connections_run ::
    "('sk, 'pk) prims \<Rightarrow> py_env \<Rightarrow> files \<Rightarrow> pystr \<Rightarrow> pystr \<Rightarrow> bool \<Rightarrow> ('sk, 'pk) busy_server \<Rightarrow> ('sk, 'pk) busy_server \<Rightarrow> bool" where
  "connections_run P E fs priv pub has_cb = (connection_step P E fs priv pub has_cb)\<^sup>*\<^sup>*"

section \<open>The undivided server is among its runs\<close>

lemma idle_server_sel [simp]:
  "bs_server (idle_server sv) = sv" "bs_joining (idle_server sv) = []" "bs_leaving (idle_server sv) = []"
  "(idle_server sv)\<lparr>bs_server := sv'\<rparr> = idle_server sv'"
  by (simp_all add: idle_server_def)

lemma connect_divided:
  assumes "map_of (bs_joining bs) cid = None"
  shows "register_connection E now cid (accept_connection P E fs priv pub cid rnd rnd' send_ok raw bs) =
    bs\<lparr>bs_server := connect P E fs priv pub cid now rnd rnd' send_ok raw (bs_server bs)\<rparr>"
proof -
  have d: "AList.delete cid (AList.update cid v (bs_joining bs)) = bs_joining bs" for v
    using assms by (simp add: delete_update_same map_of_eq_None_iff)
  show ?thesis
    by (cases "do_handshake P E fs priv pub rnd rnd' send_ok raw"; cases "fst (do_handshake P E fs priv pub rnd rnd' send_ok raw)")
      (simp_all add: connect_def register_connection_def accept_connection_def Let_def assms d split: sum.split prod.split)
qed

lemma session_event_divided:
  "idle_server (session_event_step P E has_cb cid ev sv) =
    leave_connection E cid (connection_event P E has_cb cid ev (idle_server sv))"
proof (cases "map_of (sv_sessions sv) cid")
  case (Some s)
  obtain r s' where r: "session_step P E has_cb ev s = (r, s')" by (cases "session_step P E has_cb ev s")
  have a: "ss_agent_id s' = ss_agent_id s" using session_step_agent [of P E has_cb ev s] by (simp add: r)
  show ?thesis
    by (cases r) (simp_all add: session_event_step_def connection_event_def leave_connection_def Some r a idle_server_def)
qed (simp add: session_event_step_def connection_event_def leave_connection_def)

lemma call_connection_idle:
  "call_connection P E d cid ty m (idle_server sv) = map_prod id idle_server (call_back P E d cid ty m sv)"
  by (simp add: call_connection_def split: prod.split)

lemma sends_idle:
  "busy_send_to_agent P E d a ty payload (idle_server sv) = map_prod id idle_server (server_send_to_agent P E d a ty payload sv)"
  "busy_send_to_project P E d a ty payload (idle_server sv) = map_prod id idle_server (server_send_to_project P E d a ty payload sv)"
  by (simp_all add: busy_send_to_agent_def busy_send_to_project_def server_send_to_agent_def server_send_to_project_def
      send_to_agent_def send_to_project_def call_connection_idle split: sum.split option.split)

lemma trigger_idle:
  "busy_trigger_build P E d p payload (idle_server sv) = map_prod id idle_server (trigger_build_api P E d p payload sv)"
  by (simp add: busy_trigger_build_def trigger_build_api_def sends_idle split: prod.split)

lemma server_step_divided:
  assumes "server_step P E fs priv pub has_cb sv sv'"
  shows "connections_run P E fs priv pub has_cb (idle_server sv) (idle_server sv')"
  using assms
proof (cases rule: server_step.cases)
  case (step_connect cid now rnd rnd' send_ok raw)
  have e: "idle_server sv' = register_connection E now cid (accept_connection P E fs priv pub cid rnd rnd' send_ok raw (idle_server sv))"
    by (simp add: connect_divided step_connect(1))
  have "fresh_connection cid (idle_server sv)"
    using step_connect(2) by (simp add: fresh_connection_def connection_def)
  from conn_accept [OF this] conn_register show ?thesis
    unfolding e connections_run_def
    by (rule rtranclp.rtrancl_into_rtrancl [OF r_into_rtranclp])
next
  case (step_session cid ev)
  from conn_event conn_leave show ?thesis
    unfolding step_session session_event_divided connections_run_def
    by (rule rtranclp.rtrancl_into_rtrancl [OF r_into_rtranclp])
next
  case (step_agent_send d agent_id ty payload)
  then show ?thesis
    using conn_agent_send [of P E fs priv pub has_cb "idle_server sv" d agent_id ty payload]
    by (simp add: connections_run_def sends_idle r_into_rtranclp)
next
  case (step_project_send d project ty payload)
  then show ?thesis
    using conn_project_send [of P E fs priv pub has_cb "idle_server sv" d project ty payload]
    by (simp add: connections_run_def sends_idle r_into_rtranclp)
next
  case (step_trigger d p payload)
  then show ?thesis
    using conn_trigger [of P E fs priv pub has_cb "idle_server sv" d p payload]
    by (simp add: connections_run_def trigger_idle r_into_rtranclp)
next
  case step_shutdown
  then show ?thesis
    using conn_shutdown [of P E fs priv pub has_cb "idle_server sv"]
    by (simp add: connections_run_def idle_server_def r_into_rtranclp)
qed

lemma server_reachable_divided:
  "server_reachable P E fs priv pub has_cb sv \<Longrightarrow>
    connections_run P E fs priv pub has_cb (idle_server new_server) (idle_server sv)"
proof (induction rule: server_reachable.induct)
  case (reach_next sv sv')
  then show ?case using server_step_divided [OF reach_next.hyps(2)] unfolding connections_run_def by (metis rtranclp_trans)
qed (simp add: connections_run_def)

section \<open>The invariant\<close>

definition agent_on :: "('sk, 'pk) busy_server \<Rightarrow> nat \<Rightarrow> json option" where
  "agent_on bs cid = map_option ss_agent_id (connection bs cid)"

text \<open>A named agent is registered with the callback of a connection of its own; a number belongs to one stage only.\<close>

definition connections_ok :: "('sk, 'pk) busy_server \<Rightarrow> bool" where
  "connections_ok bs \<longleftrightarrow>
     manager_ok (sv_manager (bs_server bs)) \<and>
     (\<forall>a info. named a \<longrightarrow> map_of (by_agent (sv_manager (bs_server bs))) a = Some info \<longrightarrow> agent_on bs (ai_send info) = Some a) \<and>
     (\<forall>cid. map_of (bs_joining bs) cid \<noteq> None \<longrightarrow> connection bs cid = None) \<and>
     (\<forall>cid. map_of (bs_leaving bs) cid \<noteq> None \<longrightarrow> map_of (sv_sessions (bs_server bs)) cid = None)"

lemma agent_on_cong:
  "map_of (sv_sessions (bs_server bs')) c = map_of (sv_sessions (bs_server bs)) c \<Longrightarrow>
    map_of (bs_leaving bs') c = map_of (bs_leaving bs) c \<Longrightarrow> agent_on bs' c = agent_on bs c"
  by (simp add: agent_on_def connection_def split: option.split)

lemma connections_okI:
  assumes "manager_ok (sv_manager (bs_server bs))"
    and "\<And>a info. named a \<Longrightarrow> map_of (by_agent (sv_manager (bs_server bs))) a = Some info \<Longrightarrow> agent_on bs (ai_send info) = Some a"
    and "\<And>cid. map_of (bs_joining bs) cid \<noteq> None \<Longrightarrow> agent_on bs cid = None"
    and "\<And>cid. map_of (bs_leaving bs) cid \<noteq> None \<Longrightarrow> map_of (sv_sessions (bs_server bs)) cid = None"
  shows "connections_ok bs"
  using assms by (simp add: connections_ok_def agent_on_def)

lemma connections_okD:
  assumes "connections_ok bs"
  shows "manager_ok (sv_manager (bs_server bs))"
    and "named a \<Longrightarrow> map_of (by_agent (sv_manager (bs_server bs))) a = Some info \<Longrightarrow> agent_on bs (ai_send info) = Some a"
    and "map_of (bs_joining bs) cid \<noteq> None \<Longrightarrow> agent_on bs cid = None"
    and "map_of (bs_leaving bs) cid \<noteq> None \<Longrightarrow> map_of (sv_sessions (bs_server bs)) cid = None"
  using assms by (simp_all add: connections_ok_def agent_on_def)

text \<open>A step that touches neither the registry nor the connections in their callback, and keeps every connection's agent and stage.\<close>

lemma connections_ok_same:
  assumes ok: "connections_ok bs"
    and "sv_manager (bs_server bs') = sv_manager (bs_server bs)" and "bs_joining bs' = bs_joining bs"
    and "\<And>cid. agent_on bs' cid = agent_on bs cid"
    and "\<And>cid. map_of (bs_leaving bs') cid \<noteq> None \<Longrightarrow> map_of (sv_sessions (bs_server bs')) cid = None"
  shows "connections_ok bs'"
  using connections_okD(1-3) [OF ok] assms(2-5) by (intro connections_okI) simp_all

lemma connections_ok_accept:
  assumes ok: "connections_ok bs" and "fresh_connection cid bs"
  shows "connections_ok (accept_connection P E fs priv pub cid rnd rnd' send_ok raw bs)"
proof -
  obtain h out where h: "do_handshake P E fs priv pub rnd rnd' send_ok raw = (h, out)"
    by (cases "do_handshake P E fs priv pub rnd rnd' send_ok raw")
  show ?thesis
  proof (cases h)
    case (Inl e)
    then show ?thesis
      using connections_okD(4) [OF ok]
      by (intro connections_ok_same [OF ok] agent_on_cong) (simp_all add: accept_connection_def h Let_def)
  next
    case (Inr hk)
    have same: "agent_on (accept_connection P E fs priv pub cid rnd rnd' send_ok raw bs) c = agent_on bs c" for c
      by (rule agent_on_cong) (simp_all add: accept_connection_def h Inr Let_def)
    have "agent_on bs c = None" if "map_of (AList.update cid (hk, out) (bs_joining bs)) c \<noteq> None" for c
      using that assms(2) connections_okD(3) [OF ok, of c]
      by (cases "c = cid") (simp_all add: fresh_connection_def agent_on_def)
    then show ?thesis
      using connections_okD(1,2,4) [OF ok] by (intro connections_okI, unfold same) (simp_all add: accept_connection_def h Inr Let_def)
  qed
qed

lemma connections_ok_register:
  assumes ok: "connections_ok bs"
  shows "connections_ok (register_connection E now cid bs)"
proof (cases "map_of (bs_joining bs) cid")
  case (Some ho)
  obtain hk out where ho: "ho = (hk, out)" by (cases ho)
  let ?sv = "bs_server bs" and ?a = "hk_agent_id hk" and ?bs' = "register_connection E now cid bs"
  obtain r m where m: "add_agent (sv_manager ?sv) now ?a (hk_projects hk) cid = (r, m)"
    by (cases "add_agent (sv_manager ?sv) now ?a (hk_projects hk) cid")
  have mok: "manager_ok m"
    using manager_ok_add [OF connections_okD(1) [OF ok], of now ?a "hk_projects hk" cid] by (simp add: m)
  have entry: "(b = ?a \<and> ai_send info = cid) \<or> map_of (by_agent (sv_manager ?sv)) b = Some info"
    if "map_of (by_agent m) b = Some info" for b info
    using add_agent_entry [of "sv_manager ?sv" now ?a "hk_projects hk" cid b info] that by (simp add: m)
  have free: "agent_on bs cid = None" using connections_okD(3) [OF ok, of cid] Some by simp
  have other: "agent_on ?bs' c = agent_on bs c" if "c \<noteq> cid" for c
    using that by (intro agent_on_cong; cases r) (simp_all add: register_connection_def Some ho m Let_def unregister_manager)
  have join: "bs_joining ?bs' = AList.delete cid (bs_joining bs)" "bs_leaving ?bs' = bs_leaving bs"
    by (simp_all add: register_connection_def Some ho m Let_def)
  have joining: "agent_on ?bs' c = None" if "map_of (bs_joining ?bs') c \<noteq> None" for c
    using that connections_okD(3) [OF ok, of c] other [of c] by (cases "c = cid") (simp_all add: join)
  show ?thesis
  proof (cases r)
    case (Inl e)
    let ?sv1 = "?sv\<lparr>sv_manager := m\<rparr>"
    have sv: "bs_server ?bs' = unregister E ?a ?sv1" by (simp add: register_connection_def Some ho m Inl)
    have mok1: "manager_ok (sv_manager ?sv1)" using mok by simp
    have "agent_on ?bs' (ai_send info) = Some b"
      if n: "named b" and i: "map_of (by_agent (sv_manager (bs_server ?bs'))) b = Some info" for b info
    proof -
      have "b \<noteq> ?a" "map_of (by_agent m) b = Some info"
        using unregister_entry [OF mok1 n i [unfolded sv]] by simp_all
      then have "agent_on bs (ai_send info) = Some b" using entry connections_okD(2) [OF ok n] by blast
      then show ?thesis using other [of "ai_send info"] free by (cases "ai_send info = cid") simp_all
    qed
    then show ?thesis
      using joining connections_okD(4) [OF ok] manager_ok_unregister [OF mok1, of E ?a]
      by (intro connections_okI) (simp_all add: sv join unregister_manager(2))
  next
    case (Inr u)
    have sv: "sv_manager (bs_server ?bs') = m"
      "map_of (sv_sessions (bs_server ?bs')) = (map_of (sv_sessions ?sv))(cid \<mapsto>
        \<lparr>ss_agent_id = ?a, ss_codec = hk_codec hk, ss_sent = out, ss_dispatched = []\<rparr>)"
      by (simp_all add: register_connection_def Some ho m Inr Let_def)
    have self: "agent_on ?bs' cid = Some ?a" by (simp add: agent_on_def connection_def sv)
    have "agent_on ?bs' (ai_send info) = Some b" if n: "named b" and i: "map_of (by_agent m) b = Some info" for b info
      using entry [OF i] connections_okD(2) [OF ok n, of info] self other [of "ai_send info"] free
      by (cases "ai_send info = cid") auto
    moreover have "map_of (sv_sessions (bs_server ?bs')) c = None" if "map_of (bs_leaving bs) c \<noteq> None" for c
      using that connections_okD(4) [OF ok that] free by (cases "c = cid") (simp_all add: sv agent_on_def connection_def)
    ultimately show ?thesis using joining mok by (intro connections_okI) (simp_all add: sv(1) join)
  qed
qed (simp add: register_connection_def ok)

lemma connections_ok_event:
  assumes ok: "connections_ok bs"
  shows "connections_ok (connection_event P E has_cb cid ev bs)"
proof (cases "map_of (sv_sessions (bs_server bs)) cid")
  case (Some s)
  obtain r s' where r: "session_step P E has_cb ev s = (r, s')" by (cases "session_step P E has_cb ev s")
  have a: "ss_agent_id s' = ss_agent_id s" using session_step_agent [of P E has_cb ev s] by (simp add: r)
  have free: "map_of (bs_leaving bs) cid = None" using connections_okD(4) [OF ok, of cid] Some by (cases "map_of (bs_leaving bs) cid") simp_all
  show ?thesis
    using connections_okD(4) [OF ok] free Some
    by (intro connections_ok_same [OF ok]; cases r)
      (auto simp: connection_event_def Some r a Let_def agent_on_def connection_def split: option.split if_splits)
qed (simp add: connection_event_def ok)

lemma connections_ok_leave:
  assumes ok: "connections_ok bs"
  shows "connections_ok (leave_connection E cid bs)"
proof (cases "map_of (bs_leaving bs) cid")
  case (Some s)
  let ?bs' = "leave_connection E cid bs" and ?a = "ss_agent_id s"
  note m = connections_okD(1) [OF ok]
  have sv: "bs_server ?bs' = unregister E ?a (bs_server bs)" and l: "bs_leaving ?bs' = AList.delete cid (bs_leaving bs)"
    and j: "bs_joining ?bs' = bs_joining bs"
    by (simp_all add: leave_connection_def Some)
  have self: "agent_on bs cid = Some ?a"
    using connections_okD(4) [OF ok, of cid] Some by (simp add: agent_on_def connection_def)
  have other: "agent_on ?bs' c = agent_on bs c" if "c \<noteq> cid" for c
    using that by (intro agent_on_cong) (simp_all add: sv l unregister_manager(2))
  have "agent_on ?bs' (ai_send info) = Some b"
    if n: "named b" and i: "map_of (by_agent (sv_manager (unregister E ?a (bs_server bs)))) b = Some info" for b info
  proof -
    have "b \<noteq> ?a" and on: "agent_on bs (ai_send info) = Some b"
      using unregister_entry [OF m n i] connections_okD(2) [OF ok n] by blast+
    then show ?thesis using other [of "ai_send info"] self by (cases "ai_send info = cid") simp_all
  qed
  moreover have "agent_on ?bs' c = None" if "map_of (bs_joining bs) c \<noteq> None" for c
    using that connections_okD(3) [OF ok that] other [of c] self by (cases "c = cid") simp_all
  ultimately show ?thesis
    using connections_okD(4) [OF ok] manager_ok_unregister [OF m, of E ?a]
    by (intro connections_okI) (auto simp: sv l j unregister_manager(2) split: if_splits)
qed (simp add: leave_connection_def ok)

lemma call_connection_on:
  assumes ok: "connections_ok bs" and c: "connection bs cid = Some s"
  shows "fst (call_connection P E d cid ty m bs) = Inr (fst (send_encrypted P E d ty m s))"
    and "connection (snd (call_connection P E d cid ty m bs)) = (connection bs)(cid \<mapsto> snd (send_encrypted P E d ty m s))"
    and "sv_manager (bs_server (snd (call_connection P E d cid ty m bs))) = sv_manager (bs_server bs)"
    and "bs_joining (snd (call_connection P E d cid ty m bs)) = bs_joining bs"
    and "map_of (bs_leaving (snd (call_connection P E d cid ty m bs))) c \<noteq> None \<longleftrightarrow> map_of (bs_leaving bs) c \<noteq> None"
    and "map_of (sv_sessions (bs_server (snd (call_connection P E d cid ty m bs)))) c = None \<longleftrightarrow>
      map_of (sv_sessions (bs_server bs)) c = None"
proof -
  obtain b s' where e: "send_encrypted P E d ty m s = (b, s')" by (cases "send_encrypted P E d ty m s")
  let ?r = "call_connection P E d cid ty m bs"
  have "fst ?r = Inr b \<and> connection (snd ?r) = (connection bs)(cid \<mapsto> s') \<and>
      sv_manager (bs_server (snd ?r)) = sv_manager (bs_server bs) \<and> bs_joining (snd ?r) = bs_joining bs \<and>
      (map_of (bs_leaving (snd ?r)) c \<noteq> None \<longleftrightarrow> map_of (bs_leaving bs) c \<noteq> None) \<and>
      (map_of (sv_sessions (bs_server (snd ?r))) c = None \<longleftrightarrow> map_of (sv_sessions (bs_server bs)) c = None)"
  proof (cases "map_of (bs_leaving bs) cid")
    case None
    then have "map_of (sv_sessions (bs_server bs)) cid = Some s" using c by (simp add: connection_def split: option.splits)
    then show ?thesis using None by (auto simp: call_connection_def call_back_def e connection_def fun_eq_iff split: option.split)
  next
    case (Some s0)
    then have "map_of (sv_sessions (bs_server bs)) cid = None" using connections_okD(4) [OF ok, of cid] by simp
    moreover from this have "s0 = s" using c Some by (simp add: connection_def)
    ultimately show ?thesis using Some by (auto simp: call_connection_def e connection_def fun_eq_iff split: option.split)
  qed
  then show "fst ?r = Inr (fst (send_encrypted P E d ty m s))"
    and "connection (snd ?r) = (connection bs)(cid \<mapsto> snd (send_encrypted P E d ty m s))"
    and "sv_manager (bs_server (snd ?r)) = sv_manager (bs_server bs)" and "bs_joining (snd ?r) = bs_joining bs"
    and "map_of (bs_leaving (snd ?r)) c \<noteq> None \<longleftrightarrow> map_of (bs_leaving bs) c \<noteq> None"
    and "map_of (sv_sessions (bs_server (snd ?r))) c = None \<longleftrightarrow> map_of (sv_sessions (bs_server bs)) c = None"
    by (simp_all add: e)
qed

lemma call_connection_off: "connection bs cid = None \<Longrightarrow> call_connection P E d cid ty m bs = (Inr False, bs)"
  by (simp add: connection_def call_connection_def call_back_def split: option.splits)

lemma connections_ok_call:
  assumes ok: "connections_ok bs"
  shows "connections_ok (snd (call_connection P E d cid ty m bs))"
proof (cases "connection bs cid")
  case (Some s)
  note on = call_connection_on [OF ok Some, of P E d ty m]
  have "agent_on (snd (call_connection P E d cid ty m bs)) c = agent_on bs c" for c
    using send_encrypted_frame(1) [of P E d ty m s] Some by (simp add: agent_on_def on(2))
  moreover have "map_of (sv_sessions (bs_server (snd (call_connection P E d cid ty m bs)))) c = None"
    if "map_of (bs_leaving (snd (call_connection P E d cid ty m bs))) c \<noteq> None" for c
    using connections_okD(4) [OF ok, of c] that unfolding on(5,6) by simp
  ultimately show ?thesis using on(3,4) by (intro connections_ok_same [OF ok])
qed (simp add: call_connection_off ok)

lemma connections_ok_send:
  assumes ok: "connections_ok bs"
  shows "connections_ok (snd (busy_send_to_agent P E d a ty payload bs))"
    and "connections_ok (snd (busy_send_to_project P E d a ty payload bs))"
  using connections_ok_call [OF ok] ok
  by (auto simp: busy_send_to_agent_def busy_send_to_project_def send_to_agent_def send_to_project_def
      split: sum.split option.split)

lemma connections_ok_step:
  assumes ok: "connections_ok bs" and step: "connection_step P E fs priv pub has_cb bs bs'"
  shows "connections_ok bs'"
  using step
proof (cases rule: connection_step.cases)
  case (conn_trigger d p payload)
  then show ?thesis
    using connections_ok_send(2) [OF ok, of P E d "JStr p" BUILD_TRIGGER "dumps_default payload"]
    by (auto simp: busy_trigger_build_def split: prod.split)
next
  case conn_shutdown
  have "agent_on bs' c = agent_on bs c" for c
    by (rule agent_on_cong) (simp_all add: conn_shutdown shutdown_def)
  then show ?thesis
    using connections_okD(3,4) [OF ok]
    by (intro connections_okI) (simp_all add: conn_shutdown shutdown_def stop_all_def manager_ok_def)
qed (simp_all add: connections_ok_accept connections_ok_register connections_ok_event connections_ok_leave connections_ok_send ok)

lemma connections_ok_run:
  assumes "connections_run P E fs priv pub has_cb (idle_server new_server) bs"
  shows "connections_ok bs"
  using assms unfolding connections_run_def
proof (induction rule: rtranclp_induct)
  case base
  show ?case
    by (simp add: connections_ok_def new_server_def manager_ok_new) (simp add: new_manager_def)
qed (rule connections_ok_step)

section \<open>A connection that is alone under its id\<close>

definition sole_connection :: "json \<Rightarrow> nat \<Rightarrow> ('sk, 'pk) busy_server \<Rightarrow> bool" where
  "sole_connection a cid bs \<longleftrightarrow>
     (\<forall>c. agent_on bs c = Some a \<longrightarrow> c = cid) \<and>
     (\<forall>c hk out. map_of (bs_joining bs) c = Some (hk, out) \<longrightarrow> hk_agent_id hk = a \<longrightarrow> c = cid)"

definition sole_step ::
    "('sk, 'pk) prims \<Rightarrow> py_env \<Rightarrow> files \<Rightarrow> pystr \<Rightarrow> pystr \<Rightarrow> bool \<Rightarrow> json \<Rightarrow> nat \<Rightarrow>
     ('sk, 'pk) busy_server \<Rightarrow> ('sk, 'pk) busy_server \<Rightarrow> bool" where
  "sole_step P E fs priv pub has_cb a cid bs bs' \<longleftrightarrow>
     connection_step P E fs priv pub has_cb bs bs' \<and> sole_connection a cid bs'"

text \<open>While its loop runs it is registered, unless the manager has been stopped.\<close>

definition stays_registered :: "json \<Rightarrow> nat \<Rightarrow> ('sk, 'pk) busy_server \<Rightarrow> bool" where
  "stays_registered a cid bs \<longleftrightarrow>
     stopped (sv_manager (bs_server bs)) \<or> map_option ss_agent_id (map_of (sv_sessions (bs_server bs)) cid) \<noteq> Some a \<or>
     map_option ai_send (map_of (by_agent (sv_manager (bs_server bs))) a) = Some cid"

lemma stays_registered_same:
  assumes "stays_registered a cid bs" and "sv_manager (bs_server bs') = sv_manager (bs_server bs)"
    and "map_option ss_agent_id (map_of (sv_sessions (bs_server bs')) cid) = Some a \<Longrightarrow>
      map_option ss_agent_id (map_of (sv_sessions (bs_server bs)) cid) = Some a"
  shows "stays_registered a cid bs'"
  using assms by (auto simp: stays_registered_def)

lemma unregister_other:
  "b \<noteq> a \<Longrightarrow> map_of (by_agent (sv_manager (unregister E a sv))) b = map_of (by_agent (sv_manager sv)) b"
  "stopped (sv_manager (unregister E a sv)) = stopped (sv_manager sv)"
  by (simp_all add: unregister_manager remove_agent_other) (simp add: remove_agent_def Let_def)

lemma stays_registered_register:
  assumes reg: "stays_registered a cid bs" and sole: "sole_connection a cid bs" and ok: "connections_ok bs"
  shows "stays_registered a cid (register_connection E now c bs)"
proof (cases "map_of (bs_joining bs) c")
  case (Some ho)
  obtain hk out where ho: "ho = (hk, out)" by (cases ho)
  let ?sv = "bs_server bs" and ?b = "hk_agent_id hk" and ?bs' = "register_connection E now c bs"
  obtain r m where m: "add_agent (sv_manager ?sv) now ?b (hk_projects hk) c = (r, m)"
    by (cases "add_agent (sv_manager ?sv) now ?b (hk_projects hk) c")
  have st: "stopped m = stopped (sv_manager ?sv)"
    using add_agent_self(2) [of "sv_manager ?sv" now ?b "hk_projects hk" c] by (simp add: m)
  have free: "map_of (sv_sessions ?sv) c = None"
    using connections_okD(3) [OF ok, of c] Some by (auto simp: agent_on_def connection_def split: option.splits)
  have own: "?b = a \<Longrightarrow> c = cid" using sole Some unfolding sole_connection_def ho by blast
  have other: "map_of (by_agent m) a = map_of (by_agent (sv_manager ?sv)) a" if "?b \<noteq> a"
    using add_agent_entries [of "sv_manager ?sv" now ?b "hk_projects hk" c] that by (auto simp: m)
  show ?thesis
  proof (cases r)
    case (Inl e)
    have sv: "bs_server ?bs' = unregister E ?b (?sv\<lparr>sv_manager := m\<rparr>)" by (simp add: register_connection_def Some ho m Inl)
    show ?thesis
    proof (cases "?b = a")
      case True
      then have "map_of (sv_sessions ?sv) cid = None" using own free by simp
      then show ?thesis by (simp add: stays_registered_def sv unregister_manager(2))
    next
      case False
      then show ?thesis using reg other [OF False] st
        by (simp add: stays_registered_def sv unregister_manager(2) unregister_other not_sym [OF False])
    qed
  next
    case (Inr u)
    let ?s = "\<lparr>ss_agent_id = ?b, ss_codec = hk_codec hk, ss_sent = out, ss_dispatched = []\<rparr>"
    have sv: "bs_server ?bs' = ?sv\<lparr>sv_manager := m, sv_sessions := AList.update c ?s (sv_sessions ?sv)\<rparr>"
      by (simp add: register_connection_def Some ho m Inr Let_def)
    show ?thesis
    proof (cases "?b = a")
      case True
      have "stopped m \<or> (\<exists>info. map_of (by_agent m) ?b = Some info \<and> ai_send info = c)"
        using add_agent_self(1) [of "sv_manager ?sv" now ?b "hk_projects hk" c] st by (auto simp: m Inr)
      then have "stays_registered a c ?bs'" unfolding True by (auto simp: stays_registered_def sv)
      then show ?thesis using own [OF True] by simp
    next
      case False
      then show ?thesis using reg other [OF False] st by (simp add: stays_registered_def sv)
    qed
  qed
qed (simp add: register_connection_def reg)

lemma stays_registered_step:
  assumes reg: "stays_registered a cid bs" and sole: "sole_connection a cid bs" and ok: "connections_ok bs"
    and step: "connection_step P E fs priv pub has_cb bs bs'"
  shows "stays_registered a cid bs'"
proof -
  have call: "stays_registered a cid (snd (call_connection P E d c ty m bs))" for d c ty m
  proof (cases "connection bs c")
    case (Some s)
    note on = call_connection_on [OF ok Some, of P E d ty m]
    have "agent_on (snd (call_connection P E d c ty m bs)) cid = agent_on bs cid"
      using send_encrypted_frame(1) [of P E d ty m s] Some by (simp add: agent_on_def on(2))
    then show ?thesis
      using on(3) on(6) [where c = cid] by (intro stays_registered_same [OF reg]) (auto simp: agent_on_def connection_def split: option.splits)
  qed (simp add: call_connection_off reg)
  have send: "stays_registered a cid (snd (busy_send_to_agent P E d b ty payload bs))"
    "stays_registered a cid (snd (busy_send_to_project P E d b ty payload bs))" for d b ty payload
    using call reg
    by (auto simp: busy_send_to_agent_def busy_send_to_project_def send_to_agent_def send_to_project_def split: sum.split option.split)
  from step show ?thesis
  proof (cases rule: connection_step.cases)
    case (conn_accept c rnd rnd' send_ok raw)
    then show ?thesis
      by (intro stays_registered_same [OF reg]) (auto simp: accept_connection_def Let_def split: prod.splits sum.splits)
  next
    case (conn_register now c)
    then show ?thesis by (simp add: stays_registered_register [OF reg sole ok])
  next
    case (conn_event c ev)
    show ?thesis
    proof (cases "map_of (sv_sessions (bs_server bs)) c")
      case (Some s)
      obtain r s' where r: "session_step P E has_cb ev s = (r, s')" by (cases "session_step P E has_cb ev s")
      have "ss_agent_id s' = ss_agent_id s" using session_step_agent [of P E has_cb ev s] by (simp add: r)
      then show ?thesis
        unfolding conn_event
        by (intro stays_registered_same [OF reg]; cases r)
          (auto simp: connection_event_def Some r Let_def split: if_splits)
    qed (simp add: conn_event connection_event_def reg)
  next
    case (conn_leave c)
    show ?thesis
    proof (cases "map_of (bs_leaving bs) c")
      case (Some s)
      have n: "map_of (sv_sessions (bs_server bs)) c = None" using connections_okD(4) [OF ok, of c] Some by simp
      then have "agent_on bs c = Some (ss_agent_id s)" using Some by (simp add: agent_on_def connection_def)
      then have "ss_agent_id s = a \<Longrightarrow> map_of (sv_sessions (bs_server bs)) cid = None"
        using sole n unfolding sole_connection_def by blast
      then show ?thesis
        using reg not_sym [of "ss_agent_id s" a]
        by (cases "ss_agent_id s = a")
          (simp_all add: conn_leave leave_connection_def Some stays_registered_def unregister_manager(2) unregister_other)
    qed (simp add: conn_leave leave_connection_def reg)
  next
    case (conn_trigger d p payload)
    then show ?thesis
      using send(2) [of d "JStr p" BUILD_TRIGGER "dumps_default payload"] by (auto simp: busy_trigger_build_def split: prod.split)
  next
    case conn_shutdown
    then show ?thesis by (simp add: stays_registered_def shutdown_def stop_all_def)
  qed (simp_all add: send)
qed

lemma stays_registered_run:
  assumes "(sole_step P E fs priv pub has_cb a cid)\<^sup>*\<^sup>* (idle_server new_server) bs"
  shows "connections_ok bs \<and> sole_connection a cid bs \<and> stays_registered a cid bs"
  using assms
proof (induction rule: rtranclp_induct)
  case base
  show ?case
    using connections_ok_run [of P E fs priv pub has_cb "idle_server new_server"]
    by (simp add: connections_run_def) (simp add: sole_connection_def agent_on_def connection_def stays_registered_def new_server_def)
next
  case (step bs bs')
  then show ?case
    using stays_registered_step [of a cid bs P E fs priv pub has_cb bs'] connections_ok_step [of bs P E fs priv pub has_cb bs']
    by (simp add: sole_step_def)
qed

section \<open>Properties\<close>

text \<open>C11. A message for a named agent goes to a connection of that agent or to nobody: in every state that the server reaches, however
  handshakes, registrations, messages, disconnects, clean-ups and sends of its connections follow each other, \<open>send_to_agent\<close> for a registered id is the
  encrypted send of one connection whose handshake gave that very id (in its loop, or waiting to unregister), its answer
  is that send's, and no other connection is touched; for an id that is not registered it answers False and does nothing.\<close>

theorem sends_reach_the_named_agent:
  assumes "connections_run P E fs priv pub has_cb (idle_server new_server) bs" and "named a"
  shows "case map_of (by_agent (sv_manager (bs_server bs))) a of
      None \<Rightarrow> busy_send_to_agent P E d a ty payload bs = (Inr False, bs)
    | Some info \<Rightarrow> \<exists>s bs'. connection bs (ai_send info) = Some s \<and> ss_agent_id s = a \<and>
        busy_send_to_agent P E d a ty payload bs = (Inr (fst (send_encrypted P E d ty payload s)), bs') \<and>
        connection bs' = (connection bs)(ai_send info \<mapsto> snd (send_encrypted P E d ty payload s)) \<and>
        sv_manager (bs_server bs') = sv_manager (bs_server bs)"
proof -
  note ok = connections_ok_run [OF assms(1)]
  have get: "get_by_agent (sv_manager (bs_server bs)) a = Inr (map_of (by_agent (sv_manager (bs_server bs))) a)"
    using named_truthy [OF assms(2)] by (simp add: get_by_agent_def)
  show ?thesis
  proof (cases "map_of (by_agent (sv_manager (bs_server bs))) a")
    case (Some info)
    from connections_okD(2) [OF ok assms(2) Some] obtain s where s: "connection bs (ai_send info) = Some s" "ss_agent_id s = a"
      by (auto simp: agent_on_def)
    show ?thesis
      using s call_connection_on(1-3) [OF ok s(1), of P E d ty payload]
      by (cases "call_connection P E d (ai_send info) ty payload bs")
        (simp add: Some busy_send_to_agent_def send_to_agent_def get)
  qed (simp add: busy_send_to_agent_def send_to_agent_def get)
qed

theorem sends_reach_the_named_agent_witness:
  "\<exists>s bs'. connection (idle_server (toy_connect 1 (lit ''a1'') [lit ''p''] [5] new_server)) 1 = Some s \<and> ss_agent_id s = JStr (lit ''a1'') \<and>
     busy_send_to_agent toy_prims toy_env toy_send (JStr (lit ''a1'')) HEARTBEAT []
       (idle_server (toy_connect 1 (lit ''a1'') [lit ''p''] [5] new_server)) =
     (Inr (fst (send_encrypted toy_prims toy_env toy_send HEARTBEAT [] s)), bs')"
  using sends_reach_the_named_agent [OF server_reachable_divided [OF toy_registered(1)] toy_registered(3),
      of toy_send HEARTBEAT "[]"] toy_registered(2)
  by auto

text \<open>C12. An agent that has its id for itself is reachable as long as its loop runs: in every run of the server in which no other connection
  completes a handshake under the id of connection \<open>cid\<close>, whatever else connects, ends, cleans up and sends in between, a message for that id goes through the running session of
  \<open>cid\<close>, until the server shuts down.\<close>

theorem sole_connection_stays_reachable:
  assumes "(sole_step P E fs priv pub has_cb a cid)\<^sup>*\<^sup>* (idle_server new_server) bs"
    and "map_of (sv_sessions (bs_server bs)) cid = Some s" and "ss_agent_id s = a" and "\<not> stopped (sv_manager (bs_server bs))"
  shows "\<exists>bs'. busy_send_to_agent P E d a ty payload bs = (Inr (fst (send_encrypted P E d ty payload s)), bs') \<and>
    connection bs' = (connection bs)(cid \<mapsto> snd (send_encrypted P E d ty payload s))"
proof -
  have ok: "connections_ok bs" and reg: "stays_registered a cid bs" using stays_registered_run [OF assms(1)] by simp_all
  from reg assms(2-4) obtain info where i: "map_of (by_agent (sv_manager (bs_server bs))) a = Some info" "ai_send info = cid"
    by (auto simp: stays_registered_def)
  have "hashable a" using connections_okD(1) [OF ok] i(1) unfolding manager_ok_def by blast
  then have get: "get_by_agent (sv_manager (bs_server bs)) a = Inr (Some info)" using i(1) by (simp add: get_by_agent_def)
  have "connection bs cid = Some s" using assms(2) by (simp add: connection_def)
  from call_connection_on(1,2) [OF ok this, of P E d ty payload] show ?thesis
    by (cases "call_connection P E d cid ty payload bs") (simp add: busy_send_to_agent_def send_to_agent_def get i(2))
qed

theorem sole_connection_stays_reachable_witness:
  "\<exists>bs s bs'. map_of (sv_sessions (bs_server bs)) 1 = Some s \<and> ss_agent_id s = JStr (lit ''a1'') \<and>
     (sole_step toy_prims toy_env (toy_files [7]) (lit ''priv'') (lit ''pub'') True (JStr (lit ''a1'')) 1)\<^sup>*\<^sup>* (idle_server new_server) bs \<and>
     busy_send_to_agent toy_prims toy_env toy_send (JStr (lit ''a1'')) HEARTBEAT [] bs =
       (Inr (fst (send_encrypted toy_prims toy_env toy_send HEARTBEAT [] s)), bs')"
proof -
  let ?P = toy_prims and ?E = toy_env and ?fs = "toy_files [7]" and ?pr = "lit ''priv''" and ?pu = "lit ''pub''" and ?a = "JStr (lit ''a1'')"
    and ?n = "new_server :: (bytes, bytes) server"
  let ?raw = "toy_hello (lit ''a1'') (JArr (map JStr [lit ''p''])) [4] [5]"
  let ?b1 = "accept_connection ?P ?E ?fs ?pr ?pu 1 [3] [] True ?raw (idle_server ?n)"
  let ?b2 = "register_connection ?E 1 1 ?b1"
  have h: "agent_hello ?P ?E ?raw ?a (JArr (map JStr [lit ''p''])) [4] [5]"
    by (rule toy_agent_hello) (simp_all add: lit_def)
  have n: "\<not> stopped (sv_manager ?n)" by (simp add: new_server_def new_manager_def)
  obtain hk :: "(bytes, bytes) handshake" and ack where c: "connect ?P ?E ?fs ?pr ?pu 1 1 [3] [] True ?raw ?n =
      ?n\<lparr>sv_notices := sv_notices ?n @ [(?a, True)],
        sv_manager := register_agent (sv_manager ?n) (lit ''a1'') [lit ''p''] (1, 1),
        sv_sessions := AList.update 1 \<lparr>ss_agent_id = ?a, ss_codec = hk_codec hk, ss_sent = [ack], ss_dispatched = []\<rparr> (sv_sessions ?n)\<rparr>"
    using connect_registers [OF toy_crypto_ok toy_server_keys [of "[7]"] h n, where rnd = "[3]" and rnd' = "[]" and cid = 1 and now = 1] by blast
  let ?s = "\<lparr>ss_agent_id = ?a, ss_codec = hk_codec hk, ss_sent = [ack], ss_dispatched = []\<rparr>"
  have b2: "?b2 = idle_server (?n\<lparr>sv_notices := sv_notices ?n @ [(?a, True)],
      sv_manager := register_agent (sv_manager ?n) (lit ''a1'') [lit ''p''] (1, 1), sv_sessions := AList.update 1 ?s (sv_sessions ?n)\<rparr>)"
    unfolding c [symmetric] by (simp add: connect_divided)
  have "fresh_connection 1 (idle_server ?n)" by (simp add: fresh_connection_def connection_def new_server_def)
  from conn_accept [OF this] have "connection_step ?P ?E ?fs ?pr ?pu True (idle_server ?n) ?b1" .
  moreover have "sole_connection ?a 1 ?b1"
    by (auto simp: sole_connection_def accept_connection_def agent_on_def connection_def Let_def new_server_def split: prod.splits sum.splits if_splits)
  ultimately have "sole_step ?P ?E ?fs ?pr ?pu True ?a 1 (idle_server ?n) ?b1" by (simp add: sole_step_def)
  moreover have "sole_connection ?a 1 ?b2"
    unfolding b2 by (simp add: sole_connection_def agent_on_def connection_def new_server_def)
  then have "sole_step ?P ?E ?fs ?pr ?pu True ?a 1 ?b1 ?b2" using conn_register unfolding sole_step_def by blast
  ultimately have run: "(sole_step ?P ?E ?fs ?pr ?pu True ?a 1)\<^sup>*\<^sup>* (idle_server ?n) ?b2"
    by (meson converse_rtranclp_into_rtranclp rtranclp.rtrancl_refl)
  have on: "map_of (sv_sessions (bs_server ?b2)) 1 = Some ?s" unfolding b2 by simp
  have "\<not> stopped (sv_manager (bs_server ?b2))"
    using n unfolding b2 by (simp add: register_agent_def add_agent_self(2))
  from sole_connection_stays_reachable [OF run on _ this, of toy_send HEARTBEAT "[]"] run on show ?thesis by fastforce
qed

text \<open>C26. A reconnected agent is cut off by the clean-up of its old connection: when an agent's connection ends, the agent connects again under its id while the
  handler of the old one still awaits its heartbeat task, and that handler then unregisters the id, the new connection runs its loop but is not registered: a build
  for a project that it announced answers 404 and nothing is sent.\<close>

theorem late_clean_up_cuts_off_reconnected_agent:
  assumes "crypto_ok P" and "server_keys P fs priv pub skf" and "text_manager (sv_manager sv)"
    and "agent_hello P E raw1 (JStr a) (JArr (map JStr ps1)) esk1 sk1" and "agent_hello P E raw2 (JStr a) (JArr (map JStr ps2)) esk2 sk2"
    and "named (JStr a)"
    and "map_of (sv_sessions sv) cid1 = None" and "map_of (sv_sessions sv) cid2 = None" and "cid1 \<noteq> cid2"
    and "bs1 = register_connection E now1 cid1 (accept_connection P E fs priv pub cid1 rnd1 rnd1' True raw1 (idle_server sv))"
    and "bs2 = connection_event P E has_cb cid1 PeerGone bs1"
    and "bs3 = register_connection E now2 cid2 (accept_connection P E fs priv pub cid2 rnd2 rnd2' True raw2 bs2)"
    and "bs4 = leave_connection E cid1 bs3" and "p \<in> set ps2"
  shows "connections_run P E fs priv pub has_cb (idle_server sv) bs4 \<and>
    session_of (sv_manager (bs_server bs3)) a = Some (now2, cid2) \<and> routed_to (sv_manager (bs_server bs3)) p = Some a \<and>
    (\<exists>s. map_of (sv_sessions (bs_server bs4)) cid2 = Some s \<and> ss_agent_id s = JStr a) \<and>
    session_of (sv_manager (bs_server bs4)) a = None \<and>
    busy_trigger_build P E d p payload bs4 = (HttpError 404, bs4)"
proof -
  have run0: "\<not> stopped (sv_manager sv)" using assms(3) by (simp add: text_manager_def)
  have b1: "bs1 = idle_server (connect P E fs priv pub cid1 now1 rnd1 rnd1' True raw1 sv)"
    unfolding assms(10) by (simp add: connect_divided)
  obtain co ack where c1: "connect P E fs priv pub cid1 now1 rnd1 rnd1' True raw1 sv =
       sv\<lparr>sv_notices := sv_notices sv @ [(JStr a, True)],
          sv_manager := register_agent (sv_manager sv) a ps1 (now1, cid1),
          sv_sessions := AList.update cid1
            \<lparr>ss_agent_id = JStr a, ss_codec = co, ss_sent = [ack], ss_dispatched = []\<rparr> (sv_sessions sv)\<rparr>"
    using connect_registers [OF assms(1,2,4) run0, of rnd1 rnd1' cid1 now1] by blast
  let ?m1 = "register_agent (sv_manager sv) a ps1 (now1, cid1)"
  let ?m2 = "register_agent ?m1 a ps2 (now2, cid2)"
  have t1: "text_manager ?m1" by (rule registry.ok_register [OF assms(3)])
  have t2: "text_manager ?m2" by (rule registry.ok_register [OF t1])
  have m2: "sv_manager (bs_server bs2) = ?m1" and l2: "bs_joining bs2 = []"
      "\<exists>s. map_of (bs_leaving bs2) cid1 = Some s \<and> ss_agent_id s = JStr a"
    by (simp_all add: assms(11) b1 c1 connection_event_def)
  have run2: "\<not> stopped (sv_manager (bs_server bs2))" using t1 by (simp add: m2 text_manager_def)
  have b3: "bs3 = bs2\<lparr>bs_server := connect P E fs priv pub cid2 now2 rnd2 rnd2' True raw2 (bs_server bs2)\<rparr>"
    unfolding assms(12) by (rule connect_divided) (simp add: l2)
  obtain co2 ack2 where c2: "bs_server bs3 = (bs_server bs2)\<lparr>sv_notices := sv_notices (bs_server bs2) @ [(JStr a, True)],
          sv_manager := register_agent (sv_manager (bs_server bs2)) a ps2 (now2, cid2),
          sv_sessions := AList.update cid2
            \<lparr>ss_agent_id = JStr a, ss_codec = co2, ss_sent = [ack2], ss_dispatched = []\<rparr> (sv_sessions (bs_server bs2))\<rparr>"
    using connect_registers [OF assms(1,2,5) run2, of rnd2 rnd2' cid2 now2] b3 by auto
  have m3: "sv_manager (bs_server bs3) = ?m2" by (simp add: c2 m2)
  have b4: "bs_server bs4 = unregister E (JStr a) (bs_server bs3)"
    using l2(2) by (auto simp: assms(13) leave_connection_def b3)
  have m4: "sv_manager (bs_server bs4) = unregister_agent ?m2 a"
    using named_truthy [OF assms(6), of E] by (simp add: b4 unregister_manager m3 unregister_agent_def)
  have t4: "text_manager (sv_manager (bs_server bs4))" unfolding m4 by (rule registry.ok_unregister [OF t2])
  have "routed_to ?m2 p = Some a" "session_of ?m2 a = Some (now2, cid2)"
    using assms(14) by (simp_all add: registry.route_register [OF t1] registry.agent_register [OF t1])
  moreover from this have "routed_to (sv_manager (bs_server bs4)) p = None" "session_of (sv_manager (bs_server bs4)) a = None"
    unfolding m4 by (simp_all add: registry.route_unregister [OF t2] registry.agent_unregister [OF t2])
  moreover have "\<exists>s. map_of (sv_sessions (bs_server bs4)) cid2 = Some s \<and> ss_agent_id s = JStr a"
    by (simp add: b4 unregister_manager(2) c2)
  moreover have "connections_run P E fs priv pub has_cb (idle_server sv) bs4"
  proof -
    let ?step = "connection_step P E fs priv pub has_cb"
    let ?a1 = "accept_connection P E fs priv pub cid1 rnd1 rnd1' True raw1 (idle_server sv)"
    let ?a2 = "accept_connection P E fs priv pub cid2 rnd2 rnd2' True raw2 bs2"
    have "fresh_connection cid1 (idle_server sv)" using assms(7) by (simp add: fresh_connection_def connection_def)
    then have "?step (idle_server sv) ?a1" "?step ?a1 bs1" unfolding assms(10) by (rule conn_accept, intro conn_register)
    moreover have "?step bs1 bs2" unfolding assms(11) by (rule conn_event)
    moreover have "fresh_connection cid2 bs2"
      using assms(8,9) by (simp add: fresh_connection_def connection_def l2(1)) (simp add: assms(11) b1 c1 connection_event_def)
    then have "?step bs2 ?a2" "?step ?a2 bs3" unfolding assms(12) by (rule conn_accept, intro conn_register)
    moreover have "?step bs3 bs4" unfolding assms(13) by (rule conn_leave)
    ultimately show ?thesis unfolding connections_run_def by (meson converse_rtranclp_into_rtranclp rtranclp.rtrancl_refl)
  qed
  ultimately show ?thesis
    by (simp add: m3 busy_trigger_build_def busy_send_to_project_def send_to_project_eq [OF t4] build_answer_def)
qed

theorem late_clean_up_cuts_off_reconnected_agent_witness:
  "\<exists>bs s. connections_run toy_prims toy_env (toy_files [7]) (lit ''priv'') (lit ''pub'') True (idle_server new_server) bs \<and>
     map_of (sv_sessions (bs_server bs)) 2 = Some s \<and> ss_agent_id s = JStr (lit ''a1'') \<and>
     busy_trigger_build toy_prims toy_env toy_send (lit ''p'') (JObj []) bs = (HttpError 404, bs)"
proof -
  have h: "agent_hello toy_prims toy_env (toy_hello (lit ''a1'') (JArr (map JStr [lit ''p''])) [4] [5]) (JStr (lit ''a1''))
      (JArr (map JStr [lit ''p''])) [4] [5]"
    by (rule toy_agent_hello) (simp_all add: lit_def)
  have f: "map_of (sv_sessions (new_server :: (bytes, bytes) server)) 1 = None" "map_of (sv_sessions (new_server :: (bytes, bytes) server)) 2 = None"
    "(1 :: nat) \<noteq> 2" and p: "lit ''p'' \<in> set [lit ''p'']"
    by (simp_all add: new_server_def)
  from late_clean_up_cuts_off_reconnected_agent
    [where has_cb = True and d = toy_send and payload = "JObj []" and ?rnd1.0 = "[3]" and ?rnd2.0 = "[3]" and ?rnd1' = "[]"
        and ?rnd2' = "[]" and ?now1.0 = 1 and ?now2.0 = 2,
      OF toy_crypto_ok toy_server_keys text_manager_new_server h h toy_registered(3) f refl refl refl refl p]
  show ?thesis by blast
qed

end
