(* ===== verification/Relay_Db.thy ===== *)
theory Relay_Db
  imports Py_Text Py_Json "HOL-Library.Multiset"
begin

text \<open>
  forwarder/app/models.py and forwarder/app/database.py: the rows of the four tables, the statements the API sends, and the
  session of a request. The database behind SQLAlchemy is a parameter: what a SELECT answers and what a COMMIT does to a
  database \<open>'db\<close>. \<open>db_ok\<close> says what the code relies on: an answer holds the rows that match, in the order asked for, and a COMMIT
  writes all pending changes or fails.
\<close>

section \<open>Dates\<close>

text \<open>\<open>datetime.datetime\<close> without a time zone, \<open>isoformat\<close>, and the number its order goes by.\<close>

record datetime =
  dt_year :: nat
  dt_month :: nat
  dt_day :: nat
  dt_hour :: nat
  dt_minute :: nat
  dt_second :: nat
  dt_micro :: nat

definition pad_dec :: "nat \<Rightarrow> nat \<Rightarrow> pystr" where
  "pad_dec w n = (let ds = dec n in replicate (w - length ds) 48 @ ds)"

definition isoformat :: "datetime \<Rightarrow> pystr" where
  "isoformat d =
     pad_dec 4 (dt_year d) @ [45] @ pad_dec 2 (dt_month d) @ [45] @ pad_dec 2 (dt_day d) @ [84] @
     pad_dec 2 (dt_hour d) @ [58] @ pad_dec 2 (dt_minute d) @ [58] @ pad_dec 2 (dt_second d) @
     (if dt_micro d = 0 then [] else [46] @ pad_dec 6 (dt_micro d))"

definition dt_key :: "datetime \<Rightarrow> int" where
  "dt_key d =
     (((((int (dt_year d) * 12 + int (dt_month d)) * 32 + int (dt_day d)) * 24 + int (dt_hour d)) * 60 + int (dt_minute d)) * 60
       + int (dt_second d)) * 1000000 + int (dt_micro d)"

section \<open>Rows\<close>

record order_row =
  or_id :: int
  or_order_no :: pystr
  or_issue :: pystr
  or_project :: pystr
  or_branch :: pystr
  or_build_cmd :: pystr
  or_state :: pystr
  or_created_at :: datetime
  or_updated_at :: datetime
  or_created_by :: pystr

record agent_row =
  ar_id :: int
  ar_agent_id :: pystr
  ar_projects :: pystr
  ar_ecdsa_pub_pem :: pystr
  ar_is_online :: bool
  ar_last_seen_at :: "datetime option"
  ar_connected_at :: "datetime option"
  ar_created_at :: datetime

record approval_row =
  pr_id :: int
  pr_work_order_id :: int
  pr_approver :: pystr
  pr_status :: pystr
  pr_comment :: pystr
  pr_review_type :: pystr
  pr_created_at :: datetime
  pr_responded_at :: "datetime option"

record result_row =
  br_id :: int
  br_work_order_id :: int
  br_build_number :: "int option"
  br_status :: pystr
  br_log_url :: pystr
  br_duration_seconds :: "int option"
  br_started_at :: "datetime option"
  br_finished_at :: "datetime option"
  br_created_at :: datetime

record tables =
  tb_orders :: "order_row list"
  tb_approvals :: "approval_row list"
  tb_results :: "result_row list"
  tb_agents :: "agent_row list"

section \<open>Statements\<close>

text \<open>A SELECT on work orders: by number, by id, or a page; on the approvals and results of an order, on the agents; and the
  number of orders in each state.\<close>

datatype order_where = ByOrderNo json | ById int | Page "pystr option" "pystr option" int int

record 'db sql =
  sql_orders :: "order_where \<Rightarrow> 'db \<Rightarrow> order_row list res"
  sql_approvals :: "int \<Rightarrow> pystr option \<Rightarrow> 'db \<Rightarrow> approval_row list res"
  sql_results :: "int \<Rightarrow> 'db \<Rightarrow> result_row list res"
  sql_agents :: "'db \<Rightarrow> agent_row list res"
  sql_state_counts :: "'db \<Rightarrow> (pystr \<times> nat) list res"
  sql_eq :: "pystr \<Rightarrow> json \<Rightarrow> bool"
  sql_commit :: "(tables \<Rightarrow> tables) \<Rightarrow> 'db \<Rightarrow> unit res \<times> 'db"

text \<open>The changes a request makes to loaded objects; \<open>onupdate\<close> stamps a changed work order when it is flushed.\<close>

datatype change = SetOrderState int pystr | SetApproval int pystr datetime

definition apply_change :: "datetime \<Rightarrow> change \<Rightarrow> tables \<Rightarrow> tables" where
  "apply_change now ch tb =
     (case ch of
        SetOrderState i st \<Rightarrow>
          tb\<lparr>tb_orders := map (\<lambda>r. if or_id r = i then r\<lparr>or_state := st, or_updated_at := now\<rparr> else r) (tb_orders tb)\<rparr>
      | SetApproval i st t \<Rightarrow>
          tb\<lparr>tb_approvals :=
             map (\<lambda>p. if pr_id p = i then p\<lparr>pr_status := st, pr_responded_at := Some t\<rparr> else p) (tb_approvals tb)\<rparr>)"

section \<open>The session\<close>

record 'db db_session =
  se_db :: 'db
  se_changes :: "change list"

definition session_change :: "change \<Rightarrow> 'db db_session \<Rightarrow> 'db db_session" where
  "session_change ch se = se\<lparr>se_changes := se_changes se @ [ch]\<rparr>"

definition session_commit :: "'db sql \<Rightarrow> datetime \<Rightarrow> 'db db_session \<Rightarrow> unit res \<times> 'db db_session" where
  "session_commit D now se =
     (if se_changes se = [] then (Inr (), se)
      else
        (let (r, db) = sql_commit D (fold (apply_change now) (se_changes se)) (se_db se)
         in (r, se\<lparr>se_db := db, se_changes := (case r of Inl _ \<Rightarrow> se_changes se | Inr _ \<Rightarrow> [])\<rparr>)))"

definition session_rollback :: "'db db_session \<Rightarrow> 'db db_session" where
  "session_rollback se = se\<lparr>se_changes := []\<rparr>"

text \<open>\<open>get_db_session\<close> around a request: \<open>ready\<close> is whether the session factory has been set. Closing the session drops what
  is pending.\<close>

definition get_db_session :: "bool \<Rightarrow> ('db db_session \<Rightarrow> 'a res \<times> 'db db_session) \<Rightarrow> 'db \<Rightarrow> 'a res \<times> 'db" where
  "get_db_session ready body db =
     (if \<not> ready then (Inl RuntimeError, db)
      else
        (let (r, se) = body \<lparr>se_db = db, se_changes = []\<rparr>;
             se' = (case r of Inl _ \<Rightarrow> session_rollback se | Inr _ \<Rightarrow> se)
         in (r, se_db se')))"

text \<open>\<open>scalar_one_or_none\<close>.\<close>

definition one_or_none :: "'a list res \<Rightarrow> 'a option res" where
  "one_or_none r = rbind r (\<lambda>xs. case xs of [] \<Rightarrow> Inr None | [x] \<Rightarrow> Inr (Some x) | _ \<Rightarrow> Inl LibError)"

section \<open>What the code relies on\<close>

text \<open>The rows a statement selects. A text column is compared as the database's collation does it, \<open>sql_eq\<close>.\<close>

definition order_matches :: "(pystr \<Rightarrow> json \<Rightarrow> bool) \<Rightarrow> order_where \<Rightarrow> order_row \<Rightarrow> bool" where
  "order_matches eq w r =
     (case w of
        ByOrderNo v \<Rightarrow> eq (or_order_no r) v
      | ById i \<Rightarrow> or_id r = i
      | Page st pj _ _ \<Rightarrow>
          (case st of None \<Rightarrow> True | Some s \<Rightarrow> eq (or_state r) (JStr s)) \<and>
          (case pj of None \<Rightarrow> True | Some p \<Rightarrow> eq (or_project r) (JStr p)))"

definition newest_first :: "('a \<Rightarrow> datetime) \<Rightarrow> 'a list \<Rightarrow> bool" where
  "newest_first t xs \<longleftrightarrow> sorted_wrt (\<lambda>x y. dt_key (t y) \<le> dt_key (t x)) xs"

definition page_cut :: "order_where \<Rightarrow> 'a list \<Rightarrow> 'a list" where
  "page_cut w xs = (case w of Page _ _ limit offset \<Rightarrow> take (nat limit) (drop (nat offset) xs) | _ \<Rightarrow> xs)"

text \<open>An answer is the matching rows, each once, newest first where that is asked for, and of a page its
  part.\<close>

definition orders_answer :: "(pystr \<Rightarrow> json \<Rightarrow> bool) \<Rightarrow> order_where \<Rightarrow> order_row list \<Rightarrow> order_row list \<Rightarrow> bool" where
  "orders_answer eq w rows ans \<longleftrightarrow>
     (\<exists>xs. mset xs = mset (filter (order_matches eq w) rows) \<and> ans = page_cut w xs \<and>
        (case w of Page _ _ _ _ \<Rightarrow> newest_first or_created_at xs | _ \<Rightarrow> True))"

definition approvals_answer :: "(pystr \<Rightarrow> json \<Rightarrow> bool) \<Rightarrow> int \<Rightarrow> pystr option \<Rightarrow> approval_row list \<Rightarrow> approval_row list \<Rightarrow> bool" where
  "approvals_answer eq i st rows ans \<longleftrightarrow>
     mset ans = mset (filter (\<lambda>p. pr_work_order_id p = i \<and>
       (case st of None \<Rightarrow> True | Some s \<Rightarrow> eq (pr_status p) (JStr s))) rows) \<and>
     (st \<noteq> None \<longrightarrow> newest_first pr_created_at ans)"

text \<open>\<open>GROUP BY\<close> makes one group of the states the collation does not distinguish, under one of their texts.\<close>

definition counts_answer :: "(pystr \<Rightarrow> json \<Rightarrow> bool) \<Rightarrow> order_row list \<Rightarrow> (pystr \<times> nat) list \<Rightarrow> bool" where
  "counts_answer eq rows ans \<longleftrightarrow>
     distinct (map fst ans) \<and>
     (\<forall>(st, n) \<in> set ans. n = length (filter (\<lambda>r. eq (or_state r) (JStr st)) rows) \<and> st \<in> or_state ` set rows) \<and>
     (\<forall>r \<in> set rows. \<exists>!st. st \<in> fst ` set ans \<and> eq (or_state r) (JStr st))"

definition db_ok :: "('db \<Rightarrow> tables) \<Rightarrow> 'db sql \<Rightarrow> bool" where
  "db_ok tb D \<longleftrightarrow>
     (\<forall>w db ans. sql_orders D w db = Inr ans \<longrightarrow> orders_answer (sql_eq D) w (tb_orders (tb db)) ans) \<and>
     (\<forall>i st db ans. sql_approvals D i st db = Inr ans \<longrightarrow> approvals_answer (sql_eq D) i st (tb_approvals (tb db)) ans) \<and>
     (\<forall>i db ans. sql_results D i db = Inr ans \<longrightarrow> mset ans = mset (filter (\<lambda>b. br_work_order_id b = i) (tb_results (tb db)))) \<and>
     (\<forall>db ans. sql_agents D db = Inr ans \<longrightarrow> mset ans = mset (tb_agents (tb db)) \<and> newest_first ar_created_at ans) \<and>
     (\<forall>db ans. sql_state_counts D db = Inr ans \<longrightarrow> counts_answer (sql_eq D) (tb_orders (tb db)) ans) \<and>
     (\<forall>f db r db'. sql_commit D f db = (r, db') \<longrightarrow> tb db' = f (tb db) \<or> (\<exists>e. r = Inl e) \<and> tb db' = tb db)"

text \<open>Primary keys are distinct.\<close>

definition keys_ok :: "tables \<Rightarrow> bool" where
  "keys_ok tb \<longleftrightarrow> distinct (map or_id (tb_orders tb)) \<and> distinct (map pr_id (tb_approvals tb))"

section \<open>A database for the examples\<close>

text \<open>The tables themselves, with exact comparison of texts.\<close>

definition toy_eq :: "pystr \<Rightarrow> json \<Rightarrow> bool" where
  "toy_eq s v \<longleftrightarrow> v = JStr s"

definition toy_time :: "nat \<Rightarrow> datetime" where
  "toy_time n =
     \<lparr>dt_year = 2026, dt_month = 6, dt_day = 19, dt_hour = 8, dt_minute = 30, dt_second = n, dt_micro = 0\<rparr>"

lemma toy_time_key [simp]: "dt_key (toy_time m) < dt_key (toy_time n) \<longleftrightarrow> m < n" "dt_key (toy_time m) \<le> dt_key (toy_time n) \<longleftrightarrow> m \<le> n"
  by (simp_all add: dt_key_def toy_time_def)

definition toy_times :: "datetime \<times> datetime" where
  "toy_times = (toy_time 8, toy_time 9)"

definition toy_sql :: "tables sql" where
  "toy_sql =
     \<lparr>sql_orders = (\<lambda>w tb. Inr (page_cut w (sort_key (\<lambda>r. - dt_key (or_created_at r)) (filter (order_matches toy_eq w) (tb_orders tb))))),
      sql_approvals = (\<lambda>i st tb. Inr (sort_key (\<lambda>p. - dt_key (pr_created_at p))
        (filter (\<lambda>p. pr_work_order_id p = i \<and> (case st of None \<Rightarrow> True | Some s \<Rightarrow> toy_eq (pr_status p) (JStr s))) (tb_approvals tb)))),
      sql_results = (\<lambda>i tb. Inr (filter (\<lambda>b. br_work_order_id b = i) (tb_results tb))),
      sql_agents = (\<lambda>tb. Inr (sort_key (\<lambda>a. - dt_key (ar_created_at a)) (tb_agents tb))),
      sql_state_counts = (\<lambda>tb. Inr (map (\<lambda>st. (st, length (filter (\<lambda>r. or_state r = st) (tb_orders tb))))
        (remdups (map or_state (tb_orders tb))))),
      sql_eq = toy_eq,
      sql_commit = (\<lambda>f tb. (Inr (), f tb))\<rparr>"

lemma newest_first_sort: "newest_first t (sort_key (\<lambda>x. - dt_key (t x)) xs)"
proof -
  have "sorted_wrt (\<le>) (map (\<lambda>x. - dt_key (t x)) (sort_key (\<lambda>x. - dt_key (t x)) xs))"
    by (rule sorted_sort_key)
  then show ?thesis by (simp add: newest_first_def sorted_wrt_map)
qed

lemma toy_sql_ok: "db_ok id toy_sql"
proof -
  have c: "counts_answer toy_eq rows (map (\<lambda>st. (st, length (filter (\<lambda>r. or_state r = st) rows))) (remdups (map or_state rows)))"
    for rows
    by (auto simp: counts_answer_def toy_eq_def comp_def image_image eq_commute intro!: arg_cong [of _ _ length] filter_cong)
  show ?thesis
    unfolding db_ok_def
    by (intro conjI allI impI)
      (auto simp: toy_sql_def orders_answer_def approvals_answer_def newest_first_sort c split: order_where.split
        intro!: exI [of _ "sort_key (\<lambda>r. - dt_key (or_created_at r)) (filter (order_matches toy_eq _) _)"])
qed

end
