(* ===== verification/Work_Order_State.thy ===== *)
theory Work_Order_State
  imports Relay_Prelude
begin

text \<open>
  The work order state machine of forwarder/app/state.py: the states, the table of valid
  transitions, \<open>can_transition\<close>, \<open>transition\<close> (which raises \<open>StateError\<close>) and
  \<open>is_terminal\<close>.
\<close>

section \<open>States and the transition table\<close>

datatype WorkOrderState =
    DRAFT | PENDING_APPROVAL | APPROVED | BUILDING | SUCCESS | FAILED | CLOSED
  | PENDING_SECOND_REVIEW | SECOND_APPROVED | SECOND_REJECTED

text \<open>The value of the string enum, and \<open>WorkOrderState(value)\<close>, which raises on an
  unknown value.\<close>

fun state_value :: "WorkOrderState \<Rightarrow> pystr" where
  "state_value DRAFT = lit ''DRAFT''"
| "state_value PENDING_APPROVAL = lit ''PENDING_APPROVAL''"
| "state_value APPROVED = lit ''APPROVED''"
| "state_value BUILDING = lit ''BUILDING''"
| "state_value SUCCESS = lit ''SUCCESS''"
| "state_value FAILED = lit ''FAILED''"
| "state_value CLOSED = lit ''CLOSED''"
| "state_value PENDING_SECOND_REVIEW = lit ''PENDING_SECOND_REVIEW''"
| "state_value SECOND_APPROVED = lit ''SECOND_APPROVED''"
| "state_value SECOND_REJECTED = lit ''SECOND_REJECTED''"

definition all_states :: "WorkOrderState list" where
  "all_states = [DRAFT, PENDING_APPROVAL, APPROVED, BUILDING, SUCCESS, FAILED, CLOSED,
     PENDING_SECOND_REVIEW, SECOND_APPROVED, SECOND_REJECTED]"

definition parse_state :: "pystr \<Rightarrow> WorkOrderState res" where
  "parse_state s =
     (case find (\<lambda>st. state_value st = s) all_states of
        None \<Rightarrow> Inl ValueError | Some st \<Rightarrow> Inr st)"

definition TRANSITIONS :: "(WorkOrderState, WorkOrderState list) dict" where
  "TRANSITIONS =
    [(DRAFT, [PENDING_APPROVAL, CLOSED]),
     (PENDING_APPROVAL, [APPROVED, CLOSED]),
     (APPROVED, [BUILDING, PENDING_SECOND_REVIEW, CLOSED]),
     (BUILDING, [SUCCESS, FAILED]),
     (SUCCESS, [CLOSED]),
     (FAILED, [BUILDING, CLOSED]),
     (CLOSED, []),
     (PENDING_SECOND_REVIEW, [SECOND_APPROVED, SECOND_REJECTED]),
     (SECOND_APPROVED, [BUILDING, CLOSED]),
     (SECOND_REJECTED, [CLOSED])]"

text \<open>\<open>TRANSITIONS.get(current, [])\<close>.\<close>

definition next_states :: "WorkOrderState \<Rightarrow> WorkOrderState list" where
  "next_states current = (case map_of TRANSITIONS current of None \<Rightarrow> [] | Some ts \<Rightarrow> ts)"

definition can_transition :: "WorkOrderState \<Rightarrow> WorkOrderState \<Rightarrow> bool" where
  "can_transition current target \<longleftrightarrow> target \<in> set (next_states current)"

text \<open>\<open>StateError\<close> carries the two states its message names.\<close>

datatype state_error = StateError WorkOrderState WorkOrderState

definition transition :: "WorkOrderState \<Rightarrow> WorkOrderState \<Rightarrow> state_error + WorkOrderState" where
  "transition current target =
     (if \<not> can_transition current target then Inl (StateError current target) else Inr target)"

definition is_terminal :: "WorkOrderState \<Rightarrow> bool" where
  "is_terminal st \<longleftrightarrow> next_states st = []"

text \<open>The states are finitely many, so statements over all of them are decided by
  enumeration.\<close>

instantiation WorkOrderState :: enum
begin

definition enum_WorkOrderState :: "WorkOrderState list" where
  "enum_WorkOrderState = all_states"

definition enum_all_WorkOrderState :: "(WorkOrderState \<Rightarrow> bool) \<Rightarrow> bool" where
  "enum_all_WorkOrderState P = list_all P all_states"

definition enum_ex_WorkOrderState :: "(WorkOrderState \<Rightarrow> bool) \<Rightarrow> bool" where
  "enum_ex_WorkOrderState P = list_ex P all_states"

instance
proof
  have all: "st \<in> set all_states" for st
    by (cases st) (simp_all add: all_states_def)
  show "(UNIV :: WorkOrderState set) = set Enum.enum"
    using all by (auto simp: enum_WorkOrderState_def)
  show "distinct (Enum.enum :: WorkOrderState list)"
    by (simp add: enum_WorkOrderState_def all_states_def)
  show "enum_class.enum_all P \<longleftrightarrow> Ball UNIV P" for P :: "WorkOrderState \<Rightarrow> bool"
    using all by (auto simp: enum_all_WorkOrderState_def list_all_iff)
  show "enum_class.enum_ex P \<longleftrightarrow> Bex UNIV P" for P :: "WorkOrderState \<Rightarrow> bool"
    using all by (auto simp: enum_ex_WorkOrderState_def list_ex_iff)
qed

end

section \<open>The machine as a step relation\<close>

inductive wo_step :: "WorkOrderState \<Rightarrow> WorkOrderState \<Rightarrow> bool" where
  wo_step_transition: "transition s t = Inr t \<Longrightarrow> wo_step s t"

inductive wo_path :: "WorkOrderState \<Rightarrow> WorkOrderState list \<Rightarrow> WorkOrderState \<Rightarrow> bool" where
  wo_path_Nil: "wo_path s [] s"
| wo_path_Cons: "transition s t = Inr t \<Longrightarrow> wo_path t ts u \<Longrightarrow> wo_path s (t # ts) u"

inductive_cases wo_stepE: "wo_step s t"
inductive_cases wo_path_NilE: "wo_path s [] u"
inductive_cases wo_path_ConsE: "wo_path s (t # ts) u"

inductive_simps wo_step_iff: "wo_step s t"
inductive_simps wo_path_Nil_iff [simp]: "wo_path s [] u"
inductive_simps wo_path_Cons_iff: "wo_path s (t # ts) u"

section \<open>Lemmas on single transitions\<close>

lemma next_states_simps [simp]:
  "next_states DRAFT = [PENDING_APPROVAL, CLOSED]"
  "next_states PENDING_APPROVAL = [APPROVED, CLOSED]"
  "next_states APPROVED = [BUILDING, PENDING_SECOND_REVIEW, CLOSED]"
  "next_states BUILDING = [SUCCESS, FAILED]"
  "next_states SUCCESS = [CLOSED]"
  "next_states FAILED = [BUILDING, CLOSED]"
  "next_states CLOSED = []"
  "next_states PENDING_SECOND_REVIEW = [SECOND_APPROVED, SECOND_REJECTED]"
  "next_states SECOND_APPROVED = [BUILDING, CLOSED]"
  "next_states SECOND_REJECTED = [CLOSED]"
  by (simp_all add: next_states_def TRANSITIONS_def)

lemma transition_eq_Inr_iff [outcome_iff]: "transition s t = Inr u \<longleftrightarrow> u = t \<and> can_transition s t"
  by (auto simp: transition_def)

lemma transition_eq_Inl_iff:
  "transition s t = Inl e \<longleftrightarrow> e = StateError s t \<and> \<not> can_transition s t"
  by (auto simp: transition_def)

lemma wo_path_Cons_can:
  "wo_path s (t # ts) u \<longleftrightarrow> can_transition s t \<and> wo_path t ts u"
  by (auto simp: wo_path_Cons_iff transition_eq_Inr_iff)

lemma parse_state_value [simp]: "parse_state (state_value st) = Inr st"
  by (cases st) (simp_all add: parse_state_def all_states_def)

lemma parse_state_Inr: "parse_state s = Inr st \<Longrightarrow> s = state_value st"
  by (auto simp: parse_state_def find_Some_iff split: option.splits)

lemma state_value_inject [simp]: "state_value s = state_value t \<longleftrightarrow> s = t"
  by (metis parse_state_value sum.inject(2))

lemma pred_of_BUILDING:
  "can_transition s BUILDING \<Longrightarrow> s \<in> {APPROVED, FAILED, SECOND_APPROVED}"
  by (cases s) (simp_all add: can_transition_def)

lemma pred_of_SECOND_APPROVED: "can_transition s SECOND_APPROVED \<Longrightarrow> s = PENDING_SECOND_REVIEW"
  by (cases s) (simp_all add: can_transition_def)

lemma pred_of_PENDING_SECOND_REVIEW:
  "can_transition s PENDING_SECOND_REVIEW \<Longrightarrow> s = APPROVED"
  by (cases s) (simp_all add: can_transition_def)

lemma pred_of_FAILED: "can_transition s FAILED \<Longrightarrow> s = BUILDING"
  by (cases s) (simp_all add: can_transition_def)

section \<open>Lemmas on whole lifecycles\<close>

lemma wo_path_append:
  "wo_path s (ts @ us) u \<longleftrightarrow> (\<exists>m. wo_path s ts m \<and> wo_path m us u)"
  by (induction ts arbitrary: s) (auto simp: wo_path_Cons_can)

lemma wo_path_last: "wo_path s ts u \<Longrightarrow> u = (if ts = [] then s else last ts)"
  by (induction s ts u rule: wo_path.induct) auto

text \<open>The states in which the first approval has not been given yet.\<close>

definition unapproved :: "WorkOrderState set" where
  "unapproved = {DRAFT, PENDING_APPROVAL, CLOSED}"

lemma unapproved_step:
  "s \<in> unapproved \<Longrightarrow> can_transition s t \<Longrightarrow> t \<in> insert APPROVED unapproved"
  by (auto simp: unapproved_def can_transition_def)

lemma unapproved_path:
  "wo_path s ts u \<Longrightarrow> s \<in> unapproved \<Longrightarrow> APPROVED \<notin> set ts \<Longrightarrow> u \<in> unapproved"
proof (induction s ts u rule: wo_path.induct)
  case (wo_path_Cons s t ts u)
  then have "can_transition s t" and "t \<noteq> APPROVED"
    by (auto simp: transition_eq_Inr_iff)
  with wo_path_Cons.prems(1) have "t \<in> unapproved"
    using unapproved_step by blast
  with wo_path_Cons show ?case by simp
qed

text \<open>A set of states closed under the table is never left.\<close>

lemma wo_path_closed_set:
  assumes "wo_path s ts u" and "s \<in> S"
    and closed: "\<And>a b. a \<in> S \<Longrightarrow> can_transition a b \<Longrightarrow> b \<in> S"
  shows "set ts \<subseteq> S"
  using assms(1,2)
  by (induction s ts u rule: wo_path.induct) (auto simp: transition_eq_Inr_iff intro: closed)

section \<open>Properties\<close>

text \<open>No build without approval: in every sequence of transitions that starts at a DRAFT
  work order, a BUILDING state is preceded by an APPROVED state.\<close>

lemma no_build_without_approval:
  assumes "wo_path DRAFT (ts @ BUILDING # us) u"
  shows "APPROVED \<in> set ts"
proof (rule ccontr)
  assume none: "APPROVED \<notin> set ts"
  from assms obtain m where m: "wo_path DRAFT ts m" and b: "can_transition m BUILDING"
    by (auto simp: wo_path_append wo_path_Cons_can)
  from unapproved_path [OF m _ none] have "m \<in> unapproved"
    by (simp add: unapproved_def)
  with pred_of_BUILDING [OF b] show False
    by (auto simp: unapproved_def)
qed

lemma no_build_without_approval_example:
  "APPROVED \<in> set [PENDING_APPROVAL, APPROVED, PENDING_SECOND_REVIEW, SECOND_APPROVED]"
  by (rule no_build_without_approval [where us = "[FAILED, BUILDING, SUCCESS]" and u = SUCCESS])
    (simp add: wo_path_Cons_can can_transition_def)

text \<open>A rejected second review ends the work order without a build: after SECOND_REJECTED
  the only transition left is the one to CLOSED.\<close>

lemma second_rejection_is_final:
  assumes "wo_path s (ts @ SECOND_REJECTED # us) u"
  shows "us = [] \<or> us = [CLOSED]"
proof (cases us)
  case (Cons t vs)
  with assms have "can_transition SECOND_REJECTED t" and "wo_path t vs u"
    by (auto simp: wo_path_append wo_path_Cons_can)
  then have "t = CLOSED" and "wo_path CLOSED vs u"
    by (auto simp: can_transition_def)
  then show ?thesis
    using Cons by (cases vs) (auto simp: wo_path_Cons_can can_transition_def)
qed simp

lemma second_rejection_is_final_example:
  "[CLOSED] = [] \<or> [CLOSED] = [CLOSED]"
  by (rule second_rejection_is_final
        [where s = APPROVED and ts = "[PENDING_SECOND_REVIEW]" and u = CLOSED])
    (simp add: wo_path_Cons_can can_transition_def)

text \<open>CLOSED is the only terminal state and it can be reached from every state, so no work
  order is stuck.\<close>

lemma closed_is_the_only_end:
  "is_terminal s = (s = CLOSED) \<and> (\<exists>ts. length ts \<le> 3 \<and> wo_path s ts CLOSED)"
proof -
  have t: "is_terminal s = (s = CLOSED)"
    by (cases s) (simp_all add: is_terminal_def)
  have "\<exists>ts \<in> {[], [CLOSED], [SUCCESS, CLOSED], [SECOND_REJECTED, CLOSED]}. wo_path s ts CLOSED"
    by (cases s) (simp_all add: wo_path_Cons_can can_transition_def)
  then have "\<exists>ts. length ts \<le> 3 \<and> wo_path s ts CLOSED"
    by (elim bexE, intro exI conjI, auto)
  with t show ?thesis ..
qed

text \<open>Once a build has started, a second review can no longer be opened: no sequence of
  transitions from BUILDING reaches PENDING_SECOND_REVIEW (the documents describe the review
  as a branch of BUILDING).\<close>

lemma no_second_review_after_build:
  assumes "wo_path BUILDING ts u"
  shows "set ts \<subseteq> {BUILDING, SUCCESS, FAILED, CLOSED}"
  by (rule wo_path_closed_set [OF assms]) (auto simp: can_transition_def)

lemma no_second_review_after_build_example:
  "set [FAILED, BUILDING, SUCCESS, CLOSED] \<subseteq> {BUILDING, SUCCESS, FAILED, CLOSED}"
  by (rule no_second_review_after_build [where u = CLOSED])
    (simp add: wo_path_Cons_can can_transition_def)

end
