(* ===== verification/Relay_Service.thy ===== *)
theory Relay_Service
  imports Work_Order_State Crypto_Envelope
begin

text \<open>
  forwarder/app/services/relay.py: \<open>RelayService\<close>, which checks a work order against the state machine and
  then talks to DingTalk and to the agents. The work order is the dict the caller passes; no method assigns to it. DingTalk's
  \<open>create_approval\<close> and the forwarder's \<open>send_to_project\<close> are the two optional collaborators of the constructor: functions on a
  world \<open>'s\<close>, so that what has been sent is part of every result, exceptions included.
\<close>

section \<open>Collaborators and errors\<close>

record approval_request =
  rq_originator :: json
  rq_process_code :: pystr
  rq_title :: pystr
  rq_form :: "(pystr \<times> json) list"
  rq_approvers :: "pystr list"

record 's relay =
  rs_dt :: "(approval_request \<Rightarrow> 's \<Rightarrow> pystr res \<times> 's) option"
  rs_fwd :: "(json \<Rightarrow> MessageType \<Rightarrow> pystr \<Rightarrow> 's \<Rightarrow> bool res \<times> 's) option"

type_synonym work_order = "(pystr, json) dict"

text \<open>The four messages of \<open>RelayError\<close>; \<open>StateError\<close>; any other exception.\<close>

datatype relay_error =
    DingTalkNotConfigured | ForwarderNotConfigured | NoAgentOnline json | UnknownBuildStatus pystr
  | InvalidTransition state_error
  | Raised exc

definition lift_exc :: "'a res \<Rightarrow> relay_error + 'a" where
  "lift_exc r = (case r of Inl e \<Rightarrow> Inl (Raised e) | Inr x \<Rightarrow> Inr x)"

text \<open>\<open>work_order[k]\<close>, \<open>work_order.get(k, d)\<close> and \<open>WorkOrderState(work_order["state"])\<close>.\<close>

definition wo_item :: "work_order \<Rightarrow> pystr \<Rightarrow> json res" where
  "wo_item wo k = (case map_of wo k of None \<Rightarrow> Inl KeyError | Some v \<Rightarrow> Inr v)"

definition current_state :: "work_order \<Rightarrow> relay_error + WorkOrderState" where
  "current_state wo =
     rbind (lift_exc (wo_item wo (lit ''state'')))
       (\<lambda>v. case v of JStr s \<Rightarrow> lift_exc (parse_state s) | _ \<Rightarrow> Inl (Raised ValueError))"

definition move :: "WorkOrderState \<Rightarrow> WorkOrderState \<Rightarrow> relay_error + WorkOrderState" where
  "move current target =
     (case transition current target of Inl e \<Rightarrow> Inl (InvalidTransition e) | Inr t \<Rightarrow> Inr t)"

section \<open>The text constants\<close>

definition FIELD_ORDER_NO :: pystr where "FIELD_ORDER_NO = [24037, 21333, 32534, 21495]"
definition FIELD_PROJECT :: pystr where "FIELD_PROJECT = [39033, 30446]"
definition FIELD_BRANCH :: pystr where "FIELD_BRANCH = [20998, 25903]"
definition FIELD_BUILD_CMD :: pystr where "FIELD_BUILD_CMD = [26500, 24314, 21629, 20196]"
definition FIELD_CHANGED :: pystr where "FIELD_CHANGED = [21464, 26356, 25991, 20214]"
definition FIELD_RISK :: pystr where "FIELD_RISK = [39118, 38505, 35828, 26126]"
definition RISK_TEXT :: pystr where
  "RISK_TEXT = lit ''special.md '' @ [25991, 20214, 21464, 26356, 65292, 38656, 35201, 20108, 27425, 23457, 26680]"
definition DASH :: pystr where "DASH = [32, 8212, 32]"
definition SECOND_TITLE :: pystr where "SECOND_TITLE = [91, 20108, 27425, 23457, 26680, 93, 32]"
definition SENSITIVE_TEXT :: pystr where "SENSITIVE_TEXT = [25935, 24863, 25991, 20214, 21464, 26356]"

text \<open>\<open>str.upper\<close> on one character, exact for every character whose upper case is ASCII text;
  every other character maps to text that holds a character beyond ASCII and is left as it is, which
  compares in the same way with the ASCII words the code compares with.\<close>

definition upper_char :: "nat \<Rightarrow> pystr" where
  "upper_char c =
     (if 97 \<le> c \<and> c \<le> 122 then [c - 32]
      else if c = 0xDF then lit ''SS''
      else if c = 0x131 then lit ''I''
      else if c = 0x17F then lit ''S''
      else if c = 0xFB00 then lit ''FF''
      else if c = 0xFB01 then lit ''FI''
      else if c = 0xFB02 then lit ''FL''
      else if c = 0xFB03 then lit ''FFI''
      else if c = 0xFB04 then lit ''FFL''
      else if c = 0xFB05 \<or> c = 0xFB06 then lit ''ST''
      else [c])"

definition py_upper :: "pystr \<Rightarrow> pystr" where
  "py_upper s = concat (map upper_char s)"

section \<open>The work order lifecycle\<close>

text \<open>Creating the DingTalk approval, then the log line that needs \<open>work_order["order_no"]\<close>.\<close>

definition request_approval :: "'s relay \<Rightarrow> work_order \<Rightarrow> approval_request \<Rightarrow> 's \<Rightarrow> (relay_error + pystr) \<times> 's" where
  "request_approval sv wo rq s =
     (case rs_dt sv of
        None \<Rightarrow> (Inl DingTalkNotConfigured, s)
      | Some create_approval \<Rightarrow>
          (let (r, s1) = create_approval rq s
           in (rbind (lift_exc r) (\<lambda>instance_id.
                 rbind (lift_exc (wo_item wo (lit ''order_no''))) (\<lambda>_. Inr instance_id)), s1)))"

definition submit_for_approval ::
    "py_env \<Rightarrow> 's relay \<Rightarrow> work_order \<Rightarrow> pystr \<Rightarrow> pystr \<Rightarrow> pystr list \<Rightarrow> 's \<Rightarrow> (relay_error + pystr) \<times> 's" where
  "submit_for_approval E sv wo originator_user_id process_code approvers s =
     (case rbind (current_state wo) (\<lambda>current. move current PENDING_APPROVAL) of
        Inl e \<Rightarrow> (Inl e, s)
      | Inr _ \<Rightarrow>
          request_approval sv wo
            \<lparr>rq_originator = JStr originator_user_id,
             rq_process_code = process_code,
             rq_title = lit ''[JD-Relay] '' @ py_str E (jget wo (lit ''issue'') JNull) @ DASH
                        @ py_str E (jget wo (lit ''project'') JNull),
             rq_form = [(FIELD_ORDER_NO, jget wo (lit ''order_no'') (JStr [])),
                        (lit ''ISSUE'', jget wo (lit ''issue'') (JStr [])),
                        (FIELD_PROJECT, jget wo (lit ''project'') (JStr [])),
                        (FIELD_BRANCH, jget wo (lit ''branch'') (JStr [])),
                        (FIELD_BUILD_CMD, jget wo (lit ''build_cmd'') (JStr []))],
             rq_approvers = approvers\<rparr> s)"

definition on_approval_result :: "work_order \<Rightarrow> pystr \<Rightarrow> relay_error + WorkOrderState" where
  "on_approval_result wo result =
     rbind (current_state wo) (\<lambda>current.
       if result = lit ''agree'' then move current APPROVED else move current CLOSED)"

text \<open>The payload of \<open>trigger_build\<close>: the required fields raise \<open>KeyError\<close> when missing.\<close>

definition build_payload :: "work_order \<Rightarrow> relay_error + pystr" where
  "build_payload wo =
     rbind (lift_exc (wo_item wo (lit ''order_no''))) (\<lambda>order_no.
     rbind (lift_exc (wo_item wo (lit ''issue''))) (\<lambda>issue.
     rbind (lift_exc (wo_item wo (lit ''branch''))) (\<lambda>branch.
       Inr (dumps_default (JObj
         [(lit ''work_order_id'', order_no),
          (lit ''issue'', issue),
          (lit ''project'', jget wo (lit ''project'') (JStr [])),
          (lit ''branch'', branch),
          (lit ''build_cmd'', jget wo (lit ''build_cmd'') (JStr []))])))))"

definition trigger_build :: "'s relay \<Rightarrow> work_order \<Rightarrow> 's \<Rightarrow> (relay_error + bool) \<times> 's" where
  "trigger_build sv wo s =
     (case rbind (current_state wo) (\<lambda>current. rbind (move current BUILDING) (\<lambda>_. build_payload wo)) of
        Inl e \<Rightarrow> (Inl e, s)
      | Inr payload \<Rightarrow>
          (let project = jget wo (lit ''project'') (JStr [])
           in case rs_fwd sv of
                None \<Rightarrow> (Inl ForwarderNotConfigured, s)
              | Some send_to_project \<Rightarrow>
                  (let (r, s1) = send_to_project project BUILD_TRIGGER payload s
                   in (rbind (lift_exc r) (\<lambda>success.
                         if \<not> success then Inl (NoAgentOnline project)
                         else rbind (lift_exc (wo_item wo (lit ''order_no''))) (\<lambda>_. Inr True)), s1))))"

definition on_build_result :: "work_order \<Rightarrow> pystr \<Rightarrow> relay_error + WorkOrderState" where
  "on_build_result wo build_status =
     rbind (current_state wo) (\<lambda>current.
     rbind (if py_upper build_status = lit ''SUCCESS'' then move current SUCCESS
            else if py_upper build_status = lit ''FAILED'' then move current FAILED
            else Inl (UnknownBuildStatus build_status)) (\<lambda>new_state.
     rbind (lift_exc (wo_item wo (lit ''order_no''))) (\<lambda>_. Inr new_state)))"

definition close_work_order :: "work_order \<Rightarrow> relay_error + WorkOrderState" where
  "close_work_order wo =
     rbind (current_state wo) (\<lambda>current.
     rbind (move current CLOSED) (\<lambda>new_state.
     rbind (lift_exc (wo_item wo (lit ''order_no''))) (\<lambda>_. Inr new_state)))"

section \<open>The second review\<close>

definition on_sensitive_change_detected ::
    "py_env \<Rightarrow> 's relay \<Rightarrow> work_order \<Rightarrow> pystr list \<Rightarrow> pystr list \<Rightarrow> 's \<Rightarrow> (relay_error + pystr) \<times> 's" where
  "on_sensitive_change_detected E sv wo changed_files approvers s =
     (case rbind (current_state wo) (\<lambda>current. move current PENDING_SECOND_REVIEW) of
        Inl e \<Rightarrow> (Inl e, s)
      | Inr _ \<Rightarrow>
          request_approval sv wo
            \<lparr>rq_originator = jget wo (lit ''created_by'') (JStr []),
             rq_process_code = lit ''SECOND_REVIEW'',
             rq_title = SECOND_TITLE @ py_str E (jget wo (lit ''issue'') JNull) @ DASH @ SENSITIVE_TEXT,
             rq_form = [(FIELD_ORDER_NO, jget wo (lit ''order_no'') (JStr [])),
                        (FIELD_CHANGED, JStr (py_join (lit '', '') changed_files)),
                        (FIELD_RISK, JStr RISK_TEXT)],
             rq_approvers = approvers\<rparr> s)"

definition on_second_review_result :: "work_order \<Rightarrow> pystr \<Rightarrow> relay_error + WorkOrderState" where
  "on_second_review_result wo result =
     rbind (current_state wo) (\<lambda>current.
     rbind (if result = lit ''agree'' then move current SECOND_APPROVED else move current SECOND_REJECTED) (\<lambda>new_state.
     rbind (lift_exc (wo_item wo (lit ''order_no''))) (\<lambda>_. Inr new_state)))"

section \<open>Lemmas\<close>

lemma lift_exc_Inr [simp]: "lift_exc r = Inr x \<longleftrightarrow> r = Inr x"
  by (simp add: lift_exc_def split: sum.split)

lemma lift_exc_simps [simp]: "lift_exc (Inr x) = Inr x" "lift_exc (Inl e) = Inl (Raised e)"
  by (simp_all add: lift_exc_def)

lemma move_eq: "move s t = (if can_transition s t then Inr t else Inl (InvalidTransition (StateError s t)))"
  by (simp add: move_def transition_def)

lemma move_Inr [outcome_iff]: "move s t = Inr u \<longleftrightarrow> u = t \<and> can_transition s t"
  by (auto simp: move_eq)

lemma wo_item_Inr [outcome_iff]: "wo_item wo k = Inr v \<longleftrightarrow> map_of wo k = Some v"
  by (simp add: wo_item_def split: option.split)

lemma current_state_Inr:
  "current_state wo = Inr s \<longleftrightarrow> map_of wo (lit ''state'') = Some (JStr (state_value s))"
proof
  assume "current_state wo = Inr s"
  then obtain v where "map_of wo (lit ''state'') = Some v"
    and "(case v of JStr s \<Rightarrow> lift_exc (parse_state s) | _ \<Rightarrow> Inl (Raised ValueError)) = Inr s"
    by (auto simp: current_state_def outcome_iff)
  then show "map_of wo (lit ''state'') = Some (JStr (state_value s))"
    by (cases v) (auto dest: parse_state_Inr)
qed (simp add: current_state_def wo_item_def)

text \<open>The predecessors of each state.\<close>

lemma can_to:
  "can_transition s PENDING_APPROVAL \<longleftrightarrow> s = DRAFT"
  "can_transition s APPROVED \<longleftrightarrow> s = PENDING_APPROVAL"
  "can_transition s BUILDING \<longleftrightarrow> s = APPROVED \<or> s = FAILED \<or> s = SECOND_APPROVED"
  "can_transition s SUCCESS \<longleftrightarrow> s = BUILDING"
  "can_transition s FAILED \<longleftrightarrow> s = BUILDING"
  "can_transition s CLOSED \<longleftrightarrow> s \<noteq> BUILDING \<and> s \<noteq> CLOSED \<and> s \<noteq> PENDING_SECOND_REVIEW"
  "can_transition s PENDING_SECOND_REVIEW \<longleftrightarrow> s = APPROVED"
  "can_transition s SECOND_APPROVED \<longleftrightarrow> s = PENDING_SECOND_REVIEW"
  "can_transition s SECOND_REJECTED \<longleftrightarrow> s = PENDING_SECOND_REVIEW"
  by (cases s; simp add: can_transition_def)+

lemma build_payload_Inr:
  "build_payload wo = Inr p \<longleftrightarrow>
     (\<exists>no iss br. map_of wo (lit ''order_no'') = Some no \<and> map_of wo (lit ''issue'') = Some iss \<and>
        map_of wo (lit ''branch'') = Some br \<and>
        p = dumps_default (JObj
          [(lit ''work_order_id'', no), (lit ''issue'', iss), (lit ''project'', jget wo (lit ''project'') (JStr [])),
           (lit ''branch'', br), (lit ''build_cmd'', jget wo (lit ''build_cmd'') (JStr []))]))"
  by (auto simp: build_payload_def outcome_iff)

lemma trigger_build_sends:
  assumes "current_state wo = Inr c" and "c \<in> {APPROVED, FAILED, SECOND_APPROVED}"
    and "build_payload wo = Inr p" and "rs_fwd sv = Some send"
    and "send (jget wo (lit ''project'') (JStr [])) BUILD_TRIGGER p s = (r, s1)"
  shows "trigger_build sv wo s =
    (case r of
       Inl e \<Rightarrow> Inl (Raised e)
     | Inr ok \<Rightarrow> if ok then Inr True else Inl (NoAgentOnline (jget wo (lit ''project'') (JStr []))), s1)"
proof -
  have "move c BUILDING = Inr BUILDING" using assms(2) by (auto simp: can_to move_eq)
  moreover obtain no where "wo_item wo (lit ''order_no'') = Inr no"
    using assms(3) by (auto simp: build_payload_Inr wo_item_Inr)
  ultimately show ?thesis
    using assms by (simp add: trigger_build_def Let_def split: sum.split)
qed

lemma trigger_build_refuses:
  assumes "\<not> (\<exists>c \<in> {APPROVED, FAILED, SECOND_APPROVED}. current_state wo = Inr c)"
  shows "\<exists>e. trigger_build sv wo s = (Inl e, s)"
proof (cases "current_state wo")
  case (Inr c)
  then have "move c BUILDING = Inl (InvalidTransition (StateError c BUILDING))"
    using assms Inr by (auto simp: can_to move_eq)
  then show ?thesis by (simp add: trigger_build_def Inr)
qed (simp add: trigger_build_def)

text \<open>A build status that is neither \<open>SUCCESS\<close> nor \<open>FAILED\<close>, in any letter case, is unknown.\<close>

lemma lift_exc_known [simp]: "lift_exc r \<noteq> Inl (UnknownBuildStatus status)"
  by (simp add: lift_exc_def split: sum.split)

lemma current_state_known: "current_state wo \<noteq> Inl (UnknownBuildStatus status)"
  by (auto simp: current_state_def rbind_Inl_iff split: json.split)

lemma unknown_status:
  "on_build_result wo status = Inl (UnknownBuildStatus status) \<longleftrightarrow>
    (\<exists>c. current_state wo = Inr c) \<and> py_upper status \<notin> {lit ''SUCCESS'', lit ''FAILED''}"
proof (cases "current_state wo")
  case (Inl e)
  then show ?thesis using current_state_known [of wo status] by (simp add: on_build_result_def)
next
  case (Inr c)
  then show ?thesis
    by (auto simp: on_build_result_def rbind_Inl_iff move_eq)
qed

lemma aborted_build_refused:
  assumes "current_state wo = Inr c"
  shows "on_build_result wo (lit ''ABORTED'') = Inl (UnknownBuildStatus (lit ''ABORTED''))"
  using assms unfolding unknown_status by (simp add: py_upper_def upper_char_def lit_def)

section \<open>Properties\<close>

text \<open>C21. The results of the relay service follow the state machine, exactly: an agreed approval turns PENDING\_APPROVAL
  into APPROVED, every other result closes the work order from any state that may be closed; a second review is
  decided from PENDING\_SECOND\_REVIEW only; a build result is taken in BUILDING only, its status SUCCESS or FAILED in any letter
  case; a status other than these two is refused as unknown in every state, and so is the ABORTED that crypto-spec.md lists and
  agents can report. Anything else is an error too. The order number is needed by all but the first.\<close>

theorem relay_results_follow_machine:
  "(on_approval_result wo result = Inr t \<longleftrightarrow>
      (\<exists>c. current_state wo = Inr c \<and>
        (if result = lit ''agree'' then c = PENDING_APPROVAL \<and> t = APPROVED
         else t = CLOSED \<and> c \<notin> {BUILDING, CLOSED, PENDING_SECOND_REVIEW}))) \<and>
   (on_second_review_result wo result = Inr t \<longleftrightarrow>
      current_state wo = Inr PENDING_SECOND_REVIEW \<and> map_of wo (lit ''order_no'') \<noteq> None \<and>
      t = (if result = lit ''agree'' then SECOND_APPROVED else SECOND_REJECTED)) \<and>
   (on_build_result wo status = Inr t \<longleftrightarrow>
      current_state wo = Inr BUILDING \<and> map_of wo (lit ''order_no'') \<noteq> None \<and>
      t \<in> {SUCCESS, FAILED} \<and> py_upper status = state_value t) \<and>
   (on_build_result wo status = Inl (UnknownBuildStatus status) \<longleftrightarrow>
      (\<exists>c. current_state wo = Inr c) \<and> py_upper status \<notin> {lit ''SUCCESS'', lit ''FAILED''}) \<and>
   (close_work_order wo = Inr t \<longleftrightarrow>
      t = CLOSED \<and> map_of wo (lit ''order_no'') \<noteq> None \<and>
      (\<exists>c. current_state wo = Inr c \<and> c \<notin> {BUILDING, CLOSED, PENDING_SECOND_REVIEW}))"
  unfolding unknown_status
  by (intro conjI refl)
    (auto simp: on_approval_result_def on_second_review_result_def on_build_result_def close_work_order_def
      outcome_iff can_to)

text \<open>C8. No BUILD\_TRIGGER without approval: when the work order's state was reached from DRAFT by the state
  machine and \<open>trigger_build\<close> has any effect on the world (it sends to an agent), an approval came before.\<close>

theorem trigger_build_needs_approval:
  assumes "wo_path DRAFT states c" and "current_state wo = Inr c"
    and "trigger_build sv wo s = (r, s')" and "s' \<noteq> s"
  shows "APPROVED \<in> set states"
proof (rule ccontr)
  assume none: "APPROVED \<notin> set states"
  have "c \<in> {APPROVED, FAILED, SECOND_APPROVED}"
    using trigger_build_refuses [of wo sv s] assms(2-4) by auto
  moreover have "c \<in> unapproved"
    using unapproved_path [OF assms(1) _ none] by (simp add: unapproved_def)
  ultimately show False by (auto simp: unapproved_def)
qed

definition toy_order :: "WorkOrderState \<Rightarrow> work_order" where
  "toy_order st =
     [(lit ''state'', JStr (state_value st)), (lit ''order_no'', JStr (lit ''WO-1'')), (lit ''issue'', JStr (lit ''J-1'')),
      (lit ''project'', JStr (lit ''p'')), (lit ''branch'', JStr (lit ''main''))]"

text \<open>A forwarder that takes every message and keeps what it was sent.\<close>

definition toy_relay :: "(json \<times> MessageType \<times> pystr) list relay" where
  "toy_relay = \<lparr>rs_dt = None, rs_fwd = Some (\<lambda>p ty m s. (Inr True, s @ [(p, ty, m)]))\<rparr>"

lemma toy_order_state: "current_state (toy_order st) = Inr st"
  by (simp add: current_state_Inr toy_order_def)

lemma toy_order_payload: "\<exists>p. build_payload (toy_order st) = Inr p"
  by (simp add: build_payload_Inr toy_order_def)

theorem trigger_build_needs_approval_witness:
  "APPROVED \<in> set [PENDING_APPROVAL, APPROVED]"
proof -
  obtain p where p: "build_payload (toy_order APPROVED) = Inr p" using toy_order_payload ..
  have "trigger_build toy_relay (toy_order APPROVED) [] =
      (Inr True, [(jget (toy_order APPROVED) (lit ''project'') (JStr []), BUILD_TRIGGER, p)])"
    using trigger_build_sends [OF toy_order_state _ p, of toy_relay] by (simp add: toy_relay_def)
  then show ?thesis
    by (rule trigger_build_needs_approval [rotated 2])
      (simp_all add: wo_path_Cons_can can_to toy_order_state)
qed

text \<open>\<open>trigger_build\<close> does not record the BUILDING state it validates: with an agent that takes the message, a
  second call on the same work order sends BUILD\_TRIGGER again, and the result of the build is refused, because the work order
  still is in the state it was triggered from.\<close>

lemma triggered_build_not_recorded:
  assumes "current_state wo = Inr c" and "c \<in> {APPROVED, FAILED, SECOND_APPROVED}"
    and "build_payload wo = Inr p" and "rs_fwd sv = Some send"
    and "\<forall>s. fst (send (jget wo (lit ''project'') (JStr [])) BUILD_TRIGGER p s) = Inr True"
    and "once = snd (send (jget wo (lit ''project'') (JStr [])) BUILD_TRIGGER p s)"
    and "twice = snd (send (jget wo (lit ''project'') (JStr [])) BUILD_TRIGGER p once)"
  shows "trigger_build sv wo s = (Inr True, once) \<and> trigger_build sv wo once = (Inr True, twice) \<and>
    on_build_result wo (lit ''SUCCESS'') = Inl (InvalidTransition (StateError c SUCCESS))"
proof -
  let ?send = "send (jget wo (lit ''project'') (JStr [])) BUILD_TRIGGER p"
  have a: "?send s = (Inr True, once)" and b: "?send once = (Inr True, twice)"
    using assms(5) by (auto simp: assms(6,7) prod_eq_iff)
  have "py_upper (lit ''SUCCESS'') = lit ''SUCCESS''" by (simp add: py_upper_def upper_char_def lit_def)
  moreover have "\<not> can_transition c SUCCESS" using assms(2) by (auto simp: can_to)
  ultimately have "on_build_result wo (lit ''SUCCESS'') = Inl (InvalidTransition (StateError c SUCCESS))"
    by (simp add: on_build_result_def assms(1) move_eq)
  then show ?thesis
    using trigger_build_sends [OF assms(1-4) a] trigger_build_sends [OF assms(1-4) b] by simp
qed

lemma triggered_build_not_recorded_example:
  "\<exists>m. trigger_build toy_relay (toy_order APPROVED) [] = (Inr True, [m]) \<and>
     trigger_build toy_relay (toy_order APPROVED) [m] = (Inr True, [m, m]) \<and>
     on_build_result (toy_order APPROVED) (lit ''SUCCESS'') = Inl (InvalidTransition (StateError APPROVED SUCCESS))"
proof -
  obtain p where p: "build_payload (toy_order APPROVED) = Inr p" using toy_order_payload ..
  let ?m = "(jget (toy_order APPROVED) (lit ''project'') (JStr []), BUILD_TRIGGER, p)"
  have "trigger_build toy_relay (toy_order APPROVED) [] = (Inr True, [?m]) \<and>
     trigger_build toy_relay (toy_order APPROVED) [?m] = (Inr True, [?m, ?m]) \<and>
     on_build_result (toy_order APPROVED) (lit ''SUCCESS'') = Inl (InvalidTransition (StateError APPROVED SUCCESS))"
    by (rule triggered_build_not_recorded [OF toy_order_state _ p])
      (simp_all add: toy_relay_def, simp_all)
  then show ?thesis by blast
qed

text \<open>Approvals are requested from the right states only: \<open>submit_for_approval\<close> reaches DingTalk only for
  a DRAFT and \<open>on_sensitive_change_detected\<close> only for an APPROVED work order; a work order without an order number gets its DingTalk
  approval all the same, and the call then fails with \<open>KeyError\<close>, so that the instance id is lost.\<close>

lemma approval_requests:
  assumes "rs_dt sv = Some create" and "\<forall>rq s. create rq s = (Inr instance_id, rq # s)"
  shows "(snd (submit_for_approval E sv wo user code approvers s) \<noteq> s \<longleftrightarrow> current_state wo = Inr DRAFT) \<and>
    (snd (on_sensitive_change_detected E sv wo changed approvers s) \<noteq> s \<longleftrightarrow> current_state wo = Inr APPROVED) \<and>
    (current_state wo = Inr DRAFT \<longrightarrow>
      fst (submit_for_approval E sv wo user code approvers s) =
        (if map_of wo (lit ''order_no'') = None then Inl (Raised KeyError) else Inr instance_id))"
proof -
  have req: "request_approval sv wo rq s =
      (if map_of wo (lit ''order_no'') = None then Inl (Raised KeyError) else Inr instance_id, rq # s)" for rq
    using assms by (simp add: request_approval_def wo_item_def split: option.split)
  show ?thesis
  proof (cases "current_state wo")
    case (Inl e)
    then show ?thesis by (simp add: submit_for_approval_def on_sensitive_change_detected_def)
  next
    case (Inr c)
    then show ?thesis
      by (cases c) (simp_all add: submit_for_approval_def on_sensitive_change_detected_def move_eq can_to req)
  qed
qed

lemma approval_requests_example:
  "fst (submit_for_approval \<lparr>float_between = (\<lambda>_ _ _. False), other_str = (\<lambda>_. []), locale_decode = utf8_decode\<rparr>
     \<lparr>rs_dt = Some (\<lambda>rq s. (Inr (lit ''id-7''), rq # s)), rs_fwd = None\<rparr>
     [(lit ''state'', JStr (lit ''DRAFT''))] (lit ''u'') (lit ''pc'') [] []) = Inl (Raised KeyError)"
proof -
  have d: "current_state [(lit ''state'', JStr (lit ''DRAFT''))] = Inr DRAFT"
    by (simp add: current_state_Inr)
  show ?thesis
    using approval_requests [of "\<lparr>rs_dt = Some (\<lambda>rq s. (Inr (lit ''id-7''), rq # s)), rs_fwd = None\<rparr>"
        "\<lambda>rq s. (Inr (lit ''id-7''), rq # s)" "lit ''id-7''" _ "[(lit ''state'', JStr (lit ''DRAFT''))]"
        "lit ''u''" "lit ''pc''" "[]" "[]"] d
    by simp
qed

end
