(* ===== verification/Py_Int.thy ===== *)
theory Py_Int
  imports Py_Text
begin

text \<open>
  \<open>int(text)\<close> and \<open>str.strip\<close>, as the configuration, the command line and the DingTalk callback use them: Unicode
  white space and decimal digits, an optional sign, single underscores between digits, and the limit on the
  number of digits.
\<close>

definition is_space :: "nat \<Rightarrow> bool" where
  "is_space c \<longleftrightarrow>
     (9 \<le> c \<and> c \<le> 13) \<or> (28 \<le> c \<and> c \<le> 32) \<or> c = 0x85 \<or> c = 0xA0 \<or> c = 0x1680 \<or> (0x2000 \<le> c \<and> c \<le> 0x200A) \<or>
     c = 0x2028 \<or> c = 0x2029 \<or> c = 0x202F \<or> c = 0x205F \<or> c = 0x3000"

definition py_strip :: "pystr \<Rightarrow> pystr" where
  "py_strip s = rev (dropWhile is_space (rev (dropWhile is_space s)))"

text \<open>The zeros of the decimal digit blocks of Unicode; the ten digits of a block are consecutive.\<close>

definition DECIMAL_ZEROS :: "nat list" where
  "DECIMAL_ZEROS =
    [48, 1632, 1776, 1984, 2406, 2534, 2662, 2790, 2918, 3046, 3174, 3302,
     3430, 3558, 3664, 3792, 3872, 4160, 4240, 6112, 6160, 6470, 6608, 6784,
     6800, 6992, 7088, 7232, 7248, 42528, 43216, 43264, 43472, 43504, 43600, 44016,
     65296, 66720, 68912, 69734, 69872, 69942, 70096, 70384, 70736, 70864, 71248, 71360,
     71472, 71904, 72016, 72784, 73040, 73120, 92768, 92864, 93008, 120782, 120792, 120802,
     120812, 120822, 123200, 123632, 125264, 130032]"

definition decimal_value :: "nat \<Rightarrow> nat option" where
  "decimal_value c =
     (if 48 \<le> c \<and> c \<le> 57 then Some (c - 48)
      else (case find (\<lambda>z. z \<le> c \<and> c < z + 10) DECIMAL_ZEROS of None \<Rightarrow> None | Some z \<Rightarrow> Some (c - z)))"

text \<open>Digits with single underscores between them: the digits read and the rest.\<close>

fun int_digits :: "pystr \<Rightarrow> nat list option" where
  "int_digits [] = None"
| "int_digits [c] = (case decimal_value c of None \<Rightarrow> None | Some d \<Rightarrow> Some [d])"
| "int_digits (c # c' # s) =
     (case decimal_value c of
        None \<Rightarrow> None
      | Some d \<Rightarrow> map_option (Cons d) (if c' = 95 then int_digits s else int_digits (c' # s)))"

definition MAX_DIGITS :: nat where "MAX_DIGITS = 4300"

definition split_sign :: "pystr \<Rightarrow> bool \<times> pystr" where
  "split_sign t =
     (case t of [] \<Rightarrow> (False, []) | c # r \<Rightarrow> if c = 45 then (True, r) else if c = 43 then (False, r) else (False, t))"

definition int_parse :: "pystr \<Rightarrow> int res" where
  "int_parse s =
     (let (neg, body) = split_sign (py_strip s)
      in case int_digits body of
           None \<Rightarrow> Inl ValueError
         | Some ds \<Rightarrow>
             if MAX_DIGITS < length ds then Inl ValueError
             else
               (let v = int (foldl (\<lambda>n d. n * 10 + d) 0 ds)
                in Inr (if neg then - v else v)))"

section \<open>Lemmas\<close>

lemma decimal_value_digit: "is_digit c \<Longrightarrow> decimal_value c = Some (c - 48)"
  by (simp add: is_digit_def decimal_value_def)

lemma int_digits_ascii: "s \<noteq> [] \<Longrightarrow> \<forall>c \<in> set s. is_digit c \<Longrightarrow> int_digits s = Some (map (\<lambda>c. c - 48) s)"
  by (induction s rule: int_digits.induct) (auto simp: decimal_value_digit is_digit_def)

lemma digit_not_space: "is_digit c \<Longrightarrow> \<not> is_space c"
  by (auto simp: is_digit_def is_space_def)

lemma strip_id: "s \<noteq> [] \<Longrightarrow> \<not> is_space (hd s) \<Longrightarrow> \<not> is_space (last s) \<Longrightarrow> py_strip s = s"
  by (cases s) (simp_all add: py_strip_def hd_rev [symmetric] dropWhile_eq_self_iff del: hd_rev)

lemma int_parse_digits:
  assumes "s \<noteq> []" "\<forall>c \<in> set s. is_digit c" "length s \<le> MAX_DIGITS"
  shows "int_parse s = Inr (int (dec_value s))"
proof -
  have ns: "py_strip s = s" using assms(1,2) hd_in_set [of s] last_in_set [of s] digit_not_space by (intro strip_id) blast+
  have hd: "hd s \<noteq> 45" "hd s \<noteq> 43" using assms(1,2) hd_in_set [of s] by (fastforce simp: is_digit_def)+
  have sg: "split_sign s = (False, s)" using hd assms(1) by (cases s) (simp_all add: split_sign_def)
  have v: "foldl (\<lambda>n d. n * 10 + d) k (map (\<lambda>c. c - 48) s) = foldl (\<lambda>n c. n * 10 + (c - 48)) k s" for k
    by (induction s arbitrary: k) auto
  show ?thesis
    using assms sg by (simp add: int_parse_def ns int_digits_ascii v dec_value_def)
qed

lemma int_parse_neg_digits:
  assumes "s \<noteq> []" "\<forall>c \<in> set s. is_digit c" "length s \<le> MAX_DIGITS"
  shows "int_parse (45 # s) = Inr (- int (dec_value s))"
proof -
  have "py_strip (45 # s) = 45 # s"
    using assms(1,2) last_in_set [of s] digit_not_space by (intro strip_id) (auto simp: is_space_def [of 45])
  moreover have "foldl (\<lambda>n d. n * 10 + d) k (map (\<lambda>c. c - 48) s) = foldl (\<lambda>n c. n * 10 + (c - 48)) k s" for k
    by (induction s arbitrary: k) auto
  ultimately show ?thesis
    using assms by (simp add: int_parse_def split_sign_def int_digits_ascii dec_value_def)
qed

text \<open>What \<open>str\<close> writes for an integer, \<open>int\<close> reads.\<close>

lemma int_parse_int_str: "length (dec (nat \<bar>i\<bar>)) \<le> MAX_DIGITS \<Longrightarrow> int_parse (py_int_str i) = Inr i"
  using int_parse_digits [of "dec (nat \<bar>i\<bar>)"] int_parse_neg_digits [of "dec (nat \<bar>i\<bar>)"] dec_digits [of "nat \<bar>i\<bar>"]
  by (cases "i < 0") (simp_all add: py_int_str_def)

end
