(* ===== verification/DingTalk_Service.thy ===== *)
theory DingTalk_Service
  imports Relay_Service Py_Hash Py_Int
begin

text \<open>
  forwarder/app/services/dingtalk.py: \<open>DingTalkService\<close>. The DingTalk SDK is a parameter: its four calls are functions on a
  world \<open>'s\<close>, so that what has been asked of DingTalk is part of every result. The token cache is a machine over the callers of
  \<open>get_access_token\<close>, which interleave at the lock and during the fetch. Clock readings are arguments; \<open>time.time()\<close>
  is counted in units of 2\<open>\<^sup>-\<close>22 of a second, in which the sums of the code are exact.
\<close>

section \<open>The SDK\<close>

record start_request =
  sr_token :: "pystr option"
  sr_originator :: json
  sr_process_code :: json
  sr_dept_id :: int
  sr_micro_app_agent_id :: json
  sr_form :: "(json \<times> pystr) list"
  sr_approvers :: "(pystr \<times> json) list"
  sr_title :: pystr

record approval_info =
  in_success :: bool
  in_status :: json
  in_result :: json
  in_business_id :: json
  in_title :: json

record notify_request =
  nr_token :: "pystr option"
  nr_robot_code :: json
  nr_user_ids :: "pystr list"
  nr_msg_key :: pystr
  nr_msg_param :: pystr

text \<open>What a call answers: the token with its lifetime, the id of the new instance, the instance's data, whether there is a
  query key.\<close>

record 's sdk =
  sdk_token :: "json \<Rightarrow> json \<Rightarrow> 's \<Rightarrow> (pystr option \<times> int option) res \<times> 's"
  sdk_start :: "start_request \<Rightarrow> 's \<Rightarrow> pystr res \<times> 's"
  sdk_get :: "pystr option \<Rightarrow> pystr \<Rightarrow> 's \<Rightarrow> approval_info res \<times> 's"
  sdk_notify :: "notify_request \<Rightarrow> 's \<Rightarrow> bool res \<times> 's"

datatype dt_error = TokenFailed | CreateFailed | QueryFailed | OtherError exc

section \<open>State\<close>

record dingtalk =
  dt_app_key :: json
  dt_app_secret :: json
  dt_agent_id :: json
  dt_token :: "pystr option"
  dt_expires_at :: int

definition new_dingtalk :: "json \<Rightarrow> json \<Rightarrow> json \<Rightarrow> dingtalk" where
  "new_dingtalk app_key app_secret agent_id =
     \<lparr>dt_app_key = app_key, dt_app_secret = app_secret, dt_agent_id = agent_id, dt_token = None, dt_expires_at = 0\<rparr>"

definition SECOND :: int where "SECOND = 4194304"

section \<open>The access token\<close>

definition cached_token :: "dingtalk \<Rightarrow> int \<Rightarrow> pystr option" where
  "cached_token dt now =
     (case dt_token dt of
        None \<Rightarrow> None
      | Some tk \<Rightarrow> if tk \<noteq> [] \<and> now < dt_expires_at dt - 300 * SECOND then Some tk else None)"

text \<open>\<open>expire_in or 7200\<close>: no lifetime and a lifetime of 0 are both replaced.\<close>

definition fetch_token :: "'s sdk \<Rightarrow> dingtalk \<Rightarrow> 's \<Rightarrow> (dt_error + pystr option \<times> int) \<times> 's" where
  "fetch_token sdk dt s =
     (case sdk_token sdk (dt_app_key dt) (dt_app_secret dt) s of
        (Inl e, s') \<Rightarrow> (Inl TokenFailed, s')
      | (Inr (token, expire_in), s') \<Rightarrow>
          (Inr (token, case expire_in of None \<Rightarrow> 7200 | Some n \<Rightarrow> if n = 0 then 7200 else n), s'))"

definition store_token :: "pystr option \<Rightarrow> int \<Rightarrow> int \<Rightarrow> dingtalk \<Rightarrow> dingtalk" where
  "store_token token expire_in now dt = dt\<lparr>dt_token := token, dt_expires_at := now + expire_in * SECOND\<rparr>"

text \<open>\<open>get_access_token\<close> when nobody else runs: the clock is read for the check, for the check under the lock and for the
  expiry.\<close>

record clocks =
  ck_check :: int
  ck_locked :: int
  ck_stored :: int

definition get_access_token ::
    "'s sdk \<Rightarrow> clocks \<Rightarrow> dingtalk \<Rightarrow> 's \<Rightarrow> (dt_error + pystr option) \<times> dingtalk \<times> 's" where
  "get_access_token sdk ck dt s =
     (case cached_token dt (ck_check ck) of
        Some tk \<Rightarrow> (Inr (Some tk), dt, s)
      | None \<Rightarrow>
          (case cached_token dt (ck_locked ck) of
             Some tk \<Rightarrow> (Inr (Some tk), dt, s)
           | None \<Rightarrow>
               (case fetch_token sdk dt s of
                  (Inl e, s') \<Rightarrow> (Inl e, dt, s')
                | (Inr (token, expire_in), s') \<Rightarrow> (Inr token, store_token token expire_in (ck_stored ck) dt, s'))))"

section \<open>The callers of get\_access\_token\<close>

text \<open>A caller has not called yet, waits for the lock, has the fetch running (and holds the lock), or has ended with a
  token or an exception.\<close>

datatype caller = NotCalled | Queued | Fetching | Got "pystr option" | Broken dt_error

record 's token_system =
  ts_dt :: dingtalk
  ts_locked :: bool
  ts_callers :: "nat \<Rightarrow> caller"
  ts_world :: 's
  ts_fetches :: nat

definition set_caller :: "nat \<Rightarrow> caller \<Rightarrow> 's token_system \<Rightarrow> 's token_system" where
  "set_caller i c ts = ts\<lparr>ts_callers := (ts_callers ts)(i := c)\<rparr>"

text \<open>Up to the lock; with the lock, up to the fetch; when the fetch is done.\<close>

definition caller_enters :: "nat \<Rightarrow> int \<Rightarrow> 's token_system \<Rightarrow> 's token_system" where
  "caller_enters i now ts =
     (case cached_token (ts_dt ts) now of
        Some tk \<Rightarrow> set_caller i (Got (Some tk)) ts
      | None \<Rightarrow> set_caller i Queued ts)"

definition caller_locks :: "nat \<Rightarrow> int \<Rightarrow> 's token_system \<Rightarrow> 's token_system" where
  "caller_locks i now ts =
     (case cached_token (ts_dt ts) now of
        Some tk \<Rightarrow> set_caller i (Got (Some tk)) ts
      | None \<Rightarrow> set_caller i Fetching (ts\<lparr>ts_locked := True\<rparr>))"

definition caller_fetches :: "'s sdk \<Rightarrow> nat \<Rightarrow> int \<Rightarrow> 's token_system \<Rightarrow> 's token_system" where
  "caller_fetches sdk i now ts =
     (case fetch_token sdk (ts_dt ts) (ts_world ts) of
        (Inl e, s') \<Rightarrow>
          set_caller i (Broken e) (ts\<lparr>ts_world := s', ts_locked := False, ts_fetches := Suc (ts_fetches ts)\<rparr>)
      | (Inr (token, expire_in), s') \<Rightarrow>
          set_caller i (Got token)
            (ts\<lparr>ts_dt := store_token token expire_in now (ts_dt ts), ts_world := s', ts_locked := False,
                ts_fetches := Suc (ts_fetches ts)\<rparr>))"

text \<open>Steps that read the clock before \<open>limit\<close>.\<close>

inductive token_step :: "'s sdk \<Rightarrow> int \<Rightarrow> 's token_system \<Rightarrow> 's token_system \<Rightarrow> bool" for sdk limit where
  step_enter: "ts_callers ts i = NotCalled \<Longrightarrow> now < limit \<Longrightarrow> token_step sdk limit ts (caller_enters i now ts)"
| step_lock: "ts_callers ts i = Queued \<Longrightarrow> \<not> ts_locked ts \<Longrightarrow> now < limit \<Longrightarrow>
    token_step sdk limit ts (caller_locks i now ts)"
| step_fetch: "ts_callers ts i = Fetching \<Longrightarrow> now < limit \<Longrightarrow> token_step sdk limit ts (caller_fetches sdk i now ts)"

inductive token_steps :: "'s sdk \<Rightarrow> int \<Rightarrow> 's token_system \<Rightarrow> 's token_system \<Rightarrow> bool" for sdk limit where
  steps_refl: "token_steps sdk limit ts ts"
| steps_step: "token_steps sdk limit ts ts' \<Longrightarrow> token_step sdk limit ts' ts'' \<Longrightarrow> token_steps sdk limit ts ts''"

definition token_start :: "dingtalk \<Rightarrow> 's \<Rightarrow> 's token_system" where
  "token_start dt s =
     \<lparr>ts_dt = dt, ts_locked = False, ts_callers = (\<lambda>_. NotCalled), ts_world = s, ts_fetches = 0\<rparr>"

section \<open>Approvals and notifications\<close>

text \<open>\<open>fv["name"]\<close> and \<open>str(fv.get("value", ""))\<close> of one form field.\<close>

fun form_components :: "py_env \<Rightarrow> (pystr, json) dict list \<Rightarrow> (json \<times> pystr) list res" where
  "form_components E [] = Inr []"
| "form_components E (fv # fvs) =
     (case map_of fv (lit ''name'') of
        None \<Rightarrow> Inl KeyError
      | Some name \<Rightarrow>
          rbind (form_components E fvs) (\<lambda>cs. Inr ((name, py_str E (jget fv (lit ''value'') (JStr []))) # cs)))"

definition create_approval_sync ::
    "py_env \<Rightarrow> 's sdk \<Rightarrow> dingtalk \<Rightarrow> pystr option \<Rightarrow> json \<Rightarrow> json \<Rightarrow> pystr \<Rightarrow> (pystr, json) dict list \<Rightarrow> json \<Rightarrow>
     's \<Rightarrow> (dt_error + pystr) \<times> 's" where
  "create_approval_sync E sdk dt token originator_user_id process_code title form_values approvers s =
     (case form_components E form_values of
        Inl e \<Rightarrow> (Inl (OtherError e), s)
      | Inr cs \<Rightarrow>
          (case sdk_start sdk
                  \<lparr>sr_token = token, sr_originator = originator_user_id, sr_process_code = process_code, sr_dept_id = - 1,
                   sr_micro_app_agent_id = dt_agent_id dt, sr_form = cs,
                   sr_approvers = [(lit ''SEQUENTIAL'', approvers)], sr_title = title\<rparr> s of
             (Inl e, s') \<Rightarrow> (Inl CreateFailed, s')
           | (Inr instance_id, s') \<Rightarrow> (Inr instance_id, s')))"

definition create_approval ::
    "py_env \<Rightarrow> 's sdk \<Rightarrow> clocks \<Rightarrow> json \<Rightarrow> json \<Rightarrow> pystr \<Rightarrow> (pystr, json) dict list \<Rightarrow> json \<Rightarrow>
     dingtalk \<Rightarrow> 's \<Rightarrow> (dt_error + pystr) \<times> dingtalk \<times> 's" where
  "create_approval E sdk ck originator_user_id process_code title form_values approvers dt s =
     (case get_access_token sdk ck dt s of
        (Inl e, dt', s') \<Rightarrow> (Inl e, dt', s')
      | (Inr token, dt', s') \<Rightarrow>
          (let (r, s'') = create_approval_sync E sdk dt' token originator_user_id process_code title form_values approvers s'
           in (r, dt', s'')))"

text \<open>The dict that \<open>get_approval\<close> returns.\<close>

definition approval_json :: "approval_info \<Rightarrow> json" where
  "approval_json info =
     JObj [(lit ''status'', in_status info), (lit ''result'', in_result info),
           (lit ''business_id'', in_business_id info), (lit ''title'', in_title info)]"

definition get_approval ::
    "'s sdk \<Rightarrow> clocks \<Rightarrow> pystr \<Rightarrow> dingtalk \<Rightarrow> 's \<Rightarrow> (dt_error + json) \<times> dingtalk \<times> 's" where
  "get_approval sdk ck instance_id dt s =
     (case get_access_token sdk ck dt s of
        (Inl e, dt', s') \<Rightarrow> (Inl e, dt', s')
      | (Inr token, dt', s') \<Rightarrow>
          (case sdk_get sdk token instance_id s' of
             (Inl e, s'') \<Rightarrow> (Inl QueryFailed, dt', s'')
           | (Inr info, s'') \<Rightarrow>
               if \<not> in_success info then (Inl QueryFailed, dt', s'') else (Inr (approval_json info), dt', s'')))"

definition send_notification ::
    "'s sdk \<Rightarrow> clocks \<Rightarrow> pystr list \<Rightarrow> pystr \<Rightarrow> pystr \<Rightarrow> dingtalk \<Rightarrow> 's \<Rightarrow> (dt_error + bool) \<times> dingtalk \<times> 's" where
  "send_notification sdk ck user_ids title content dt s =
     (case get_access_token sdk ck dt s of
        (Inl e, dt', s') \<Rightarrow> (Inl e, dt', s')
      | (Inr token, dt', s') \<Rightarrow>
          (case sdk_notify sdk
                  \<lparr>nr_token = token, nr_robot_code = dt_app_key dt', nr_user_ids = user_ids,
                   nr_msg_key = lit ''sampleMarkdown'',
                   nr_msg_param = dumps False (lit '', '') (lit '': '')
                     (JObj [(lit ''title'', JStr title), (lit ''text'', JStr content)])\<rparr> s' of
             (Inl e, s'') \<Rightarrow> (Inr False, dt', s'')
           | (Inr ok, s'') \<Rightarrow> (Inr ok, dt', s'')))"

section \<open>The signature of a callback\<close>

text \<open>\<open>compare_digest\<close> on two strings, which must be ASCII.\<close>

definition compare_digest :: "pystr \<Rightarrow> pystr \<Rightarrow> bool res" where
  "compare_digest a b = (if \<forall>c \<in> set (a @ b). c < 128 then Inr (a = b) else Inl TypeError)"

definition signing_text :: "pystr \<Rightarrow> pystr \<Rightarrow> pystr" where
  "signing_text ts nc = ts @ [10] @ nc"

definition verify_signature :: "py_env \<Rightarrow> dingtalk \<Rightarrow> int \<Rightarrow> pystr \<Rightarrow> pystr \<Rightarrow> pystr \<Rightarrow> bool res" where
  "verify_signature E dt now_ms ts nc sig =
     (if \<not> py_truthy E (dt_app_secret dt) then Inr False
      else
        (case int_parse ts of
           Inl e \<Rightarrow> Inr False
         | Inr ts_ms \<Rightarrow>
             if \<bar>now_ms - ts_ms\<bar> > 300000 then Inr False
             else
               rbind (case dt_app_secret dt of JStr s \<Rightarrow> utf8_encode s | _ \<Rightarrow> Inl AttributeError) (\<lambda>key.
               rbind (utf8_encode (signing_text ts nc)) (\<lambda>msg.
                 compare_digest (std_b64encode (hmac_sha256 key msg)) sig))))"

section \<open>Lemmas\<close>

lemma SECOND_pos: "0 < SECOND"
  by (simp add: SECOND_def)

text \<open>A signature is accepted exactly when it is the base64 text of the HMAC of the two headers under the app secret, and
  the timestamp is within five minutes.\<close>

lemma verify_signature_iff:
  "verify_signature E dt now_ms ts nc sig = Inr True \<longleftrightarrow>
     (\<exists>secret ts_ms key msg. dt_app_secret dt = JStr secret \<and> secret \<noteq> [] \<and>
        int_parse ts = Inr ts_ms \<and> \<bar>now_ms - ts_ms\<bar> \<le> 300000 \<and>
        utf8_encode secret = Inr key \<and> utf8_encode (signing_text ts nc) = Inr msg \<and>
        sig = std_b64encode (hmac_sha256 key msg))"
  using std_b64encode_chars
  by (cases "dt_app_secret dt";
    auto simp: verify_signature_def py_truthy_def compare_digest_def outcome_iff split: sum.splits)

text \<open>Who holds the lock is fetching, and nobody else is.\<close>

definition locks_ok :: "'s token_system \<Rightarrow> bool" where
  "locks_ok ts \<longleftrightarrow>
     (ts_locked ts \<longleftrightarrow> (\<exists>i. ts_callers ts i = Fetching)) \<and>
     (\<forall>i j. ts_callers ts i = Fetching \<longrightarrow> ts_callers ts j = Fetching \<longrightarrow> i = j)"

lemma locks_ok_start: "locks_ok (token_start dt s)"
  by (simp add: locks_ok_def token_start_def)

lemma locks_ok_step: "token_step sdk limit ts ts' \<Longrightarrow> locks_ok ts \<Longrightarrow> locks_ok ts'"
  by (induction rule: token_step.induct;
    auto simp: locks_ok_def caller_enters_def caller_locks_def caller_fetches_def set_caller_def
      split: option.splits sum.splits prod.splits if_splits; metis caller.distinct)

lemma locks_ok_reachable: "token_steps sdk limit (token_start dt s) ts \<Longrightarrow> locks_ok ts"
proof (induction "token_start dt s" ts rule: token_steps.induct)
  case steps_refl
  show ?case by (rule locks_ok_start)
next
  case (steps_step ts' ts'')
  then show ?case using locks_ok_step by blast
qed

text \<open>While the stored token is valid and nobody is fetching, a step only hands it out.\<close>

lemma token_step_cached:
  assumes "token_step sdk limit ts ts'" and "dt_token (ts_dt ts) = Some tk" and "tk \<noteq> []"
    and "limit \<le> dt_expires_at (ts_dt ts) - 300 * SECOND" and "\<forall>i. ts_callers ts i \<noteq> Fetching"
  shows "ts_dt ts' = ts_dt ts \<and> ts_fetches ts' = ts_fetches ts \<and> ts_world ts' = ts_world ts \<and>
    (\<forall>i. ts_callers ts' i \<noteq> Fetching) \<and> (\<exists>i. ts_callers ts' = (ts_callers ts)(i := Got (Some tk)))"
proof -
  have "cached_token (ts_dt ts) now = Some tk" if "now < limit" for now
    using that assms(2-4) by (simp add: cached_token_def)
  with assms(1,5) show ?thesis
    by (cases rule: token_step.cases) (auto simp: caller_enters_def caller_locks_def set_caller_def)
qed

lemma token_steps_cached:
  assumes "token_steps sdk limit ts ts'" and "dt_token (ts_dt ts) = Some tk" and "tk \<noteq> []"
    and "limit \<le> dt_expires_at (ts_dt ts) - 300 * SECOND" and "\<forall>i. ts_callers ts i \<noteq> Fetching"
  shows "ts_dt ts' = ts_dt ts \<and> ts_fetches ts' = ts_fetches ts \<and> ts_world ts' = ts_world ts \<and>
    (\<forall>i. ts_callers ts' i \<noteq> Fetching) \<and>
    (\<forall>i. ts_callers ts' i \<noteq> ts_callers ts i \<longrightarrow> ts_callers ts' i = Got (Some tk))"
  using assms
proof (induction rule: token_steps.induct)
  case (steps_step ts ts' ts'')
  then have "ts_dt ts' = ts_dt ts" "\<forall>i. ts_callers ts' i \<noteq> Fetching" by blast+
  from token_step_cached [OF steps_step.hyps(2), of tk] this steps_step show ?case by auto
qed simp

text \<open>A turn of caller \<open>i\<close>: it does what it can do next, which is nothing when it waits for a held lock or has ended.\<close>

definition caller_turn :: "'s sdk \<Rightarrow> nat \<times> int \<Rightarrow> 's token_system \<Rightarrow> 's token_system" where
  "caller_turn sdk turn ts =
     (case turn of (i, now) \<Rightarrow>
        (case ts_callers ts i of
           NotCalled \<Rightarrow> caller_enters i now ts
         | Queued \<Rightarrow> if ts_locked ts then ts else caller_locks i now ts
         | Fetching \<Rightarrow> caller_fetches sdk i now ts
         | _ \<Rightarrow> ts))"

fun to_go :: "caller \<Rightarrow> nat" where
  "to_go NotCalled = 3" | "to_go Queued = 2" | "to_go Fetching = 1" | "to_go (Got tk) = 0" | "to_go (Broken e) = 0"

text \<open>The callers of \<open>I\<close> still have some way to go; nobody else holds the lock.\<close>

definition way_to_go :: "nat set \<Rightarrow> 's token_system \<Rightarrow> nat" where
  "way_to_go I ts = (\<Sum>i \<in> I. to_go (ts_callers ts i))"

definition turns_ok :: "nat set \<Rightarrow> 's token_system \<Rightarrow> bool" where
  "turns_ok I ts \<longleftrightarrow> locks_ok ts \<and> (\<forall>i. ts_callers ts i = Fetching \<longrightarrow> i \<in> I)"

lemma caller_turn_step: "caller_turn sdk (i, now) ts \<noteq> ts \<Longrightarrow> token_step sdk (now + 1) ts (caller_turn sdk (i, now) ts)"
  by (auto simp: caller_turn_def intro: token_step.intros split: caller.splits if_splits)

text \<open>A turn concerns one caller, which comes closer to its end.\<close>

lemma caller_turn_callers:
  assumes "ts_callers ts i = Queued \<longrightarrow> \<not> ts_locked ts" and "to_go (ts_callers ts i) \<noteq> 0"
  shows "\<exists>c. ts_callers (caller_turn sdk (i, now) ts) = (ts_callers ts)(i := c) \<and> to_go c < to_go (ts_callers ts i)"
  using assms
  by (cases "ts_callers ts i")
    (auto simp: caller_turn_def caller_enters_def caller_locks_def caller_fetches_def set_caller_def
      split: option.split sum.split prod.split)

lemma caller_turn_idle:
  "\<not> (ts_callers ts i = Queued \<longrightarrow> \<not> ts_locked ts) \<or> to_go (ts_callers ts i) = 0 \<Longrightarrow> caller_turn sdk (i, now) ts = ts"
  by (cases "ts_callers ts i") (auto simp: caller_turn_def)

lemma way_to_go_turn:
  assumes "finite I" and "i \<in> I" and "turns_ok I ts"
  shows "turns_ok I (caller_turn sdk (i, now) ts) \<and>
    (caller_turn sdk (i, now) ts = ts \<or> way_to_go I (caller_turn sdk (i, now) ts) < way_to_go I ts)"
proof (cases "(ts_callers ts i = Queued \<longrightarrow> \<not> ts_locked ts) \<and> to_go (ts_callers ts i) \<noteq> 0")
  case True
  then obtain c where c: "ts_callers (caller_turn sdk (i, now) ts) = (ts_callers ts)(i := c)" "to_go c < to_go (ts_callers ts i)"
    using caller_turn_callers by blast
  have "way_to_go I (caller_turn sdk (i, now) ts) < way_to_go I ts"
    unfolding way_to_go_def c(1) using assms(1,2) c(2) by (intro sum_strict_mono_ex1) auto
  moreover from this have "caller_turn sdk (i, now) ts \<noteq> ts" by auto
  then have "locks_ok (caller_turn sdk (i, now) ts)"
    using caller_turn_step locks_ok_step assms(3) unfolding turns_ok_def by blast
  moreover have "\<forall>j. ts_callers (caller_turn sdk (i, now) ts) j = Fetching \<longrightarrow> j \<in> I"
    unfolding c(1) using assms(2,3) by (auto simp: turns_ok_def)
  ultimately show ?thesis by (simp add: turns_ok_def)
next
  case False
  then have "caller_turn sdk (i, now) ts = ts" by (intro caller_turn_idle) blast
  then show ?thesis using assms(3) by simp
qed

text \<open>A round gives every caller a turn: somebody moves, unless all have ended.\<close>

lemma round_moves:
  assumes "finite I" and "fst ` set turns \<subseteq> I" and "turns_ok I ts"
  shows "turns_ok I (fold (caller_turn sdk) turns ts) \<and>
    (way_to_go I (fold (caller_turn sdk) turns ts) < way_to_go I ts \<or>
     fold (caller_turn sdk) turns ts = ts \<and> (\<forall>turn \<in> set turns. caller_turn sdk turn ts = ts))"
  using assms(2,3)
proof (induction turns arbitrary: ts)
  case (Cons turn turns)
  obtain i now where turn: "turn = (i, now)" by fastforce
  with Cons.prems(1) have "i \<in> I" by simp
  let ?ts = "caller_turn sdk turn ts"
  have a: "turns_ok I ?ts" "?ts = ts \<or> way_to_go I ?ts < way_to_go I ts"
    unfolding turn using way_to_go_turn [OF assms(1) \<open>i \<in> I\<close> Cons.prems(2)] by simp_all
  have "fst ` set turns \<subseteq> I" using Cons.prems(1) by simp
  from Cons.IH [OF this a(1)] a(2) show ?case by (elim disjE conjE) simp_all
qed simp

lemma somebody_moves:
  assumes "turns_ok I ts" and "i \<in> I" and "to_go (ts_callers ts i) \<noteq> 0"
  shows "\<exists>j \<in> I. \<forall>now. caller_turn sdk (j, now) ts \<noteq> ts"
proof -
  obtain j where j: "j \<in> I" "ts_callers ts j = Queued \<longrightarrow> \<not> ts_locked ts" "to_go (ts_callers ts j) \<noteq> 0"
  proof (cases "ts_callers ts i = Queued \<and> ts_locked ts")
    case True
    then obtain j where "ts_callers ts j = Fetching" "j \<in> I" using assms(1) by (auto simp: turns_ok_def locks_ok_def)
    then show ?thesis using that [of j] by simp
  qed (use assms that [of i] in blast)
  have "caller_turn sdk (j, now) ts \<noteq> ts" for now
    using caller_turn_callers [OF j(2,3), of sdk now] by (metis fun_upd_same less_irrefl)
  then show ?thesis using j(1) by blast
qed

lemma rounds_end:
  assumes "finite I" and "\<forall>r \<in> set rounds. fst ` set r = I" and "turns_ok I ts" and "way_to_go I ts \<le> length rounds"
  shows "turns_ok I (fold (caller_turn sdk) (concat rounds) ts) \<and> way_to_go I (fold (caller_turn sdk) (concat rounds) ts) = 0"
  using assms(2-4)
proof (induction rounds arbitrary: ts)
  case (Cons r rounds)
  let ?ts = "fold (caller_turn sdk) r ts"
  have m: "turns_ok I ?ts" "way_to_go I ?ts < way_to_go I ts \<or> ?ts = ts \<and> (\<forall>turn \<in> set r. caller_turn sdk turn ts = ts)"
    using round_moves [OF assms(1) _ Cons.prems(2), of r] Cons.prems(1) by auto
  have "way_to_go I ?ts \<le> length rounds"
  proof (cases "way_to_go I ?ts < way_to_go I ts")
    case False
    then have s: "?ts = ts" "\<forall>turn \<in> set r. caller_turn sdk turn ts = ts" using m(2) by blast+
    have "to_go (ts_callers ts i) = 0" if "i \<in> I" for i
    proof (rule ccontr)
      assume "to_go (ts_callers ts i) \<noteq> 0"
      from somebody_moves [OF Cons.prems(2) \<open>i \<in> I\<close> this]
      obtain j where j: "j \<in> I" "\<forall>now. caller_turn sdk (j, now) ts \<noteq> ts" by blast
      moreover obtain now where "(j, now) \<in> set r" using j(1) Cons.prems(1) by (auto simp: image_iff)
      ultimately show False using s(2) by blast
    qed
    then show ?thesis using s(1) by (simp add: way_to_go_def)
  qed (use Cons.prems(3) in simp)
  from Cons.IH [OF _ m(1) this] Cons.prems(1) show ?case by simp
qed simp

section \<open>The service behind RelayService\<close>

text \<open>The form dicts that RelayService passes, and the service as its collaborator; the world is the service's state and
  DingTalk.\<close>

definition form_dict :: "pystr \<times> json \<Rightarrow> (pystr, json) dict" where
  "form_dict = (\<lambda>(name, value). [(lit ''name'', JStr name), (lit ''value'', value)])"

definition dt_exc :: "dt_error \<Rightarrow> exc" where
  "dt_exc e = (case e of OtherError x \<Rightarrow> x | _ \<Rightarrow> DingTalkError)"

definition dingtalk_collaborator ::
    "py_env \<Rightarrow> 's sdk \<Rightarrow> clocks \<Rightarrow> approval_request \<Rightarrow> dingtalk \<times> 's \<Rightarrow> pystr res \<times> dingtalk \<times> 's" where
  "dingtalk_collaborator E sdk ck rq = (\<lambda>(dt, s).
     (case create_approval E sdk ck (rq_originator rq) (JStr (rq_process_code rq)) (rq_title rq)
             (map form_dict (rq_form rq)) (JArr (map JStr (rq_approvers rq))) dt s of
        (Inl e, w) \<Rightarrow> (Inl (dt_exc e), w)
      | (Inr instance_id, w) \<Rightarrow> (Inr instance_id, w)))"

lemma form_components_dict [simp]:
  "form_components E (form_dict (name, value) # fvs) =
    rbind (form_components E fvs) (\<lambda>cs. Inr ((JStr name, py_str E value) # cs))"
  by (simp add: form_dict_def jget_def)

declare form_components.simps(2) [simp del]

text \<open>An SDK whose world is the list of what it has been asked, for the examples.\<close>

datatype asked = AskedToken json json | Started start_request | Queried pystr | Notified notify_request

definition toy_sdk :: "asked list sdk" where
  "toy_sdk =
     \<lparr>sdk_token = (\<lambda>k sec s. (Inr (Some (lit ''tok''), Some 7200), s @ [AskedToken k sec])),
      sdk_start = (\<lambda>rq s. (Inr (lit ''inst-1''), s @ [Started rq])),
      sdk_get = (\<lambda>tk i s. (Inl LibError, s @ [Queried i])),
      sdk_notify = (\<lambda>rq s. (Inr True, s @ [Notified rq]))\<rparr>"

definition toy_dt :: dingtalk where
  "toy_dt = new_dingtalk (JStr (lit ''key'')) (JStr (lit ''secret'')) (JInt 7)"

section \<open>Properties\<close>

text \<open>C28. The token is fetched once: whatever callers of \<open>get_access_token\<close> have run before, once the lock is free and a token is
  stored, any interleaving of callers up to five minutes before its expiry makes no request to DingTalk, and every caller that ends
  ends with that token; callers that queued up behind the fetch find it when they get the lock.\<close>

theorem token_fetched_once:
  assumes "token_steps sdk limit (token_start dt s) ts" and "\<not> ts_locked ts"
    and "dt_token (ts_dt ts) = Some tk" and "tk \<noteq> []"
    and "token_steps sdk (dt_expires_at (ts_dt ts) - 300 * SECOND) ts ts'"
  shows "ts_fetches ts' = ts_fetches ts \<and> ts_world ts' = ts_world ts \<and>
    (\<forall>i. ts_callers ts' i \<noteq> ts_callers ts i \<longrightarrow> ts_callers ts' i = Got (Some tk))"
proof -
  have "\<forall>i. ts_callers ts i \<noteq> Fetching"
    using locks_ok_reachable [OF assms(1)] assms(2) by (auto simp: locks_ok_def)
  from token_steps_cached [OF assms(5,3,4) _ this] show ?thesis by simp
qed

theorem token_fetched_once_witness:
  "\<exists>ts ts'. token_steps toy_sdk 1 (token_start toy_dt []) ts \<and> ts_world ts = [AskedToken (JStr (lit ''key'')) (JStr (lit ''secret''))] \<and>
     token_steps toy_sdk (dt_expires_at (ts_dt ts) - 300 * SECOND) ts ts' \<and>
     ts_callers ts 2 = Queued \<and> ts_callers ts' 2 = Got (Some (lit ''tok'')) \<and> ts_world ts' = ts_world ts"
proof -
  let ?a = "caller_enters 3 0 (token_start toy_dt [] :: asked list token_system)"
  let ?b = "caller_enters 2 0 ?a"
  let ?c = "caller_locks 3 0 ?b"
  let ?d = "caller_fetches toy_sdk 3 0 ?c"
  have none: "cached_token toy_dt now = None" for now by (simp add: cached_token_def toy_dt_def new_dingtalk_def)
  have c: "?c = \<lparr>ts_dt = toy_dt, ts_locked = True, ts_callers = (\<lambda>_. NotCalled)(3 := Fetching, 2 := Queued), ts_world = [], ts_fetches = 0\<rparr>"
    by (auto simp: caller_enters_def caller_locks_def set_caller_def token_start_def none)
  have d: "?d = \<lparr>ts_dt = toy_dt\<lparr>dt_token := Some (lit ''tok''), dt_expires_at := 7200 * SECOND\<rparr>, ts_locked = False,
      ts_callers = (\<lambda>_. NotCalled)(3 := Got (Some (lit ''tok'')), 2 := Queued),
      ts_world = [AskedToken (JStr (lit ''key'')) (JStr (lit ''secret''))], ts_fetches = 1\<rparr>"
    unfolding c by (auto simp: caller_fetches_def fetch_token_def toy_sdk_def set_caller_def store_token_def)
      (simp_all add: toy_dt_def new_dingtalk_def)
  have r: "token_steps toy_sdk 1 (token_start toy_dt []) ?d"
    by (intro steps_step [OF steps_step [OF steps_step [OF steps_step [OF steps_refl step_enter] step_enter] step_lock] step_fetch])
      (simp_all add: caller_enters_def caller_locks_def set_caller_def token_start_def none)
  have s: "token_steps toy_sdk (dt_expires_at (ts_dt ?d) - 300 * SECOND) ?d (caller_locks 2 0 ?d)"
    by (intro steps_step [OF steps_refl step_lock]) (simp_all add: d SECOND_def)
  have t: "\<not> ts_locked ?d" "dt_token (ts_dt ?d) = Some (lit ''tok'')" "lit ''tok'' \<noteq> []" by (simp_all add: d)
  have w: "ts_world ?d = [AskedToken (JStr (lit ''key'')) (JStr (lit ''secret''))]" "ts_callers ?d 2 = Queued" by (simp_all add: d)
  have g: "ts_callers (caller_locks 2 0 ?d) 2 = Got (Some (lit ''tok''))"
    unfolding d by (simp add: caller_locks_def cached_token_def SECOND_def set_caller_def)
  have "ts_world (caller_locks 2 0 ?d) = ts_world ?d" using token_fetched_once [OF r t s] by blast
  with r s w g show ?thesis by blast
qed

text \<open>C29. Every caller of \<open>get_access_token\<close> ends: whatever has run before, when the callers take turns, in any order within a round and with
  any clock readings, then after three rounds per caller each has ended with a token or an exception and the lock is free, also when
  DingTalk fails: an exception of the fetch does not keep the lock.\<close>

theorem token_callers_end:
  assumes "token_steps sdk limit (token_start dt s) ts" and "finite I" and "\<forall>i. ts_callers ts i = Fetching \<longrightarrow> i \<in> I"
    and "\<forall>r \<in> set rounds. fst ` set r = I" and "3 * card I \<le> length rounds"
  shows "\<not> ts_locked (fold (caller_turn sdk) (concat rounds) ts) \<and>
    (\<forall>i \<in> I. \<exists>tk e. ts_callers (fold (caller_turn sdk) (concat rounds) ts) i \<in> {Got tk, Broken e})"
proof -
  let ?ts = "fold (caller_turn sdk) (concat rounds) ts"
  have le: "to_go c \<le> 3" for c by (cases c) simp_all
  have "way_to_go I ts \<le> length rounds"
    using sum_bounded_above [of I "\<lambda>i. to_go (ts_callers ts i)" 3] le assms(5) by (simp add: way_to_go_def)
  moreover have "turns_ok I ts" using locks_ok_reachable [OF assms(1)] assms(3) by (simp add: turns_ok_def)
  ultimately have e: "turns_ok I ?ts" "way_to_go I ?ts = 0" using rounds_end [OF assms(2,4), of ts sdk] by simp_all
  then have z: "\<forall>i \<in> I. to_go (ts_callers ?ts i) = 0" using assms(2) by (simp add: way_to_go_def)
  have "\<exists>tk e. c \<in> {Got tk, Broken e}" if "to_go c = 0" for c using that by (cases c) auto
  moreover have "\<not> ts_locked ?ts"
  proof
    assume "ts_locked ?ts"
    then obtain i where "i \<in> I" "ts_callers ?ts i = Fetching" using e(1) by (auto simp: turns_ok_def locks_ok_def)
    with z show False by fastforce
  qed
  ultimately show ?thesis using z by blast
qed

theorem token_callers_end_witness:
  "\<exists>sdk :: asked list sdk. sdk_token sdk = (\<lambda>k sec s. (Inl LibError, s)) \<and>
     (let ts = fold (caller_turn sdk) (concat (replicate 6 [(2, 0), (3, 0)])) (token_start toy_dt [])
      in \<not> ts_locked ts \<and> (\<exists>tk e. ts_callers ts 2 \<in> {Got tk, Broken e}) \<and> (\<exists>tk e. ts_callers ts 3 \<in> {Got tk, Broken e}))"
proof -
  let ?sdk = "toy_sdk\<lparr>sdk_token := \<lambda>k sec s. (Inl LibError, s)\<rparr>"
  have "\<forall>i. ts_callers (token_start toy_dt []) i = Fetching \<longrightarrow> i \<in> {2, 3}" by (simp add: token_start_def)
  from token_callers_end [OF steps_refl _ this, of "replicate 6 [(2, 0), (3, 0)]" ?sdk] show ?thesis
    by (intro exI [of _ ?sdk]) (simp add: Let_def)
qed

text \<open>C35. Submitting a work order reaches DingTalk: with the service behind \<open>RelayService\<close> and a valid cached token, a submission
  of a work order in state DRAFT makes exactly one request, which carries the token, the order's five fields as texts, and all approvers in one
  sequential node (not one node per approver); it returns the id DingTalk answers with.\<close>

theorem submission_reaches_dingtalk:
  assumes "current_state wo = Inr DRAFT" and "map_of wo (lit ''order_no'') = Some order_no"
    and "cached_token dt (ck_check ck) = Some tk"
    and "sdk_start sdk
      \<lparr>sr_token = Some tk, sr_originator = JStr originator, sr_process_code = JStr code, sr_dept_id = - 1,
       sr_micro_app_agent_id = dt_agent_id dt,
       sr_form = [(JStr FIELD_ORDER_NO, py_str E order_no),
                  (JStr (lit ''ISSUE''), py_str E (jget wo (lit ''issue'') (JStr []))),
                  (JStr FIELD_PROJECT, py_str E (jget wo (lit ''project'') (JStr []))),
                  (JStr FIELD_BRANCH, py_str E (jget wo (lit ''branch'') (JStr []))),
                  (JStr FIELD_BUILD_CMD, py_str E (jget wo (lit ''build_cmd'') (JStr [])))],
       sr_approvers = [(lit ''SEQUENTIAL'', JArr (map JStr approvers))],
       sr_title = lit ''[JD-Relay] '' @ py_str E (jget wo (lit ''issue'') JNull) @ DASH @ py_str E (jget wo (lit ''project'') JNull)\<rparr>
      s = (Inr instance_id, s')"
  shows "submit_for_approval E \<lparr>rs_dt = Some (dingtalk_collaborator E sdk ck), rs_fwd = fwd\<rparr> wo originator code approvers (dt, s) =
    (Inr instance_id, (dt, s'))"
  using assms
  by (simp add: submit_for_approval_def move_def transition_def can_transition_def request_approval_def
      dingtalk_collaborator_def create_approval_def get_access_token_def create_approval_sync_def
      jget_def [of wo "lit ''order_no''"] wo_item_def lift_exc_def)

theorem submission_reaches_dingtalk_witness:
  "\<exists>rq. submit_for_approval toy_env \<lparr>rs_dt = Some (dingtalk_collaborator toy_env toy_sdk \<lparr>ck_check = 0, ck_locked = 0, ck_stored = 0\<rparr>), rs_fwd = None\<rparr>
     (toy_order DRAFT) (lit ''u1'') (lit ''P'') [lit ''a'', lit ''b''] (toy_dt\<lparr>dt_token := Some (lit ''tok''), dt_expires_at := 7200 * SECOND\<rparr>, []) =
     (Inr (lit ''inst-1''), (toy_dt\<lparr>dt_token := Some (lit ''tok''), dt_expires_at := 7200 * SECOND\<rparr>, [Started rq])) \<and>
     sr_approvers rq = [(lit ''SEQUENTIAL'', JArr [JStr (lit ''a''), JStr (lit ''b'')])]"
proof -
  let ?dt = "toy_dt\<lparr>dt_token := Some (lit ''tok''), dt_expires_at := 7200 * SECOND\<rparr>"
  have o': "map_of (toy_order DRAFT) (lit ''order_no'') = Some (JStr (lit ''WO-1''))" by (simp add: toy_order_def)
  have c: "cached_token ?dt (ck_check \<lparr>ck_check = 0, ck_locked = 0, ck_stored = 0\<rparr>) = Some (lit ''tok'')"
    by (simp add: cached_token_def SECOND_def)
  show ?thesis
    by (intro exI conjI, rule submission_reaches_dingtalk [OF toy_order_state o' c]) (simp add: toy_sdk_def, simp)
qed

end
