(* ===== verification/DingTalk_Api.thy ===== *)
theory DingTalk_Api
  imports Relay_Db DingTalk_Service Forwarder_Config Forwarder_Server Py_Json_Bytes
begin

text \<open>
  forwarder/app/api/dingtalk.py: the callback that drives work orders through the state machine, the card callback, and the
  endpoint that starts an approval. A request is its body and its three headers; the database session, the DingTalk service and the
  configuration come from the application's state.
\<close>

section \<open>Requests\<close>

record callback_request =
  cb_body :: bytes
  cb_timestamp :: "pystr option"
  cb_nonce :: "pystr option"
  cb_sign :: "pystr option"

definition header :: "pystr option \<Rightarrow> pystr" where
  "header h = (case h of None \<Rightarrow> [] | Some v \<Rightarrow> v)"

definition SUCCESS_ANSWER :: http where
  "SUCCESS_ANSWER = Answer (JObj [(lit ''result'', JStr (lit ''success''))])"

section \<open>The end of an approval\<close>

text \<open>The new state of a work order, from its state, the review and the result.\<close>

definition approval_target :: "json \<Rightarrow> pystr \<Rightarrow> WorkOrderState" where
  "approval_target result review_type =
     (if result = JStr (lit ''agree'') then (if review_type = lit ''second'' then SECOND_APPROVED else APPROVED)
      else (if review_type = lit ''second'' then SECOND_REJECTED else CLOSED))"

definition approval_status :: "json \<Rightarrow> pystr" where
  "approval_status result = (if result = JStr (lit ''agree'') then lit ''APPROVED'' else lit ''REJECTED'')"

text \<open>What the handler reads: the work order and its pending approval.\<close>

definition read_order :: "'db sql \<Rightarrow> json \<Rightarrow> 'db \<Rightarrow> (order_row \<times> approval_row option) option res" where
  "read_order D biz_id db =
     rbind (one_or_none (sql_orders D (ByOrderNo biz_id) db)) (\<lambda>work_order.
       (case work_order of
          None \<Rightarrow> Inr None
        | Some wo \<Rightarrow>
            rbind (one_or_none (sql_approvals D (or_id wo) (Some (lit ''PENDING'')) db)) (\<lambda>approval.
              Inr (Some (wo, approval)))))"

definition mark_approval :: "json \<Rightarrow> datetime \<Rightarrow> approval_row option \<Rightarrow> 'db db_session \<Rightarrow> 'db db_session" where
  "mark_approval result utcnow approval se =
     (case approval of
        None \<Rightarrow> se
      | Some p \<Rightarrow> session_change (SetApproval (pr_id p) (approval_status result) utcnow) se)"

text \<open>The handler reads the clock for the approval's \<open>responded_at\<close>; the flush of its commit reads it again. \<open>utcnow\<close> holds the two readings.\<close>

definition handle_approval_finish ::
    "'db sql \<Rightarrow> datetime \<times> datetime \<Rightarrow> json \<Rightarrow> json \<Rightarrow> 'db db_session \<Rightarrow> unit res \<times> 'db db_session" where
  "handle_approval_finish D utcnow biz_id result se =
     (case read_order D biz_id (se_db se) of
        Inl e \<Rightarrow> (Inl e, se)
      | Inr None \<Rightarrow> (Inr (), se)
      | Inr (Some (wo, approval)) \<Rightarrow>
          (let se1 = mark_approval result (fst utcnow) approval se
           in case parse_state (or_state wo) of
                Inl e \<Rightarrow> (Inl e, se1)
              | Inr current \<Rightarrow>
                  (let review_type = (case approval of None \<Rightarrow> lit ''first'' | Some p \<Rightarrow> pr_review_type p)
                   in case transition current (approval_target result review_type) of
                        Inl _ \<Rightarrow> (Inr (), session_rollback se1)
                      | Inr new_state \<Rightarrow>
                          session_commit D (snd utcnow) (session_change (SetOrderState (or_id wo) (state_value new_state)) se1))))"

section \<open>The callback\<close>

text \<open>Reading the body and checking the signature: with no service nothing is checked.\<close>

definition callback_body :: "callback_request \<Rightarrow> http + json" where
  "callback_body rq = (case loads_bytes (cb_body rq) of Inl _ \<Rightarrow> Inl (HttpError 400) | Inr body \<Rightarrow> Inr body)"

definition callback_authentic :: "py_env \<Rightarrow> dingtalk option \<Rightarrow> int \<Rightarrow> callback_request \<Rightarrow> http + unit" where
  "callback_authentic E dt_svc now_ms rq =
     (case dt_svc of
        None \<Rightarrow> Inr ()
      | Some dt \<Rightarrow>
          (case verify_signature E dt now_ms (header (cb_timestamp rq)) (header (cb_nonce rq)) (header (cb_sign rq)) of
             Inl e \<Rightarrow> Inl (Unhandled e)
           | Inr False \<Rightarrow> Inl (HttpError 401)
           | Inr True \<Rightarrow> Inr ()))"

text \<open>\<open>body.get\<close> is an \<open>AttributeError\<close> on anything but a dict. The inner result is an HTTP answer; an exception is left to the session
  and the framework.\<close>

definition callback_event ::
    "py_env \<Rightarrow> 'db sql \<Rightarrow> datetime \<times> datetime \<Rightarrow> json \<Rightarrow> 'db db_session \<Rightarrow> http res \<times> 'db db_session" where
  "callback_event E D utcnow body se =
     (case body of
        JObj kvs \<Rightarrow>
          (let event_type = jget kvs (lit ''type'') (JStr []);
               result = jget kvs (lit ''result'') (JStr []);
               biz_id = jget kvs (lit ''businessId'') (JStr [])
           in if event_type = JStr (lit ''FINISH'') \<and> py_truthy E biz_id then
                (case handle_approval_finish D utcnow biz_id result se of
                   (Inl e, se') \<Rightarrow> (Inl e, se')
                 | (Inr _, se') \<Rightarrow> (Inr SUCCESS_ANSWER, se'))
              else (Inr SUCCESS_ANSWER, se))
      | _ \<Rightarrow> (Inl AttributeError, se))"

text \<open>A raised \<open>HTTPException\<close> passes through the session's cleanup as any exception; nothing is pending then.\<close>

definition dingtalk_callback ::
    "py_env \<Rightarrow> 'db sql \<Rightarrow> bool \<Rightarrow> dingtalk option \<Rightarrow> int \<Rightarrow> datetime \<times> datetime \<Rightarrow> callback_request \<Rightarrow> 'db \<Rightarrow> http \<times> 'db" where
  "dingtalk_callback E D ready dt_svc now_ms utcnow rq db =
     (case get_db_session ready
             (\<lambda>se. case rbind (callback_body rq) (\<lambda>body. rbind (callback_authentic E dt_svc now_ms rq) (\<lambda>_. Inr body)) of
                Inl answer \<Rightarrow> (Inr answer, session_rollback se)
              | Inr body \<Rightarrow> callback_event E D utcnow body se) db of
        (Inl e, db') \<Rightarrow> (Unhandled e, db')
      | (Inr answer, db') \<Rightarrow> (answer, db'))"

definition card_callback :: "bytes \<Rightarrow> http" where
  "card_callback body = (case loads_bytes body of Inl _ \<Rightarrow> HttpError 400 | Inr _ \<Rightarrow> SUCCESS_ANSWER)"

section \<open>Starting an approval\<close>

record approval_create =
  ac_work_order_id :: pystr
  ac_issue :: pystr
  ac_project :: pystr
  ac_branch :: pystr
  ac_build_cmd :: pystr

definition approval_form :: "approval_create \<Rightarrow> (pystr, json) dict list" where
  "approval_form rq =
     map form_dict
       [(FIELD_ORDER_NO, JStr (ac_work_order_id rq)), (lit ''ISSUE'', JStr (ac_issue rq)), (FIELD_PROJECT, JStr (ac_project rq)),
        (FIELD_BRANCH, JStr (ac_branch rq)), (FIELD_BUILD_CMD, JStr (ac_build_cmd rq))]"

definition create_approval_api ::
    "py_env \<Rightarrow> 's sdk \<Rightarrow> clocks \<Rightarrow> bool \<Rightarrow> config option \<Rightarrow> approval_create \<Rightarrow> dingtalk option \<Rightarrow> 's \<Rightarrow>
     http \<times> dingtalk option \<times> 's" where
  "create_approval_api E sdk ck ready cfg rq dt_svc s =
     (if \<not> ready then (Unhandled RuntimeError, dt_svc, s)
      else
        (case (dt_svc, cfg) of
           (None, _) \<Rightarrow> (HttpError 503, dt_svc, s)
         | (_, None) \<Rightarrow> (HttpError 503, dt_svc, s)
         | (Some dt, Some config) \<Rightarrow>
             if \<not> py_truthy E (cf_dingtalk_approvers config) \<or> \<not> py_truthy E (cf_dingtalk_process_code config)
             then (HttpError 503, dt_svc, s)
             else
               (case create_approval E sdk ck (cf_dingtalk_originator config) (cf_dingtalk_process_code config)
                       (lit ''[JD-Relay] '' @ ac_issue rq @ DASH @ ac_project rq @ [47] @ ac_branch rq)
                       (approval_form rq) (cf_dingtalk_approvers config) dt s of
                  (Inl e, dt', s') \<Rightarrow> (HttpError 500, Some dt', s')
                | (Inr instance_id, dt', s') \<Rightarrow>
                    (Answer (JObj [(lit ''status'', JStr (lit ''ok'')), (lit ''process_instance_id'', JStr instance_id),
                                   (lit ''message'', JStr (lit ''Approval initiated''))]), Some dt', s'))))"

end
