(* ===== verification/DingTalk_Api_Facts.thy ===== *)
theory DingTalk_Api_Facts
  imports DingTalk_Api
begin

text \<open>
  What DingTalk callbacks do to the work orders: the tables after a callback as a step of the state machine, the signature as the
  only guard, and the cases in which an approval gets lost.
\<close>

section \<open>The session and the database\<close>

lemma one_or_none_iff [outcome_iff]:
  "one_or_none r = Inr None \<longleftrightarrow> r = Inr []"
  "one_or_none r = Inr (Some x) \<longleftrightarrow> r = Inr [x]"
proof -
  have "one_or_none r = Inr None \<longleftrightarrow> r = Inr []" for r :: "'a list res"
    by (cases r; rule remdups_adj.cases [of "projr r"]) (auto simp: one_or_none_def)
  moreover have "one_or_none r = Inr (Some x) \<longleftrightarrow> r = Inr [x]"
    by (cases r; rule remdups_adj.cases [of "projr r"]) (auto simp: one_or_none_def)
  ultimately show "one_or_none r = Inr None \<longleftrightarrow> r = Inr []" "one_or_none r = Inr (Some x) \<longleftrightarrow> r = Inr [x]" by auto
qed

lemma session_commit_effect:
  assumes "db_ok tb D" and "session_commit D now se = (r, se')" and "se_changes se \<noteq> []"
  shows "tb (se_db se') = fold (apply_change now) (se_changes se) (tb (se_db se)) \<or>
    (\<exists>e. r = Inl e) \<and> tb (se_db se') = tb (se_db se)"
  using assms by (auto simp: session_commit_def db_ok_def split: prod.splits) blast+

lemma order_answer_one:
  assumes "db_ok tb D" and "sql_orders D (ByOrderNo b) db = Inr [wo]"
  shows "wo \<in> set (tb_orders (tb db)) \<and> sql_eq D (or_order_no wo) b"
proof -
  have "orders_answer (sql_eq D) (ByOrderNo b) (tb_orders (tb db)) [wo]"
    using assms by (auto simp: db_ok_def)
  then have "mset [wo] = mset (filter (order_matches (sql_eq D) (ByOrderNo b)) (tb_orders (tb db)))"
    by (auto simp: orders_answer_def page_cut_def)
  then have "set [wo] = set (filter (order_matches (sql_eq D) (ByOrderNo b)) (tb_orders (tb db)))"
    by (rule mset_eq_setD)
  then show ?thesis by (auto simp: order_matches_def)
qed

text \<open>The pending approvals of an order.\<close>

definition pending :: "'db sql \<Rightarrow> int \<Rightarrow> tables \<Rightarrow> approval_row set" where
  "pending D i t = {p \<in> set (tb_approvals t). pr_work_order_id p = i \<and> sql_eq D (pr_status p) (JStr (lit ''PENDING''))}"

lemma approvals_answer_pending:
  assumes "db_ok tb D" and "sql_approvals D i (Some (lit ''PENDING'')) db = Inr ps"
  shows "set ps = pending D i (tb db)"
proof -
  have "approvals_answer (sql_eq D) i (Some (lit ''PENDING'')) (tb_approvals (tb db)) ps"
    using assms by (auto simp: db_ok_def)
  then have "mset ps = mset (filter (\<lambda>p. pr_work_order_id p = i \<and> sql_eq D (pr_status p) (JStr (lit ''PENDING''))) (tb_approvals (tb db)))"
    by (simp add: approvals_answer_def)
  from mset_eq_setD [OF this] show ?thesis by (auto simp: pending_def)
qed

lemma read_order_Some:
  "read_order D b db = Inr (Some (wo, ap)) \<longleftrightarrow>
    sql_orders D (ByOrderNo b) db = Inr [wo] \<and>
    sql_approvals D (or_id wo) (Some (lit ''PENDING'')) db = Inr (case ap of None \<Rightarrow> [] | Some p \<Rightarrow> [p])"
  by (cases ap) (auto simp: read_order_def outcome_iff split: option.splits)

section \<open>A step of a work order\<close>

text \<open>The tables after a decided approval: one order takes the step of the state machine that the result and the kind of review ask
  for, its pending approval (if it has one) is marked, nothing else changes.\<close>

definition set_order :: "datetime \<Rightarrow> int \<Rightarrow> WorkOrderState \<Rightarrow> tables \<Rightarrow> tables" where
  "set_order now i s t =
     t\<lparr>tb_orders := map (\<lambda>r. if or_id r = i then r\<lparr>or_state := state_value s, or_updated_at := now\<rparr> else r) (tb_orders t)\<rparr>"

definition set_approval :: "datetime \<Rightarrow> int \<Rightarrow> pystr \<Rightarrow> tables \<Rightarrow> tables" where
  "set_approval now i st t =
     t\<lparr>tb_approvals := map (\<lambda>p. if pr_id p = i then p\<lparr>pr_status := st, pr_responded_at := Some now\<rparr> else p) (tb_approvals t)\<rparr>"

definition order_step :: "'db sql \<Rightarrow> datetime \<times> datetime \<Rightarrow> json \<Rightarrow> json \<Rightarrow> tables \<Rightarrow> tables \<Rightarrow> bool" where
  "order_step D now biz_id result t t' \<longleftrightarrow>
     (\<exists>wo \<in> set (tb_orders t). \<exists>s u. sql_eq D (or_order_no wo) biz_id \<and> or_state wo = state_value s \<and> transition s u = Inr u \<and>
        (pending D (or_id wo) t = {} \<and> u = approval_target result (lit ''first'') \<and> t' = set_order (snd now) (or_id wo) u t \<or>
         (\<exists>p. pending D (or_id wo) t = {p} \<and> u = approval_target result (pr_review_type p) \<and>
            t' = set_order (snd now) (or_id wo) u (set_approval (fst now) (pr_id p) (approval_status result) t))))"

lemma handle_effect:
  assumes ok: "db_ok tb D" and run: "handle_approval_finish D now biz_id result \<lparr>se_db = db, se_changes = []\<rparr> = (r, se')"
  shows "tb (se_db se') = tb db \<or> order_step D now biz_id result (tb db) (tb (se_db se'))"
proof (cases "read_order D biz_id db")
  case (Inr x)
  show ?thesis
  proof (cases x)
    case (Some y)
    obtain wo ap where y: "y = (wo, ap)" by (cases y)
    let ?rev = "case ap of None \<Rightarrow> lit ''first'' | Some p \<Rightarrow> pr_review_type p"
    have q: "sql_orders D (ByOrderNo biz_id) db = Inr [wo]"
      and ps: "sql_approvals D (or_id wo) (Some (lit ''PENDING'')) db = Inr (case ap of None \<Rightarrow> [] | Some p \<Rightarrow> [p])"
      using Inr unfolding Some y read_order_Some by simp_all
    have wo: "wo \<in> set (tb_orders (tb db))" "sql_eq D (or_order_no wo) biz_id"
      using order_answer_one [OF ok q] by simp_all
    have pd: "pending D (or_id wo) (tb db) = set (case ap of None \<Rightarrow> [] | Some p \<Rightarrow> [p])"
      using approvals_answer_pending [OF ok ps] by simp
    let ?se = "mark_approval result (fst now) ap \<lparr>se_db = db, se_changes = []\<rparr>"
    have db: "se_db ?se = db" by (simp add: mark_approval_def session_change_def split: option.split)
    show ?thesis
    proof (cases "parse_state (or_state wo)")
      case Inl
      then show ?thesis using run Inr db by (simp add: Some y handle_approval_finish_def)
    next
      case st: (Inr s)
      let ?u = "approval_target result ?rev"
      show ?thesis
      proof (cases "transition s ?u")
        case Inl
        then show ?thesis using run Inr st db by (auto simp: Some y handle_approval_finish_def session_rollback_def)
      next
        case tr: (Inr v)
        then have v: "v = ?u" by (simp add: transition_eq_Inr_iff)
        let ?se2 = "session_change (SetOrderState (or_id wo) (state_value ?u)) ?se"
        have c: "session_commit D (snd now) ?se2 = (r, se')"
          using run Inr st tr by (simp add: Some y handle_approval_finish_def v)
        have f: "fold (apply_change (snd now)) (se_changes ?se2) (tb db) =
            (case ap of None \<Rightarrow> set_order (snd now) (or_id wo) ?u (tb db)
             | Some p \<Rightarrow> set_order (snd now) (or_id wo) ?u (set_approval (fst now) (pr_id p) (approval_status result) (tb db)))"
          by (simp add: mark_approval_def session_change_def apply_change_def set_order_def set_approval_def split: option.split)
        have n: "se_changes ?se2 \<noteq> []" "se_db ?se2 = db" using db by (simp_all add: session_change_def)
        have "order_step D now biz_id result (tb db) (fold (apply_change (snd now)) (se_changes ?se2) (tb db))"
          unfolding order_step_def f using wo parse_state_Inr [OF st] tr pd v
          by (intro bexI [of _ wo] exI [of _ s] exI [of _ ?u]) (auto split: option.split)
        then show ?thesis using session_commit_effect [OF ok c n(1)] n(2) by metis
      qed
    qed
  qed (use run Inr in \<open>auto simp: handle_approval_finish_def\<close>)
qed (use run in \<open>auto simp: handle_approval_finish_def\<close>)

section \<open>The callback\<close>

text \<open>A body that reports the end of an approval, with its work order and its result.\<close>

definition finish_event :: "bytes \<Rightarrow> json \<Rightarrow> json \<Rightarrow> bool" where
  "finish_event body biz_id result \<longleftrightarrow>
     (\<exists>kvs. loads_bytes body = Inr (JObj kvs) \<and> map_of kvs (lit ''type'') = Some (JStr (lit ''FINISH'')) \<and>
        map_of kvs (lit ''businessId'') = Some biz_id \<and> jget kvs (lit ''result'') (JStr []) = result)"

definition verified :: "py_env \<Rightarrow> dingtalk option \<Rightarrow> int \<Rightarrow> callback_request \<Rightarrow> bool" where
  "verified E dt_svc now_ms rq \<longleftrightarrow>
     (\<forall>dt. dt_svc = Some dt \<longrightarrow>
        verify_signature E dt now_ms (header (cb_timestamp rq)) (header (cb_nonce rq)) (header (cb_sign rq)) = Inr True)"

lemma callback_authentic_iff [outcome_iff]: "callback_authentic E dt_svc now_ms rq = Inr () \<longleftrightarrow> verified E dt_svc now_ms rq"
  by (auto simp: callback_authentic_def verified_def split: option.splits sum.splits bool.splits)

lemma callback_finish:
  assumes "verified E dt_svc now_ms rq" and "finish_event (cb_body rq) biz_id result" and "py_truthy E biz_id"
    and "handle_approval_finish D utcnow biz_id result \<lparr>se_db = db, se_changes = []\<rparr> = (r, se')"
  shows "dingtalk_callback E D True dt_svc now_ms utcnow rq db =
    (case r of Inl e \<Rightarrow> Unhandled e | Inr _ \<Rightarrow> SUCCESS_ANSWER, se_db se')"
proof -
  obtain kvs where k: "loads_bytes (cb_body rq) = Inr (JObj kvs)" "map_of kvs (lit ''type'') = Some (JStr (lit ''FINISH''))"
    "map_of kvs (lit ''businessId'') = Some biz_id" "jget kvs (lit ''result'') (JStr []) = result"
    using assms(2) by (auto simp: finish_event_def)
  have j: "jget kvs (lit ''type'') (JStr []) = JStr (lit ''FINISH'')" "jget kvs (lit ''businessId'') (JStr []) = biz_id"
    using k by (simp_all add: jget_def)
  have a: "callback_authentic E dt_svc now_ms rq = Inr ()"
    using assms(1) by (simp add: callback_authentic_iff)
  show ?thesis
    using assms(3,4) k(1,4) j
    by (cases r) (auto simp: dingtalk_callback_def get_db_session_def callback_body_def a callback_event_def session_rollback_def)
qed

lemma finish_completes:
  assumes "db_ok tb D" and "sql_orders D (ByOrderNo biz_id) db = Inr [wo]" and "or_state wo = state_value s"
    and "sql_approvals D (or_id wo) (Some (lit ''PENDING'')) db = Inr [p]"
    and "can_transition s (approval_target result (pr_review_type p))"
    and "\<forall>f. fst (sql_commit D f db) = Inr ()"
  shows "\<exists>se'. handle_approval_finish D now biz_id result \<lparr>se_db = db, se_changes = []\<rparr> = (Inr (), se') \<and>
    tb (se_db se') = set_order (snd now) (or_id wo) (approval_target result (pr_review_type p))
      (set_approval (fst now) (pr_id p) (approval_status result) (tb db))"
proof -
  let ?u = "approval_target result (pr_review_type p)"
  let ?se = "\<lparr>se_db = db, se_changes = [SetApproval (pr_id p) (approval_status result) (fst now), SetOrderState (or_id wo) (state_value ?u)]\<rparr>"
  have ro: "read_order D biz_id db = Inr (Some (wo, Some p))"
    using assms(2,4) by (simp add: read_order_Some)
  obtain r se' where c: "session_commit D (snd now) ?se = (r, se')" by (cases "session_commit D (snd now) ?se")
  have r: "r = Inr ()"
    using c assms(6) by (auto simp: session_commit_def split: prod.splits) (metis fst_conv)
  have h: "handle_approval_finish D now biz_id result \<lparr>se_db = db, se_changes = []\<rparr> = (Inr (), se')"
    using c assms(5) by (simp add: handle_approval_finish_def ro mark_approval_def session_change_def assms(3) transition_def r)
  have "tb (se_db se') = fold (apply_change (snd now)) (se_changes ?se) (tb db)"
    using session_commit_effect [OF assms(1) c] r by auto
  then show ?thesis using h by (simp add: apply_change_def set_order_def set_approval_def)
qed

lemma callback_effect:
  assumes "db_ok tb D" and "dingtalk_callback E D ready dt_svc now_ms utcnow rq db = (answer, db')"
  shows "tb db' = tb db \<or>
    (ready \<and> verified E dt_svc now_ms rq \<and>
     (\<exists>biz_id result. finish_event (cb_body rq) biz_id result \<and> order_step D utcnow biz_id result (tb db) (tb db')))"
proof (cases "ready \<and> verified E dt_svc now_ms rq \<and> (\<exists>kvs. loads_bytes (cb_body rq) = Inr (JObj kvs) \<and>
    jget kvs (lit ''type'') (JStr []) = JStr (lit ''FINISH'') \<and> py_truthy E (jget kvs (lit ''businessId'') (JStr [])))")
  case True
  then obtain kvs where k: "loads_bytes (cb_body rq) = Inr (JObj kvs)" "jget kvs (lit ''type'') (JStr []) = JStr (lit ''FINISH'')"
    "py_truthy E (jget kvs (lit ''businessId'') (JStr []))" and v: "ready" "verified E dt_svc now_ms rq" by blast
  let ?b = "jget kvs (lit ''businessId'') (JStr [])" and ?r = "jget kvs (lit ''result'') (JStr [])"
  have f: "finish_event (cb_body rq) ?b ?r"
    using k by (auto simp: finish_event_def jget_def py_truthy_def split: option.splits)
  obtain r se' where h: "handle_approval_finish D utcnow ?b ?r \<lparr>se_db = db, se_changes = []\<rparr> = (r, se')" by fastforce
  have "db' = se_db se'" using assms(2) callback_finish [OF v(2) f k(3) h] v(1) by simp
  then show ?thesis using handle_effect [OF assms(1) h] v f by auto
next
  case False
  have "db' = db"
    using assms(2) False
    by (auto simp: dingtalk_callback_def get_db_session_def callback_body_def callback_event_def session_rollback_def
        outcome_iff Let_def split: sum.splits if_splits json.splits)
  then show ?thesis by simp
qed

text \<open>One work order, its approvals of the second review, and a callback that agrees.\<close>

definition toy_row :: "WorkOrderState \<Rightarrow> order_row" where
  "toy_row st =
     \<lparr>or_id = 1, or_order_no = lit ''WO-1'', or_issue = lit ''J-1'', or_project = lit ''p'', or_branch = lit ''main'', or_build_cmd = [],
      or_state = state_value st, or_created_at = toy_time 5, or_updated_at = toy_time 5, or_created_by = []\<rparr>"

definition toy_approval :: "int \<Rightarrow> approval_row" where
  "toy_approval i =
     \<lparr>pr_id = i, pr_work_order_id = 1, pr_approver = lit ''a'', pr_status = lit ''PENDING'', pr_comment = [],
      pr_review_type = lit ''second'', pr_created_at = toy_time (nat i), pr_responded_at = None\<rparr>"

definition toy_tables :: "WorkOrderState \<Rightarrow> approval_row list \<Rightarrow> tables" where
  "toy_tables st ps = \<lparr>tb_orders = [toy_row st], tb_approvals = ps, tb_results = [], tb_agents = []\<rparr>"

definition toy_event :: "string \<Rightarrow> json" where
  "toy_event result =
     JObj [(lit ''type'', JStr (lit ''FINISH'')), (lit ''result'', JStr (lit result)), (lit ''businessId'', JStr (lit ''WO-1''))]"

definition toy_decision :: "string \<Rightarrow> callback_request" where
  "toy_decision result =
     \<lparr>cb_body = map of_nat (dumps_default (toy_event result)), cb_timestamp = None, cb_nonce = None, cb_sign = None\<rparr>"

abbreviation toy_callback :: callback_request where
  "toy_callback \<equiv> toy_decision ''agree''"

lemma toy_decision_event:
  assumes "result = ''agree'' \<or> result = ''refuse''"
  shows "finish_event (cb_body (toy_decision result)) (JStr (lit ''WO-1'')) (JStr (lit result))"
proof -
  have ok: "json_ok True (toy_event result)" using assms by (auto simp: toy_event_def)
  have a: "\<forall>c \<in> set (dumps_default (toy_event result)). c < 128"
    unfolding dumps_default_def by (rule dumps_ascii [OF _ _ ok]) (simp_all add: lit_def)
  have z: "0 \<notin> set (dumps_default (toy_event result))" "hd (dumps_default (toy_event result)) \<noteq> 0xFEFF"
    using assms by (auto simp: dumps_default_def toy_event_def json_quote_def json_escape_def lit_def)
  have "loads_bytes (map of_nat (dumps_default (toy_event result))) = loads (dumps_default (toy_event result))"
    by (rule loads_bytes_utf8 [OF utf8_encode_ascii [OF a] z(1)]) (simp add: z(2))
  then show ?thesis by (simp add: finish_event_def toy_decision_def loads_dumps_default [OF ok]) (simp add: toy_event_def jget_def)
qed

lemmas toy_callback_event = toy_decision_event [of "''agree''", simplified]

lemma toy_queries:
  "sql_orders toy_sql (ByOrderNo (JStr (lit ''WO-1''))) (toy_tables st ps) = Inr [toy_row st]"
  "sql_approvals toy_sql 1 (Some (lit ''PENDING'')) (toy_tables st [toy_approval i]) = Inr [toy_approval i]"
  "sql_approvals toy_sql 1 (Some (lit ''PENDING'')) (toy_tables st []) = Inr []"
  "sql_approvals toy_sql 1 (Some (lit ''PENDING'')) (toy_tables st [toy_approval 1, toy_approval 2]) = Inr [toy_approval 2, toy_approval 1]"
  by (simp_all add: toy_sql_def toy_tables_def toy_row_def toy_approval_def order_matches_def toy_eq_def page_cut_def)

section \<open>Properties\<close>

text \<open>C3. A callback takes a work order only along the state machine: whatever the request and whatever the database holds, either
  the tables stay as they are, or the request was signed (or no DingTalk service is configured), its body is a FINISH event, and exactly the one work order it names has
  made the transition that the result and its pending review ask for, with its pending approval marked accordingly.\<close>

theorem callback_follows_machine:
  assumes "db_ok tb D" and "dingtalk_callback E D ready dt_svc now_ms utcnow rq db = (answer, db')"
  shows "tb db' = tb db \<or>
    (ready \<and> verified E dt_svc now_ms rq \<and>
     (\<exists>biz_id result. finish_event (cb_body rq) biz_id result \<and> order_step D utcnow biz_id result (tb db) (tb db')))"
  by (rule callback_effect [OF assms])

theorem callback_follows_machine_witness:
  "\<exists>answer db'. dingtalk_callback toy_env toy_sql True None 0 toy_times toy_callback (toy_tables PENDING_APPROVAL [toy_approval 1]) = (answer, db') \<and>
     (db' = toy_tables PENDING_APPROVAL [toy_approval 1] \<or>
      (\<exists>biz_id result. finish_event (cb_body toy_callback) biz_id result \<and>
        order_step toy_sql toy_times biz_id result (toy_tables PENDING_APPROVAL [toy_approval 1]) db'))"
proof -
  obtain answer db' where r: "dingtalk_callback toy_env toy_sql True None 0 toy_times toy_callback (toy_tables PENDING_APPROVAL [toy_approval 1]) = (answer, db')"
    by fastforce
  show ?thesis using callback_follows_machine [OF toy_sql_ok r] r by auto
qed

text \<open>C13. A captured signature authorises any body: the signature covers the timestamp and the nonce only and no nonce is remembered, so the
  three headers of one genuine callback, sent again within five minutes with a body of anybody's making, decide the pending review of
  whatever work order that body names: the request is answered with success and the order takes the transition.\<close>

theorem captured_signature_decides_any_order:
  assumes "db_ok tb D" and "verify_signature E dt t1 (header (cb_timestamp rq)) (header (cb_nonce rq)) (header (cb_sign rq)) = Inr True"
    and "int_parse (header (cb_timestamp rq)) = Inr ts_ms" and "\<bar>t2 - ts_ms\<bar> \<le> 300000"
    and "finish_event forged biz_id result" and "py_truthy E biz_id"
    and "sql_orders D (ByOrderNo biz_id) db = Inr [wo]" and "or_state wo = state_value s"
    and "sql_approvals D (or_id wo) (Some (lit ''PENDING'')) db = Inr [p]"
    and "can_transition s (approval_target result (pr_review_type p))" and "\<forall>f. fst (sql_commit D f db) = Inr ()"
  shows "\<exists>db'. dingtalk_callback E D True (Some dt) t2 utcnow (rq\<lparr>cb_body := forged\<rparr>) db = (SUCCESS_ANSWER, db') \<and>
    tb db' = set_order (snd utcnow) (or_id wo) (approval_target result (pr_review_type p))
      (set_approval (fst utcnow) (pr_id p) (approval_status result) (tb db))"
proof -
  have "verified E (Some dt) t2 (rq\<lparr>cb_body := forged\<rparr>)"
    using assms(2-4) by (simp add: verified_def verify_signature_iff) blast
  moreover have "finish_event (cb_body (rq\<lparr>cb_body := forged\<rparr>)) biz_id result" using assms(5) by simp
  moreover obtain se' where h: "handle_approval_finish D utcnow biz_id result \<lparr>se_db = db, se_changes = []\<rparr> = (Inr (), se')"
    and t: "tb (se_db se') = set_order (snd utcnow) (or_id wo) (approval_target result (pr_review_type p))
      (set_approval (fst utcnow) (pr_id p) (approval_status result) (tb db))"
    using finish_completes [OF assms(1,7-11), of utcnow] by blast
  ultimately show ?thesis using callback_finish [OF _ _ assms(6) h] t by auto
qed

theorem captured_signature_decides_any_order_witness:
  "\<exists>rq db'. verify_signature toy_env toy_dt 1000 (header (cb_timestamp rq)) (header (cb_nonce rq)) (header (cb_sign rq)) = Inr True \<and>
     dingtalk_callback toy_env toy_sql True (Some toy_dt) 2000 toy_times (rq\<lparr>cb_body := cb_body toy_callback\<rparr>)
       (toy_tables PENDING_SECOND_REVIEW [toy_approval 1]) = (SUCCESS_ANSWER, db') \<and>
     map or_state (tb_orders db') = [state_value SECOND_APPROVED]"
proof -
  obtain key where key: "utf8_encode (lit ''secret'') = Inr key"
    using utf8_encode_ascii [of "lit ''secret''"] by (simp add: lit_def)
  obtain msg where msg: "utf8_encode (signing_text (lit ''1000'') []) = Inr msg"
    using utf8_encode_ascii [of "signing_text (lit ''1000'') []"] by (simp add: lit_def signing_text_def)
  define rq where "rq = \<lparr>cb_body = [], cb_timestamp = Some (lit ''1000''), cb_nonce = None,
    cb_sign = Some (std_b64encode (hmac_sha256 key msg))\<rparr>"
  have n: "int_parse (lit ''1000'') = Inr 1000"
    using int_parse_digits [of "lit ''1000''"] by (simp add: MAX_DIGITS_def lit_def dec_value_def is_digit_def)
  have n2: "int_parse (header (cb_timestamp rq)) = Inr 1000" by (simp add: rq_def header_def n)
  have q: "sql_approvals toy_sql (or_id (toy_row PENDING_SECOND_REVIEW)) (Some (lit ''PENDING''))
      (toy_tables PENDING_SECOND_REVIEW [toy_approval 1]) = Inr [toy_approval 1]"
    using toy_queries(2) [of PENDING_SECOND_REVIEW 1] by (simp add: toy_row_def)
  have v: "verify_signature toy_env toy_dt 1000 (header (cb_timestamp rq)) (header (cb_nonce rq)) (header (cb_sign rq)) = Inr True"
    unfolding verify_signature_iff using n key msg by (simp add: rq_def header_def toy_dt_def new_dingtalk_def)
  have "\<exists>db'. dingtalk_callback toy_env toy_sql True (Some toy_dt) 2000 toy_times (rq\<lparr>cb_body := cb_body toy_callback\<rparr>)
      (toy_tables PENDING_SECOND_REVIEW [toy_approval 1]) = (SUCCESS_ANSWER, db') \<and>
    id db' = set_order (snd toy_times) (or_id (toy_row PENDING_SECOND_REVIEW)) (approval_target (JStr (lit ''agree'')) (pr_review_type (toy_approval 1)))
      (set_approval (fst toy_times) (pr_id (toy_approval 1)) (approval_status (JStr (lit ''agree''))) (id (toy_tables PENDING_SECOND_REVIEW [toy_approval 1])))"
    by (rule captured_signature_decides_any_order [OF toy_sql_ok v n2 _ toy_callback_event _ toy_queries(1) _ q, where s = PENDING_SECOND_REVIEW])
      (simp_all add: py_truthy_def toy_row_def toy_approval_def approval_target_def can_to toy_sql_def)
  then show ?thesis using v
    by (auto simp: set_order_def set_approval_def toy_tables_def toy_row_def toy_approval_def approval_target_def intro!: exI [of _ rq])
qed

text \<open>C36. An approval without exactly one pending record is lost: for a work order in its second review, a FINISH callback of either result
  changes nothing and is still answered with success when there is no pending record; with several pending records (the
  code asks for the latest) every callback raises and changes nothing.\<close>

theorem decision_needs_one_record:
  assumes "verified E dt_svc now_ms rq" and "finish_event (cb_body rq) biz_id result" and "py_truthy E biz_id"
    and "sql_orders D (ByOrderNo biz_id) db = Inr [wo]" and "sql_approvals D (or_id wo) (Some (lit ''PENDING'')) db = Inr ps"
    and "or_state wo = state_value PENDING_SECOND_REVIEW" and "length ps \<noteq> 1"
  shows "dingtalk_callback E D True dt_svc now_ms utcnow rq db =
    (if ps = [] then SUCCESS_ANSWER else Unhandled LibError, db)"
proof (cases ps)
  case Nil
  have "read_order D biz_id db = Inr (Some (wo, None))" using assms(4,5) Nil by (simp add: read_order_Some)
  moreover have "parse_state (or_state wo) = Inr PENDING_SECOND_REVIEW" by (simp only: assms(6) parse_state_value)
  ultimately have "handle_approval_finish D utcnow biz_id result \<lparr>se_db = db, se_changes = []\<rparr> = (Inr (), \<lparr>se_db = db, se_changes = []\<rparr>)"
    by (simp add: handle_approval_finish_def mark_approval_def transition_def approval_target_def can_to session_rollback_def Let_def)
  from callback_finish [OF assms(1-3) this] Nil show ?thesis by simp
next
  case (Cons p qs)
  have "read_order D biz_id db = Inl LibError"
    using assms(4,5,7) Cons by (cases qs) (auto simp: read_order_def one_or_none_def)
  then have "handle_approval_finish D utcnow biz_id result \<lparr>se_db = db, se_changes = []\<rparr> = (Inl LibError, \<lparr>se_db = db, se_changes = []\<rparr>)"
    by (simp add: handle_approval_finish_def)
  from callback_finish [OF assms(1-3) this] Cons show ?thesis by simp
qed

theorem decision_needs_one_record_witness:
  "dingtalk_callback toy_env toy_sql True None 0 toy_times toy_callback (toy_tables PENDING_SECOND_REVIEW []) =
     (SUCCESS_ANSWER, toy_tables PENDING_SECOND_REVIEW []) \<and>
   dingtalk_callback toy_env toy_sql True None 0 toy_times toy_callback (toy_tables PENDING_SECOND_REVIEW [toy_approval 1, toy_approval 2]) =
     (Unhandled LibError, toy_tables PENDING_SECOND_REVIEW [toy_approval 1, toy_approval 2])"
proof -
  have q: "sql_approvals toy_sql (or_id (toy_row st)) (Some (lit ''PENDING'')) (toy_tables st ps) =
      sql_approvals toy_sql 1 (Some (lit ''PENDING'')) (toy_tables st ps)" for st ps
    by (simp add: toy_row_def)
  have v: "verified toy_env None 0 toy_callback" and b: "py_truthy toy_env (JStr (lit ''WO-1''))"
    by (simp_all add: verified_def py_truthy_def)
  have s: "or_state (toy_row PENDING_SECOND_REVIEW) = state_value PENDING_SECOND_REVIEW" by (simp add: toy_row_def)
  show ?thesis
    using decision_needs_one_record [OF v toy_callback_event b toy_queries(1) _ s, unfolded q, OF toy_queries(3), of toy_times]
      decision_needs_one_record [OF v toy_callback_event b toy_queries(1) _ s, unfolded q, OF toy_queries(4), of toy_times]
    by simp
qed

end
