(* ===== verification/Admin_Api.thy ===== *)
theory Admin_Api
  imports Relay_Db Relay_Service Forwarder_Server
begin

text \<open>
  forwarder/app/api/admin.py: the four endpoints of the administration panel, with their answers as JSON. The texts of
  \<open>str.upper\<close> are those of \<open>py_upper\<close> (exact for ASCII texts). The sets and dicts of \<open>list_agents\<close> are lists in the order of
  insertion. Pydantic's validation is written out where it can refuse (\<open>AgentSummary\<close>); the fields of the order classes are filled from columns of the
  same types that are never null where the class has no \<open>None\<close>, so there it accepts what it is given.
\<close>

section \<open>Answers\<close>

definition fmt_dt :: "datetime option \<Rightarrow> pystr option" where
  "fmt_dt d = map_option isoformat d"

definition opt_str :: "pystr option \<Rightarrow> json" where
  "opt_str s = (case s of None \<Rightarrow> JNull | Some t \<Rightarrow> JStr t)"

definition opt_int :: "int option \<Rightarrow> json" where
  "opt_int i = (case i of None \<Rightarrow> JNull | Some n \<Rightarrow> JInt n)"

text \<open>\<open>_fmt_dt(d) or ""\<close> of a date that is not null.\<close>

definition date_text :: "datetime \<Rightarrow> json" where
  "date_text d = JStr (case fmt_dt (Some d) of None \<Rightarrow> [] | Some s \<Rightarrow> s)"

definition order_summary :: "order_row \<Rightarrow> json" where
  "order_summary r =
     JObj [(lit ''id'', JInt (or_id r)), (lit ''order_no'', JStr (or_order_no r)), (lit ''issue'', JStr (or_issue r)),
           (lit ''project'', JStr (or_project r)), (lit ''branch'', JStr (or_branch r)), (lit ''state'', JStr (or_state r)),
           (lit ''created_at'', date_text (or_created_at r)), (lit ''created_by'', JStr (or_created_by r))]"

definition approval_summary :: "approval_row \<Rightarrow> json" where
  "approval_summary a =
     JObj [(lit ''id'', JInt (pr_id a)), (lit ''approver'', JStr (pr_approver a)), (lit ''status'', JStr (pr_status a)),
           (lit ''review_type'', JStr (pr_review_type a)), (lit ''created_at'', date_text (pr_created_at a)),
           (lit ''responded_at'', opt_str (fmt_dt (pr_responded_at a)))]"

definition result_summary :: "result_row \<Rightarrow> json" where
  "result_summary b =
     JObj [(lit ''id'', JInt (br_id b)), (lit ''build_number'', opt_int (br_build_number b)), (lit ''status'', JStr (br_status b)),
           (lit ''log_url'', JStr (br_log_url b)), (lit ''duration_seconds'', opt_int (br_duration_seconds b)),
           (lit ''finished_at'', opt_str (fmt_dt (br_finished_at b)))]"

definition order_detail :: "order_row \<Rightarrow> approval_row list \<Rightarrow> result_row list \<Rightarrow> json" where
  "order_detail r approvals results =
     JObj [(lit ''id'', JInt (or_id r)), (lit ''order_no'', JStr (or_order_no r)), (lit ''issue'', JStr (or_issue r)),
           (lit ''project'', JStr (or_project r)), (lit ''branch'', JStr (or_branch r)), (lit ''build_cmd'', JStr (or_build_cmd r)),
           (lit ''state'', JStr (or_state r)), (lit ''created_at'', date_text (or_created_at r)),
           (lit ''updated_at'', date_text (or_updated_at r)), (lit ''created_by'', JStr (or_created_by r)),
           (lit ''approvals'', JArr (map approval_summary approvals)), (lit ''build_results'', JArr (map result_summary results))]"

text \<open>\<open>AgentSummary(...)\<close>: pydantic refuses an id that is not a text and projects that are not a list of texts.\<close>

definition agent_summary :: "json \<Rightarrow> json \<Rightarrow> bool \<Rightarrow> pystr option \<Rightarrow> pystr option \<Rightarrow> json res" where
  "agent_summary agent_id projects is_online connected_at last_seen_at =
     (case (agent_id, projects) of
        (JStr _, JArr ps) \<Rightarrow>
          if \<forall>p \<in> set ps. case p of JStr _ \<Rightarrow> True | _ \<Rightarrow> False then
            Inr (JObj [(lit ''agent_id'', agent_id), (lit ''projects'', projects), (lit ''is_online'', JBool is_online),
                       (lit ''connected_at'', opt_str connected_at), (lit ''last_seen_at'', opt_str last_seen_at)])
          else Inl ValueError
      | _ \<Rightarrow> Inl ValueError)"

section \<open>Work orders\<close>

record order_query =
  oq_state :: "pystr option"
  oq_project :: "pystr option"
  oq_limit :: int
  oq_offset :: int

text \<open>An empty filter is no filter.\<close>

definition given :: "pystr option \<Rightarrow> pystr option" where
  "given s = (case s of None \<Rightarrow> None | Some t \<Rightarrow> if t = [] then None else Some t)"

definition page_of :: "order_query \<Rightarrow> order_where" where
  "page_of q = Page (map_option py_upper (given (oq_state q))) (given (oq_project q)) (oq_limit q) (oq_offset q)"

definition answer_of :: "http res \<times> 'db \<Rightarrow> http" where
  "answer_of = (\<lambda>(r, db). case r of Inl e \<Rightarrow> Unhandled e | Inr h \<Rightarrow> h)"

definition list_orders :: "'db sql \<Rightarrow> bool \<Rightarrow> order_query \<Rightarrow> 'db \<Rightarrow> http" where
  "list_orders D ready q db =
     answer_of (get_db_session ready
       (\<lambda>se. if oq_limit q < 1 \<or> oq_limit q > 200 \<or> oq_offset q < 0 then (Inr (HttpError 422), se)
             else (rbind (sql_orders D (page_of q) (se_db se)) (\<lambda>orders. Inr (Answer (JArr (map order_summary orders)))), se)) db)"

definition get_order :: "'db sql \<Rightarrow> bool \<Rightarrow> int \<Rightarrow> 'db \<Rightarrow> http" where
  "get_order D ready order_id db =
     answer_of (get_db_session ready
       (\<lambda>se. (rbind (one_or_none (sql_orders D (ById order_id) (se_db se))) (\<lambda>order.
                (case order of
                   None \<Rightarrow> Inr (HttpError 404)
                 | Some r \<Rightarrow>
                     rbind (sql_approvals D (or_id r) None (se_db se)) (\<lambda>approvals.
                     rbind (sql_results D (or_id r) (se_db se)) (\<lambda>results.
                       Inr (Answer (order_detail r approvals results)))))), se)) db)"

section \<open>Agents\<close>

text \<open>The loop over \<open>await manager.list_agents()\<close>, which expects dicts.\<close>

definition item_get :: "json \<Rightarrow> pystr \<Rightarrow> json \<Rightarrow> json res" where
  "item_get v k d = (case v of JObj kvs \<Rightarrow> Inr (jget kvs k d) | _ \<Rightarrow> Inl AttributeError)"

fun live_agents :: "json list \<Rightarrow> (json, json) dict \<Rightarrow> (json, json) dict res" where
  "live_agents [] online = Inr online"
| "live_agents (a # as) online =
     rbind (item_get a (lit ''agent_id'') (JStr [])) (\<lambda>agent_id.
     rbind (item_get a (lit ''projects'') (JArr [])) (\<lambda>projects.
       if hashable agent_id then live_agents as (AList.update agent_id projects online) else Inl TypeError))"

text \<open>\<open>online\<close> is both \<open>online_ids\<close> (its keys) and \<open>online_projects\<close>.\<close>

definition db_agent_summary :: "(json, json) dict \<Rightarrow> agent_row \<Rightarrow> json res" where
  "db_agent_summary online a =
     (let agent_id = JStr (ar_agent_id a);
          projects = (case loads (ar_projects a) of Inl _ \<Rightarrow> JArr [] | Inr v \<Rightarrow> v);
          is_online = (map_of online agent_id \<noteq> None)
      in agent_summary agent_id (case map_of online agent_id of None \<Rightarrow> projects | Some ps \<Rightarrow> ps) is_online
           (if is_online then fmt_dt (ar_connected_at a) else None) (fmt_dt (ar_last_seen_at a)))"

fun db_agent_summaries :: "(json, json) dict \<Rightarrow> agent_row list \<Rightarrow> json list res" where
  "db_agent_summaries online [] = Inr []"
| "db_agent_summaries online (a # as) =
     rbind (db_agent_summary online a) (\<lambda>s. rbind (db_agent_summaries online as) (\<lambda>ss. Inr (s # ss)))"

fun extra_agents :: "agent_row list \<Rightarrow> (json, json) dict \<Rightarrow> json list \<Rightarrow> json list res" where
  "extra_agents rows [] summaries = Inr summaries"
| "extra_agents rows ((agent_id, projects) # online) summaries =
     (if agent_id \<in> JStr ` ar_agent_id ` set rows then extra_agents rows online summaries
      else rbind (agent_summary agent_id projects True None None) (\<lambda>s. extra_agents rows online (s # summaries)))"

definition admin_list_agents :: "'db sql \<Rightarrow> bool \<Rightarrow> 'cb manager option \<Rightarrow> 'db \<Rightarrow> http" where
  "admin_list_agents D ready mgr db =
     answer_of (get_db_session ready
       (\<lambda>se. (rbind (case mgr of None \<Rightarrow> Inr [] | Some m \<Rightarrow> live_agents (list_agents m) []) (\<lambda>online.
              rbind (sql_agents D (se_db se)) (\<lambda>db_agents.
              rbind (db_agent_summaries online db_agents) (\<lambda>summaries.
              rbind (extra_agents db_agents online summaries) (\<lambda>ss. Inr (Answer (JArr ss)))))), se)) db)"

section \<open>Statistics\<close>

definition count_of :: "(pystr, nat) dict \<Rightarrow> pystr \<Rightarrow> nat" where
  "count_of d k = (case map_of d k of None \<Rightarrow> 0 | Some n \<Rightarrow> n)"

definition counts_dict :: "(pystr \<times> nat) list \<Rightarrow> (pystr, nat) dict" where
  "counts_dict rows = fold (\<lambda>(k, n) d. AList.update k n d) rows []"

definition stats_json :: "nat \<Rightarrow> nat \<Rightarrow> nat \<Rightarrow> nat \<Rightarrow> nat \<Rightarrow> nat \<Rightarrow> json" where
  "stats_json orders pd building success failures online =
     JObj [(lit ''total_orders'', JInt (int orders)), (lit ''pending_approval'', JInt (int pd)), (lit ''building'', JInt (int building)),
           (lit ''success'', JInt (int success)), (lit ''failed'', JInt (int failures)), (lit ''online_agents'', JInt (int online))]"

definition get_stats :: "'db sql \<Rightarrow> bool \<Rightarrow> 'cb manager option \<Rightarrow> 'db \<Rightarrow> http" where
  "get_stats D ready mgr db =
     answer_of (get_db_session ready
       (\<lambda>se. (rbind (sql_state_counts D (se_db se)) (\<lambda>rows.
                (let counts = counts_dict rows
                 in Inr (Answer (stats_json (sum_list (map snd counts))
                      (count_of counts (lit ''PENDING_APPROVAL'') + count_of counts (lit ''PENDING_SECOND_REVIEW''))
                      (count_of counts (lit ''BUILDING'')) (count_of counts (lit ''SUCCESS'')) (count_of counts (lit ''FAILED''))
                      (case mgr of None \<Rightarrow> 0 | Some m \<Rightarrow> count_agents m))))), se)) db)"

section \<open>Lemmas\<close>

text \<open>The agents' page: the manager's keys are hashable values, and no hashable value has a \<open>get\<close>.\<close>

lemma live_agents_fails: "hashable a \<Longrightarrow> live_agents (a # as) online = Inl AttributeError"
  by (cases a) (simp_all add: item_get_def hashable_def)

text \<open>The order of a page: with different creation times, newest first leaves one order.\<close>

lemma newest_first_unique:
  assumes "mset xs = mset ys" and "newest_first t xs" and "newest_first t ys" and "inj_on (\<lambda>x. dt_key (t x)) (set xs)"
  shows "xs = ys"
proof -
  let ?f = "\<lambda>x. - dt_key (t x)"
  have "sorted (map ?f xs)" "sorted (map ?f ys)"
    using assms(2,3) by (simp_all add: newest_first_def sorted_wrt_map)
  moreover have "mset (map ?f xs) = mset (map ?f ys)" using assms(1) by (metis mset_map)
  ultimately have "map ?f xs = map ?f ys" by (metis sorted_sort_id properties_for_sort)
  moreover have "set xs = set ys" using assms(1) by (rule mset_eq_setD)
  ultimately show ?thesis using assms(4) by (intro map_inj_on [of ?f]) (auto simp: inj_on_def)
qed

definition all_orders :: "'db sql \<Rightarrow> order_query \<Rightarrow> tables \<Rightarrow> order_row list" where
  "all_orders D q tbl =
     sort_key (\<lambda>r. - dt_key (or_created_at r)) (filter (order_matches (sql_eq D) (page_of q)) (tb_orders tbl))"

lemma page_rows:
  assumes "db_ok tb D" and "inj_on (\<lambda>r. dt_key (or_created_at r)) (set (tb_orders (tb db)))"
    and "sql_orders D (page_of q) db = Inr rows"
  shows "rows = take (nat (oq_limit q)) (drop (nat (oq_offset q)) (all_orders D q (tb db)))"
proof -
  have "orders_answer (sql_eq D) (page_of q) (tb_orders (tb db)) rows" using assms(1,3) by (auto simp: db_ok_def)
  then obtain xs where m: "mset xs = mset (filter (order_matches (sql_eq D) (page_of q)) (tb_orders (tb db)))"
    and r: "rows = page_cut (page_of q) xs" and n: "newest_first or_created_at xs"
    by (auto simp: orders_answer_def page_of_def)
  have "set xs \<subseteq> set (tb_orders (tb db))" using mset_eq_setD [OF m] by auto
  then have "xs = all_orders D q (tb db)"
    using m n newest_first_sort assms(2) unfolding all_orders_def
    by (intro newest_first_unique [of _ _ or_created_at]) (auto intro: inj_on_subset)
  then show ?thesis by (simp add: r page_cut_def page_of_def)
qed

lemma list_orders_answer:
  assumes "list_orders D True q db = Answer j"
  shows "\<exists>rows. sql_orders D (page_of q) db = Inr rows \<and> j = JArr (map order_summary rows)"
  using assms
  by (auto simp: list_orders_def answer_of_def get_db_session_def outcome_iff split: if_splits sum.splits)

lemma concat_pages: "concat (map (\<lambda>i. take k (drop (i * k) xs)) [0..<n]) = take (n * k) xs"
proof (induction n)
  case (Suc n)
  then show ?case using take_add [of "n * k" k xs] by (simp add: add.commute)
qed simp

text \<open>The dict of the counts.\<close>

lemma counts_dict_id:
  "distinct (map fst (d @ rows)) \<Longrightarrow> fold (\<lambda>(k, n) d. AList.update k n d) rows d = d @ rows"
proof (induction rows arbitrary: d)
  case (Cons p rows)
  obtain k n where p: "p = (k, n)" by (cases p)
  have "AList.update k n d = d @ [(k, n)]"
    using Cons.prems by (induction d) (auto simp: p)
  then show ?case using Cons.IH [of "d @ [p]"] Cons.prems by (simp add: p)
qed simp

lemma sum_counts:
  "distinct sts \<Longrightarrow> sum_list (map (\<lambda>st. length (filter (\<lambda>r. f r = st) rows)) sts) = length (filter (\<lambda>r. f r \<in> set sts) rows)"
proof (induction sts)
  case (Cons st sts)
  have "length (filter (\<lambda>r. f r \<in> set (st # sts)) rows) =
      length (filter (\<lambda>r. f r = st) rows) + length (filter (\<lambda>r. f r \<in> set sts) rows)"
    using Cons.prems by (induction rows) auto
  with Cons show ?case by simp
qed simp

text \<open>Rows that hold the states of the machine, under a collation that tells these apart.\<close>

definition states_exact :: "(pystr \<Rightarrow> json \<Rightarrow> bool) \<Rightarrow> order_row list \<Rightarrow> bool" where
  "states_exact eq rows \<longleftrightarrow>
     (\<forall>r \<in> set rows. \<exists>s. or_state r = state_value s) \<and> (\<forall>s u. eq (state_value s) (JStr (state_value u)) \<longleftrightarrow> s = u)"

definition orders_in :: "WorkOrderState \<Rightarrow> order_row list \<Rightarrow> nat" where
  "orders_in s rows = length (filter (\<lambda>r. or_state r = state_value s) rows)"

lemma counts_exact:
  assumes "counts_answer eq rows ans" and "states_exact eq rows"
  shows "counts_dict ans = ans" and "sum_list (map snd ans) = length rows" and "count_of ans (state_value s) = orders_in s rows"
proof -
  have d: "distinct (map fst ans)" using assms(1) by (simp add: counts_answer_def)
  have e: "eq (or_state r) (JStr st) \<longleftrightarrow> or_state r = st" if "r \<in> set rows" "st \<in> or_state ` set rows" for r st
    using assms(2) that by (auto simp: states_exact_def) metis
  have a: "n = length (filter (\<lambda>r. or_state r = st) rows)" "st \<in> or_state ` set rows" if "(st, n) \<in> set ans" for st n
  proof -
    have st: "st \<in> or_state ` set rows" "n = length (filter (\<lambda>r. eq (or_state r) (JStr st)) rows)"
      using assms(1) that by (auto simp: counts_answer_def)
    moreover have "filter (\<lambda>r. eq (or_state r) (JStr st)) rows = filter (\<lambda>r. or_state r = st) rows"
      using e st(1) by (intro filter_cong) auto
    ultimately show "n = length (filter (\<lambda>r. or_state r = st) rows)" "st \<in> or_state ` set rows" by simp_all
  qed
  have cover: "or_state r \<in> fst ` set ans" if "r \<in> set rows" for r
  proof -
    have "\<exists>!st. st \<in> fst ` set ans \<and> eq (or_state r) (JStr st)" using assms(1) that by (simp add: counts_answer_def)
    then obtain st where st: "st \<in> fst ` set ans" "eq (or_state r) (JStr st)" by blast
    then have "st \<in> or_state ` set rows" using a by auto
    with e that st show ?thesis by metis
  qed
  show "counts_dict ans = ans" using counts_dict_id [of "[]" ans] d by (simp add: counts_dict_def)
  have "map snd ans = map (\<lambda>st. length (filter (\<lambda>r. or_state r = st) rows)) (map fst ans)"
    using a(1) by auto
  then have "sum_list (map snd ans) = length (filter (\<lambda>r. or_state r \<in> set (map fst ans)) rows)"
    by (simp only: sum_counts [OF d])
  also have "filter (\<lambda>r. or_state r \<in> set (map fst ans)) rows = rows" using cover by (simp add: filter_id_conv)
  finally show "sum_list (map snd ans) = length rows" .
  show "count_of ans (state_value s) = orders_in s rows"
  proof (cases "map_of ans (state_value s)")
    case None
    then have "state_value s \<notin> fst ` set ans" by (simp add: map_of_eq_None_iff)
    then have "filter (\<lambda>r. or_state r = state_value s) rows = []" using cover by (simp add: filter_empty_conv) metis
    then show ?thesis by (simp add: count_of_def None orders_in_def)
  next
    case (Some n)
    then show ?thesis using a(1) [OF map_of_SomeD [OF Some]] by (simp add: count_of_def orders_in_def)
  qed
qed

text \<open>Three orders for the examples.\<close>

definition toy_admin_row :: "nat \<Rightarrow> WorkOrderState \<Rightarrow> order_row" where
  "toy_admin_row n st =
     \<lparr>or_id = int n, or_order_no = lit ''WO-'' @ dec n, or_issue = lit ''J'', or_project = lit ''p'', or_branch = lit ''main'', or_build_cmd = [],
      or_state = state_value st, or_created_at = toy_time n, or_updated_at = toy_time n, or_created_by = []\<rparr>"

definition toy_admin_tables :: tables where
  "toy_admin_tables =
     \<lparr>tb_orders = [toy_admin_row 2 DRAFT, toy_admin_row 3 PENDING_APPROVAL, toy_admin_row 4 PENDING_SECOND_REVIEW],
      tb_approvals = [], tb_results = [], tb_agents = []\<rparr>"

lemma toy_admin_inj: "inj_on (\<lambda>r. dt_key (or_created_at r)) (set (tb_orders (id toy_admin_tables)))"
  by (simp add: toy_admin_tables_def toy_admin_row_def dt_key_def toy_time_def)

lemma toy_admin_exact: "states_exact (sql_eq toy_sql) (tb_orders (id toy_admin_tables))"
proof -
  have "toy_eq (state_value s) (JStr (state_value u)) \<longleftrightarrow> s = u" for s u
    unfolding toy_eq_def by (metis json.inject(4) state_value_inject)
  moreover have "\<forall>r \<in> set (tb_orders toy_admin_tables). \<exists>s. or_state r = state_value s"
    unfolding toy_admin_tables_def toy_admin_row_def by (simp del: state_value.simps)
  ultimately show ?thesis by (simp add: states_exact_def toy_sql_def del: state_value.simps)
qed

section \<open>Properties\<close>

text \<open>The agents' page fails as soon as an agent is online: in every reachable state of the server with a registered agent,
  \<open>GET /api/admin/agents\<close> ends in an \<open>AttributeError\<close>, because \<open>AgentManager.list_agents\<close> returns ids and the page asks each
  for its fields.\<close>

lemma agents_page_fails_when_online:
  assumes "server_reachable P E fs priv pub has_cb sv" and "by_agent (sv_manager sv) \<noteq> []"
  shows "admin_list_agents D True (Some (sv_manager sv)) db = Unhandled AttributeError"
proof -
  obtain a info rest where m: "by_agent (sv_manager sv) = (a, info) # rest" using assms(2) by (cases "by_agent (sv_manager sv)") auto
  have "manager_ok (sv_manager sv)" using server_ok_reachable [OF assms(1)] by (simp add: server_ok_def)
  moreover have "map_of (by_agent (sv_manager sv)) a = Some info" by (simp add: m)
  ultimately have "hashable a" unfolding manager_ok_def by blast
  then show ?thesis
    by (simp add: admin_list_agents_def answer_of_def get_db_session_def list_agents_def dkeys_def m live_agents_fails del: live_agents.simps)
qed

lemma agents_page_fails_when_online_example:
  "admin_list_agents toy_sql True (Some (sv_manager (toy_connect 1 (lit ''a1'') [lit ''p''] [5] new_server))) toy_admin_tables =
     Unhandled AttributeError"
proof -
  have "by_agent (sv_manager (toy_connect 1 (lit ''a1'') [lit ''p''] [5] new_server)) \<noteq> []" using toy_registered(2) by auto
  from agents_page_fails_when_online [OF toy_registered(1) this] show ?thesis .
qed

text \<open>C38. Pages tile the list of orders: when no two orders were created at the same instant, the pages of one filter, asked for one after
  the other with a limit the endpoint accepts, put together are the matching orders, newest first, without gaps or repetitions.\<close>

theorem pages_tile_the_orders:
  assumes "db_ok tb D" and "inj_on (\<lambda>r. dt_key (or_created_at r)) (set (tb_orders (tb db)))"
    and "\<forall>i < n. list_orders D True
      \<lparr>oq_state = st, oq_project = pj, oq_limit = int limit, oq_offset = int (i * limit)\<rparr> db = Answer (JArr (pages i))"
  shows "concat (map pages [0..<n]) =
    map order_summary (take (n * limit) (all_orders D \<lparr>oq_state = st, oq_project = pj, oq_limit = 50, oq_offset = 0\<rparr> (tb db)))"
proof -
  let ?all = "all_orders D \<lparr>oq_state = st, oq_project = pj, oq_limit = 50, oq_offset = 0\<rparr> (tb db)"
  have "pages i = map order_summary (take limit (drop (i * limit) ?all))" if "i < n" for i
  proof -
    let ?q = "\<lparr>oq_state = st, oq_project = pj, oq_limit = int limit, oq_offset = int (i * limit)\<rparr>"
    have "list_orders D True ?q db = Answer (JArr (pages i))" using assms(3) that by blast
    from list_orders_answer [OF this] obtain rows where r: "sql_orders D (page_of ?q) db = Inr rows"
      "JArr (pages i) = JArr (map order_summary rows)" by blast
    have "order_matches (sql_eq D) (page_of ?q) =
        order_matches (sql_eq D) (page_of \<lparr>oq_state = st, oq_project = pj, oq_limit = 50, oq_offset = 0\<rparr>)"
      by (simp add: order_matches_def page_of_def fun_eq_iff)
    then have "all_orders D ?q (tb db) = ?all" by (simp add: all_orders_def)
    with page_rows [OF assms(1,2) r(1)] r(2) show ?thesis by (simp add: nat_mult_distrib)
  qed
  then have "map pages [0..<n] = map (map order_summary) (map (\<lambda>i. take limit (drop (i * limit) ?all)) [0..<n])" by simp
  then show ?thesis by (simp only: map_concat [symmetric] concat_pages)
qed

theorem pages_tile_the_orders_witness:
  "\<exists>pages. (\<forall>i < 2. list_orders toy_sql True
       \<lparr>oq_state = None, oq_project = Some (lit ''p''), oq_limit = int 2, oq_offset = int (i * 2)\<rparr> toy_admin_tables = Answer (JArr (pages i))) \<and>
     concat (map pages [0..<2]) = map order_summary [toy_admin_row 4 PENDING_SECOND_REVIEW, toy_admin_row 3 PENDING_APPROVAL, toy_admin_row 2 DRAFT]"
proof -
  let ?rows = "[toy_admin_row 4 PENDING_SECOND_REVIEW, toy_admin_row 3 PENDING_APPROVAL, toy_admin_row 2 DRAFT]"
  let ?pages = "\<lambda>i. map order_summary (take 2 (drop (i * 2) ?rows))"
  have s: "sort_key (\<lambda>r. - dt_key (or_created_at r))
      (filter (order_matches toy_eq (page_of \<lparr>oq_state = None, oq_project = Some (lit ''p''), oq_limit = l, oq_offset = k\<rparr>)) (tb_orders toy_admin_tables)) = ?rows" for l k
    by (simp add: toy_admin_tables_def toy_admin_row_def order_matches_def page_of_def given_def toy_eq_def dt_key_def toy_time_def)
  have p: "\<forall>i < 2. list_orders toy_sql True
       \<lparr>oq_state = None, oq_project = Some (lit ''p''), oq_limit = int 2, oq_offset = int (i * 2)\<rparr> toy_admin_tables = Answer (JArr (?pages i))"
    by (simp add: list_orders_def answer_of_def get_db_session_def toy_sql_def s)
      (simp add: page_of_def page_cut_def nat_mult_distrib)
  have a: "all_orders toy_sql \<lparr>oq_state = None, oq_project = Some (lit ''p''), oq_limit = 50, oq_offset = 0\<rparr> (id toy_admin_tables) = ?rows"
    unfolding all_orders_def by (simp add: toy_sql_def s)
  have "concat (map ?pages [0..<2]) = map order_summary (take (2 * 2) ?rows)"
    using pages_tile_the_orders [OF toy_sql_ok toy_admin_inj p [unfolded id_def [symmetric]]] unfolding a .
  then show ?thesis using p by auto
qed

text \<open>The dashboard counts what is stored: when the orders hold states of the machine (and the database tells these apart), the
  statistics are the number of orders, of orders waiting for either review, building, succeeded and failed, and the number of registered
  agents.\<close>

lemma stats_count_orders:
  assumes "db_ok tb D" and "states_exact (sql_eq D) (tb_orders (tb db))" and "sql_state_counts D db = Inr rows"
  shows "get_stats D True (Some m) db =
    (let os = tb_orders (tb db)
     in Answer (stats_json (length os) (orders_in PENDING_APPROVAL os + orders_in PENDING_SECOND_REVIEW os)
          (orders_in BUILDING os) (orders_in SUCCESS os) (orders_in FAILED os) (length (list_agents m))))"
proof -
  have c: "counts_answer (sql_eq D) (tb_orders (tb db)) rows" using assms(1,3) by (auto simp: db_ok_def)
  note e = counts_exact [OF c assms(2)]
  have a: "count_agents m = length (list_agents m)" by (simp add: count_agents_def list_agents_def dkeys_def)
  show ?thesis
    using e(3) [of PENDING_APPROVAL] e(3) [of PENDING_SECOND_REVIEW] e(3) [of BUILDING] e(3) [of SUCCESS] e(3) [of FAILED]
    by (simp add: get_stats_def answer_of_def get_db_session_def assms(3) Let_def e(1,2) a)
qed

lemma stats_count_orders_example:
  "get_stats toy_sql True (Some (new_manager :: nat manager)) toy_admin_tables = Answer (stats_json 3 2 0 0 0 0)"
proof -
  have "\<exists>rows. sql_state_counts toy_sql toy_admin_tables = Inr rows" by (simp add: toy_sql_def)
  then obtain rows where r: "sql_state_counts toy_sql toy_admin_tables = Inr rows" ..
  have n: "length (tb_orders toy_admin_tables) = 3" "orders_in PENDING_APPROVAL (tb_orders toy_admin_tables) = 1"
    "orders_in PENDING_SECOND_REVIEW (tb_orders toy_admin_tables) = 1" "orders_in BUILDING (tb_orders toy_admin_tables) = 0"
    "orders_in SUCCESS (tb_orders toy_admin_tables) = 0" "orders_in FAILED (tb_orders toy_admin_tables) = 0"
    by (simp_all add: orders_in_def toy_admin_tables_def toy_admin_row_def)
  have m: "length (list_agents (new_manager :: nat manager)) = 0" by (simp add: list_agents_def new_manager_def dkeys_def)
  show ?thesis
    using stats_count_orders [OF toy_sql_ok toy_admin_exact r, of "new_manager :: nat manager"]
    by (simp add: Let_def n m numeral_2_eq_2)
qed

end
