(* ===== verification/Forwarder_App.thy ===== *)
theory Forwarder_App
  imports DingTalk_Api_Facts Admin_Api
begin

text \<open>
  The application of forwarder/app/ws/server.py as a whole: what \<open>lifespan\<close> sets up from the configuration, and the running application as a machine whose steps
  are the requests of the REST interface and the events of the agents' connections, in any order. A request
  runs in one step. SQLAlchemy's engine and the SDK's constructors are parameters.
\<close>

section \<open>State and startup\<close>

record ('sk, 'pk, 'db, 's) app =
  ap_server :: "('sk, 'pk) server"
  ap_config :: "config option"
  ap_ready :: bool
  ap_engine :: bool
  ap_service :: "dingtalk option"
  ap_db :: 'db
  ap_world :: 's

record boot =
  bo_engine :: "json \<Rightarrow> unit res"
  bo_init_db :: "json \<Rightarrow> unit res"
  bo_sdk :: "unit res"

text \<open>\<open>ap_ready\<close> is whether the session factory is set: it stays set when \<open>init_db\<close> fails.\<close>

definition start_db :: "py_env \<Rightarrow> boot \<Rightarrow> config option \<Rightarrow> bool \<times> bool" where
  "start_db E B cfg =
     (case cfg of
        None \<Rightarrow> (False, False)
      | Some c \<Rightarrow>
          if \<not> py_truthy E (cf_mysql_url c) then (False, False)
          else
            (case bo_engine B (cf_mysql_url c) of
               Inl _ \<Rightarrow> (False, False)
             | Inr _ \<Rightarrow> (True, res_ok (bo_init_db B (cf_mysql_url c)))))"

definition start_service :: "py_env \<Rightarrow> boot \<Rightarrow> config option \<Rightarrow> dingtalk option" where
  "start_service E B cfg =
     (case cfg of
        None \<Rightarrow> None
      | Some c \<Rightarrow>
          if \<not> py_truthy E (cf_dingtalk_app_key c) then None
          else
            (case bo_sdk B of
               Inl _ \<Rightarrow> None
             | Inr _ \<Rightarrow>
                 Some (new_dingtalk (cf_dingtalk_app_key c) (cf_dingtalk_app_secret c) (cf_dingtalk_agent_id c))))"

definition startup :: "py_env \<Rightarrow> boot \<Rightarrow> config option \<Rightarrow> 'db \<Rightarrow> 's \<Rightarrow> ('sk, 'pk, 'db, 's) app" where
  "startup E B cfg db s =
     (let (ready, engine) = start_db E B cfg
      in \<lparr>ap_server = new_server, ap_config = cfg, ap_ready = ready, ap_engine = engine,
          ap_service = start_service E B cfg, ap_db = db, ap_world = s\<rparr>)"

text \<open>The other half of \<open>lifespan\<close>: whether it disposes of the engine, and the application with its manager stopped.\<close>

definition app_shutdown :: "('sk, 'pk, 'db, 's) app \<Rightarrow> bool \<times> ('sk, 'pk, 'db, 's) app" where
  "app_shutdown ap = (ap_engine ap, ap\<lparr>ap_server := shutdown (ap_server ap)\<rparr>)"

section \<open>Requests\<close>

datatype request =
    Health
  | ListAgents
  | TriggerBuild send_draws pystr json
  | Callback int "datetime \<times> datetime" callback_request
  | CardCallback bytes
  | CreateApproval clocks approval_create
  | AdminOrders order_query
  | AdminOrder int
  | AdminAgents
  | AdminStats
  | DashboardPage
  | OrdersPage
  | AgentsPage

text \<open>The pages of the panel, which fetch their data through the API.\<close>

definition page_dashboard :: http where
  "page_dashboard = Rendered (lit ''dashboard.html'') (lit ''dashboard'')"

definition page_orders :: http where
  "page_orders = Rendered (lit ''orders.html'') (lit ''orders'')"

definition page_agents :: http where
  "page_agents = Rendered (lit ''agents.html'') (lit ''agents'')"

definition app_request ::
    "('sk, 'pk) prims \<Rightarrow> py_env \<Rightarrow> 'db sql \<Rightarrow> 's sdk \<Rightarrow> request \<Rightarrow> ('sk, 'pk, 'db, 's) app \<Rightarrow>
     http \<times> ('sk, 'pk, 'db, 's) app" where
  "app_request P E D sdk rq ap =
     (case rq of
        Health \<Rightarrow> (health (ap_server ap), ap)
      | ListAgents \<Rightarrow> (list_agents_api (ap_server ap), ap)
      | TriggerBuild d project payload \<Rightarrow>
          (let (h, sv) = trigger_build_api P E d project payload (ap_server ap) in (h, ap\<lparr>ap_server := sv\<rparr>))
      | Callback now_ms utcnow crq \<Rightarrow>
          (let (h, db) = dingtalk_callback E D (ap_ready ap) (ap_service ap) now_ms utcnow crq (ap_db ap)
           in (h, ap\<lparr>ap_db := db\<rparr>))
      | CardCallback body \<Rightarrow> (card_callback body, ap)
      | CreateApproval ck crq \<Rightarrow>
          (let (h, svc, s) = create_approval_api E sdk ck (ap_ready ap) (ap_config ap) crq (ap_service ap) (ap_world ap)
           in (h, ap\<lparr>ap_service := svc, ap_world := s\<rparr>))
      | AdminOrders q \<Rightarrow> (list_orders D (ap_ready ap) q (ap_db ap), ap)
      | AdminOrder i \<Rightarrow> (get_order D (ap_ready ap) i (ap_db ap), ap)
      | AdminAgents \<Rightarrow> (admin_list_agents D (ap_ready ap) (Some (sv_manager (ap_server ap))) (ap_db ap), ap)
      | AdminStats \<Rightarrow> (get_stats D (ap_ready ap) (Some (sv_manager (ap_server ap))) (ap_db ap), ap)
      | DashboardPage \<Rightarrow> (page_dashboard, ap)
      | OrdersPage \<Rightarrow> (page_orders, ap)
      | AgentsPage \<Rightarrow> (page_agents, ap))"

section \<open>The machine\<close>

inductive app_step ::
    "('sk, 'pk) prims \<Rightarrow> py_env \<Rightarrow> files \<Rightarrow> pystr \<Rightarrow> pystr \<Rightarrow> bool \<Rightarrow> 'db sql \<Rightarrow> 's sdk \<Rightarrow>
     ('sk, 'pk, 'db, 's) app \<Rightarrow> ('sk, 'pk, 'db, 's) app \<Rightarrow> bool"
  for P E fs priv pub has_cb D sdk where
  app_step_request: "app_step P E fs priv pub has_cb D sdk ap (snd (app_request P E D sdk rq ap))"
| app_step_agents: "server_step P E fs priv pub has_cb (ap_server ap) sv \<Longrightarrow>
    app_step P E fs priv pub has_cb D sdk ap (ap\<lparr>ap_server := sv\<rparr>)"

inductive app_run ::
    "('sk, 'pk) prims \<Rightarrow> py_env \<Rightarrow> files \<Rightarrow> pystr \<Rightarrow> pystr \<Rightarrow> bool \<Rightarrow> 'db sql \<Rightarrow> 's sdk \<Rightarrow>
     ('sk, 'pk, 'db, 's) app \<Rightarrow> ('sk, 'pk, 'db, 's) app \<Rightarrow> bool"
  for P E fs priv pub has_cb D sdk where
  run_refl: "app_run P E fs priv pub has_cb D sdk ap ap"
| run_step: "app_run P E fs priv pub has_cb D sdk ap ap' \<Longrightarrow> app_step P E fs priv pub has_cb D sdk ap' ap'' \<Longrightarrow>
    app_run P E fs priv pub has_cb D sdk ap ap''"

inductive_cases app_stepE: "app_step P E fs priv pub has_cb D sdk ap ap'"

section \<open>Work orders along a run\<close>

text \<open>The states the application itself stores.\<close>

definition decided :: "WorkOrderState set" where
  "decided = {APPROVED, CLOSED, SECOND_APPROVED, SECOND_REJECTED}"

text \<open>What a run may make of a row: the same order, in the same state or in one the machine leads to through decided states.\<close>

definition row_moved :: "order_row \<Rightarrow> order_row \<Rightarrow> bool" where
  "row_moved r r' \<longleftrightarrow>
     or_id r' = or_id r \<and> or_order_no r' = or_order_no r \<and>
     (or_state r' = or_state r \<or>
      (\<exists>s ts u. or_state r = state_value s \<and> or_state r' = state_value u \<and> wo_path s ts u \<and> set ts \<subseteq> decided))"

lemma row_moved_refl: "row_moved r r"
  by (simp add: row_moved_def)

lemma row_moved_trans:
  assumes "row_moved r r'" and "row_moved r' r''"
  shows "row_moved r r''"
proof -
  have "\<exists>s ts u. or_state r = state_value s \<and> or_state r'' = state_value u \<and> wo_path s ts u \<and> set ts \<subseteq> decided"
    if "or_state r = state_value s1" "or_state r' = state_value u1" "wo_path s1 ts1 u1" "set ts1 \<subseteq> decided"
      "or_state r' = state_value s2" "or_state r'' = state_value u2" "wo_path s2 ts2 u2" "set ts2 \<subseteq> decided"
    for s1 ts1 u1 s2 ts2 u2
  proof -
    have "u1 = s2" using that(2,5) by (metis state_value_inject)
    with that have "wo_path s1 (ts1 @ ts2) u2" by (auto simp: wo_path_append)
    with that show ?thesis by (intro exI [of _ s1] exI [of _ "ts1 @ ts2"] exI [of _ u2]) auto
  qed
  then show ?thesis using assms unfolding row_moved_def by metis
qed

lemma approval_target_decided: "approval_target result review \<in> decided"
  by (simp add: approval_target_def decided_def)

lemma order_step_rows:
  assumes "order_step D now biz_id result t t'" and "distinct (map or_id (tb_orders t))"
  shows "list_all2 row_moved (tb_orders t) (tb_orders t')"
proof -
  obtain wo s u where wo: "wo \<in> set (tb_orders t)" "or_state wo = state_value s" "transition s u = Inr u" "u \<in> decided"
    and t': "tb_orders t' = tb_orders (set_order (snd now) (or_id wo) u t)"
    using assms(1) approval_target_decided unfolding order_step_def
    by (fastforce simp: set_order_def set_approval_def)
  have "row_moved r (if or_id r = or_id wo then r\<lparr>or_state := state_value u, or_updated_at := snd now\<rparr> else r)" if "r \<in> set (tb_orders t)" for r
  proof (cases "or_id r = or_id wo")
    case True
    then have "r = wo" using that wo(1) assms(2) by (metis distinct_map inj_onD)
    moreover have "wo_path s [u] u" using wo(3) by (simp add: wo_path_Cons_iff)
    ultimately show ?thesis
      using wo(2,4) True unfolding row_moved_def by (intro conjI disjI2 exI [of _ s] exI [of _ "[u]"] exI [of _ u]) simp_all
  qed (simp add: row_moved_refl)
  then show ?thesis by (simp add: t' set_order_def list.rel_map(2) list.rel_refl_strong)
qed

lemma rows_moved_ids: "list_all2 row_moved rs rs' \<Longrightarrow> map or_id rs' = map or_id rs"
  by (induction rule: list_all2_induct) (simp_all add: row_moved_def)

lemma rows_moved_trans: "list_all2 row_moved rs rs' \<Longrightarrow> list_all2 row_moved rs' rs'' \<Longrightarrow> list_all2 row_moved rs rs''"
  using list_all2_trans [of row_moved row_moved row_moved] row_moved_trans by blast

text \<open>From DRAFT, decided states lead to CLOSED only.\<close>

lemma decided_from_draft: "wo_path DRAFT ts u \<Longrightarrow> set ts \<subseteq> decided \<Longrightarrow> u \<in> {DRAFT, CLOSED}"
proof (cases ts)
  case (Cons t ts')
  assume a: "wo_path DRAFT ts u" "set ts \<subseteq> decided"
  then have "t = CLOSED" using Cons by (auto simp: wo_path_Cons_can can_transition_def decided_def)
  then show ?thesis using a Cons by (cases ts') (auto simp: wo_path_Cons_can can_transition_def)
qed simp

lemma row_moved_draft:
  "row_moved r r' \<Longrightarrow> or_state r = state_value DRAFT \<Longrightarrow> or_state r' \<in> {state_value DRAFT, state_value CLOSED}"
  using decided_from_draft unfolding row_moved_def by (metis insert_iff singletonD state_value_inject)

text \<open>The contract of what stores work orders, as its clients see it over a whole run; and the contract of one step of it, which
  gives the first for the runs of its steps.\<close>

locale order_history =
  fixes orders :: "'a \<Rightarrow> order_row list"
    and run :: "'a \<Rightarrow> 'a \<Rightarrow> bool"
  assumes run_moves: "run a b \<Longrightarrow> distinct (map or_id (orders a)) \<Longrightarrow> list_all2 row_moved (orders a) (orders b)"
begin

lemma drafts_wait:
  assumes "run a b" and "distinct (map or_id (orders a))"
    and "i < length (orders a)" and "or_state (orders a ! i) = state_value DRAFT"
  shows "or_state (orders b ! i) \<in> {state_value DRAFT, state_value CLOSED}"
  using run_moves [OF assms(1,2)] assms(3,4) row_moved_draft by (metis list_all2_nthD)

lemma ids_kept: "run a b \<Longrightarrow> distinct (map or_id (orders a)) \<Longrightarrow> map or_id (orders b) = map or_id (orders a)"
  using run_moves rows_moved_ids by blast

end

locale order_keeper =
  fixes orders :: "'a \<Rightarrow> order_row list"
    and step :: "'a \<Rightarrow> 'a \<Rightarrow> bool"
  assumes step_moves: "step a b \<Longrightarrow> distinct (map or_id (orders a)) \<Longrightarrow> list_all2 row_moved (orders a) (orders b)"

sublocale order_keeper \<subseteq> order_history orders "step\<^sup>*\<^sup>*"
proof
  fix a b
  assume "step\<^sup>*\<^sup>* a b" and d: "distinct (map or_id (orders a))"
  then show "list_all2 row_moved (orders a) (orders b)"
  proof (induction rule: rtranclp_induct)
    case base
    show ?case by (simp add: list_all2_refl row_moved_refl)
  next
    case (step b c)
    then have m: "list_all2 row_moved (orders a) (orders b)" by blast
    then have "distinct (map or_id (orders b))" using d rows_moved_ids by metis
    from rows_moved_trans [OF m step_moves [OF step.hyps(2) this]] show ?case .
  qed
qed

text \<open>The callback endpoint keeps the contract, and with it the application.\<close>

definition callback_step :: "('db \<Rightarrow> tables) \<Rightarrow> py_env \<Rightarrow> 'db sql \<Rightarrow> 'db \<Rightarrow> 'db \<Rightarrow> bool" where
  "callback_step tb E D db db' \<longleftrightarrow>
     db_ok tb D \<and> (\<exists>ready svc now_ms utcnow rq. db' = snd (dingtalk_callback E D ready svc now_ms utcnow rq db))"

interpretation callbacks: order_keeper "\<lambda>db. tb_orders (tb db)" "callback_step tb E D" for tb E D
proof
  fix db db'
  assume "callback_step tb E D db db'" and d: "distinct (map or_id (tb_orders (tb db)))"
  then obtain ready svc now_ms utcnow rq answer where ok: "db_ok tb D"
    and c: "dingtalk_callback E D ready svc now_ms utcnow rq db = (answer, db')"
    unfolding callback_step_def by (metis prod.collapse)
  have "tb db' = tb db \<or> (\<exists>biz_id result. order_step D utcnow biz_id result (tb db) (tb db'))"
    using callback_effect [OF ok c] by blast
  then show "list_all2 row_moved (tb_orders (tb db)) (tb_orders (tb db'))"
    using order_step_rows [OF _ d, of D utcnow] by (auto simp: list_all2_refl row_moved_refl)
qed

lemma app_request_orders:
  assumes "db_ok tb D" and "distinct (map or_id (tb_orders (tb (ap_db ap))))"
  shows "list_all2 row_moved (tb_orders (tb (ap_db ap))) (tb_orders (tb (ap_db (snd (app_request P E D sdk rq ap)))))"
proof (cases rq)
  case (Callback now_ms utcnow crq)
  have "callback_step tb E D (ap_db ap) (snd (dingtalk_callback E D (ap_ready ap) (ap_service ap) now_ms utcnow crq (ap_db ap)))"
    using assms(1) unfolding callback_step_def by blast
  from callbacks.step_moves [OF this assms(2)] show ?thesis
    by (auto simp: Callback app_request_def split: prod.split)
qed (simp_all add: app_request_def list_all2_refl row_moved_refl split: prod.split)

interpretation application: order_keeper "\<lambda>ap. tb_orders (tb (ap_db ap))"
    "\<lambda>ap ap'. db_ok tb D \<and> app_step P E fs priv pub has_cb D sdk ap ap'" for tb P E fs priv pub has_cb D sdk
proof
  fix ap ap'
  assume s: "db_ok tb D \<and> app_step P E fs priv pub has_cb D sdk ap ap'" and d: "distinct (map or_id (tb_orders (tb (ap_db ap))))"
  from s have "app_step P E fs priv pub has_cb D sdk ap ap'" ..
  then show "list_all2 row_moved (tb_orders (tb (ap_db ap))) (tb_orders (tb (ap_db ap')))"
  proof (rule app_stepE)
    fix rq
    assume e: "ap' = snd (app_request P E D sdk rq ap)"
    show ?thesis unfolding e using s d by (blast intro: app_request_orders)
  qed (simp add: list_all2_refl row_moved_refl)
qed

lemma app_run_steps:
  assumes "app_run P E fs priv pub has_cb D sdk ap ap'" and "db_ok tb D"
  shows "(\<lambda>ap ap'. db_ok tb D \<and> app_step P E fs priv pub has_cb D sdk ap ap')\<^sup>*\<^sup>* ap ap'"
  using assms(1)
proof (induction rule: app_run.induct)
  case (run_step ap ap' ap'')
  then show ?case using assms(2) by (simp add: rtranclp.rtrancl_into_rtrancl)
qed simp

text \<open>Startup without an app key: a database, no service.\<close>

lemma startup_unconfigured:
  assumes "\<not> py_truthy E (cf_dingtalk_app_key c)" and "py_truthy E (cf_mysql_url c)" and "bo_engine B (cf_mysql_url c) = Inr ()"
  shows "ap_service (startup E B (Some c) db w) = None" and "ap_ready (startup E B (Some c) db w)"
    and "ap_db (startup E B (Some c) db w) = db"
  using assms by (simp_all add: startup_def start_service_def start_db_def)

text \<open>After a failed \<open>init_db\<close> the application serves requests from the engine it made, and does not dispose of it when it stops.\<close>

lemma failed_init_keeps_engine:
  assumes "py_truthy E (cf_mysql_url c)" and "bo_engine B (cf_mysql_url c) = Inr ()" and "bo_init_db B (cf_mysql_url c) = Inl e"
  shows "ap_ready (startup E B (Some c) db s) \<and> \<not> fst (app_shutdown (startup E B (Some c) db s))"
  using assms by (simp add: startup_def start_db_def app_shutdown_def)

definition toy_boot :: boot where
  "toy_boot = \<lparr>bo_engine = (\<lambda>_. Inr ()), bo_init_db = (\<lambda>_. Inr ()), bo_sdk = Inr ()\<rparr>"

definition toy_app :: "tables \<Rightarrow> (bytes, bytes, tables, asked list) app" where
  "toy_app t = startup toy_env toy_boot (Some default_config) t []"

lemma toy_app_start: "ap_db (toy_app t) = t" "ap_ready (toy_app t)" "ap_service (toy_app t) = None"
  unfolding toy_app_def
  by (rule startup_unconfigured; simp add: default_config_def py_truthy_def toy_boot_def)+

lemma toy_app_decides:
  "tb_orders (ap_db (snd (app_request toy_prims toy_env toy_sql toy_sdk (Callback 0 toy_times toy_callback)
      (toy_app (toy_tables PENDING_SECOND_REVIEW [toy_approval 1]))))) =
    tb_orders (set_order (snd toy_times) 1 SECOND_APPROVED (toy_tables PENDING_SECOND_REVIEW [toy_approval 1]))"
proof -
  let ?t = "toy_tables PENDING_SECOND_REVIEW [toy_approval 1]"
  have q: "sql_approvals toy_sql (or_id (toy_row PENDING_SECOND_REVIEW)) (Some (lit ''PENDING'')) ?t = Inr [toy_approval 1]"
    using toy_queries(2) [of PENDING_SECOND_REVIEW 1] by (simp add: toy_row_def)
  have "\<exists>se'. handle_approval_finish toy_sql toy_times (JStr (lit ''WO-1'')) (JStr (lit ''agree'')) \<lparr>se_db = ?t, se_changes = []\<rparr> = (Inr (), se') \<and>
    id (se_db se') = set_order (snd toy_times) (or_id (toy_row PENDING_SECOND_REVIEW)) (approval_target (JStr (lit ''agree'')) (pr_review_type (toy_approval 1)))
      (set_approval (fst toy_times) (pr_id (toy_approval 1)) (approval_status (JStr (lit ''agree''))) (id ?t))"
    by (rule finish_completes [OF toy_sql_ok toy_queries(1) _ q, where s = PENDING_SECOND_REVIEW])
      (simp_all add: toy_row_def toy_approval_def approval_target_def can_to toy_sql_def)
  then obtain se' where h: "handle_approval_finish toy_sql toy_times (JStr (lit ''WO-1'')) (JStr (lit ''agree'')) \<lparr>se_db = ?t, se_changes = []\<rparr> = (Inr (), se')"
    and t: "se_db se' = set_order (snd toy_times) 1 SECOND_APPROVED
      (set_approval (fst toy_times) (pr_id (toy_approval 1)) (approval_status (JStr (lit ''agree''))) ?t)"
    by (auto simp: toy_row_def toy_approval_def approval_target_def)
  have "verified toy_env None 0 toy_callback" "py_truthy toy_env (JStr (lit ''WO-1''))" by (simp_all add: verified_def py_truthy_def)
  from callback_finish [OF this(1) toy_callback_event this(2) h] show ?thesis
    by (simp add: app_request_def toy_app_start t set_order_def set_approval_def)
qed

section \<open>Properties\<close>

text \<open>The application keeps work orders on the state machine: along any run, in which requests of every kind and the events of the agents'
  connections come in any order, no order is added, removed or renamed, and each order is in the state it was in or in
  one that the machine leads to from there through approved, rejected and closed states: nothing that happens at the agents, and no
  administration request, changes an order, and a run never stores that an order waits for approval or is being built.\<close>

lemma orders_follow_machine:
  assumes "db_ok tb D" and "app_run P E fs priv pub has_cb D sdk ap ap'" and "distinct (map or_id (tb_orders (tb (ap_db ap))))"
  shows "list_all2
    (\<lambda>r r'. or_id r' = or_id r \<and> or_order_no r' = or_order_no r \<and>
       (or_state r' = or_state r \<or>
        (\<exists>s ts u. or_state r = state_value s \<and> or_state r' = state_value u \<and> wo_path s ts u \<and>
           set ts \<subseteq> {APPROVED, CLOSED, SECOND_APPROVED, SECOND_REJECTED})))
    (tb_orders (tb (ap_db ap))) (tb_orders (tb (ap_db ap')))"
  using application.run_moves [OF app_run_steps [OF assms(2,1)] assms(3)] unfolding row_moved_def decided_def .

lemma orders_follow_machine_example:
  "\<exists>ap'. app_run toy_prims toy_env (toy_files [7]) (lit ''priv'') (lit ''pub'') True toy_sql toy_sdk
       (toy_app (toy_tables PENDING_SECOND_REVIEW [toy_approval 1])) ap' \<and>
     map or_state (tb_orders (ap_db ap')) = [state_value SECOND_APPROVED] \<and>
     (\<exists>ts. wo_path PENDING_SECOND_REVIEW ts SECOND_APPROVED)"
proof -
  let ?t = "toy_tables PENDING_SECOND_REVIEW [toy_approval 1]"
  let ?ap = "toy_app ?t" and ?rq = "Callback 0 toy_times toy_callback"
  let ?ap' = "snd (app_request toy_prims toy_env toy_sql toy_sdk ?rq ?ap)"
  have run: "app_run toy_prims toy_env (toy_files [7]) (lit ''priv'') (lit ''pub'') True toy_sql toy_sdk ?ap ?ap'"
    by (rule run_step [OF run_refl app_step_request])
  have db: "ap_db ?ap = ?t" by (rule toy_app_start)
  have s: "tb_orders (ap_db ?ap') = tb_orders (set_order (snd toy_times) 1 SECOND_APPROVED ?t)"
    by (rule toy_app_decides)
  have o0: "tb_orders (id (ap_db ?ap)) = [toy_row PENDING_SECOND_REVIEW]" by (simp only: db id_apply) (simp add: toy_tables_def)
  have o1: "tb_orders (id (ap_db ?ap')) =
      [(toy_row PENDING_SECOND_REVIEW)\<lparr>or_state := state_value SECOND_APPROVED, or_updated_at := snd toy_times\<rparr>]"
    unfolding id_apply s by (simp add: set_order_def toy_tables_def toy_row_def del: state_value.simps)
  have "distinct (map or_id (tb_orders (id (ap_db ?ap))))" unfolding o0 by simp
  from orders_follow_machine [OF toy_sql_ok run this, unfolded o0 o1]
  have "\<exists>ts. wo_path PENDING_SECOND_REVIEW ts SECOND_APPROVED"
    by (auto simp: toy_row_def simp del: state_value.simps)
  moreover have "map or_state (tb_orders (ap_db ?ap')) = [state_value SECOND_APPROVED]"
    using o1 unfolding id_apply by (simp del: state_value.simps)
  ultimately show ?thesis using run by (intro exI [of _ ?ap'] conjI)
qed

text \<open>C22. Without DingTalk credentials the callback is open: a server started from a configuration without an app key (the
  default) creates no DingTalk service, and then a FINISH callback without any signature decides the pending approval of the order it names.\<close>

theorem unconfigured_server_takes_unsigned_callbacks:
  assumes "main trunc toml env args = Inr la"
    and "\<not> py_truthy E (setting trunc toml env (ar_config args) DingtalkAppKey)"
    and "py_truthy E (setting trunc toml env (ar_config args) MysqlUrl)"
    and "bo_engine B (setting trunc toml env (ar_config args) MysqlUrl) = Inr ()"
    and "db_ok tb D" and "finish_event (cb_body rq) biz_id result" and "py_truthy E biz_id"
    and "sql_orders D (ByOrderNo biz_id) db = Inr [wo]" and "or_state wo = state_value s"
    and "sql_approvals D (or_id wo) (Some (lit ''PENDING'')) db = Inr [p]"
    and "can_transition s (approval_target result (pr_review_type p))" and "\<forall>f. fst (sql_commit D f db) = Inr ()"
  shows "\<exists>ap. app_request P E D sdk (Callback now_ms utcnow rq) (startup E B (Some (la_config la)) db w) = (SUCCESS_ANSWER, ap) \<and>
    tb (ap_db ap) = set_order (snd utcnow) (or_id wo) (approval_target result (pr_review_type p))
      (set_approval (fst utcnow) (pr_id p) (approval_status result) (tb db))"
proof -
  obtain c where c: "load_config trunc toml env (ar_config args) = Inr c" and la: "la_config la = c"
    using assms(1) by (auto simp: main_def outcome_iff)
  have k: "cf_dingtalk_app_key c = setting trunc toml env (ar_config args) DingtalkAppKey"
    "cf_mysql_url c = setting trunc toml env (ar_config args) MysqlUrl"
    using load_config_setting [OF c, of DingtalkAppKey] load_config_setting [OF c, of MysqlUrl] by simp_all
  note st = startup_unconfigured [OF assms(2-4) [folded k]]
  obtain se' where h: "handle_approval_finish D utcnow biz_id result \<lparr>se_db = db, se_changes = []\<rparr> = (Inr (), se')"
    and t: "tb (se_db se') = set_order (snd utcnow) (or_id wo) (approval_target result (pr_review_type p))
      (set_approval (fst utcnow) (pr_id p) (approval_status result) (tb db))"
    using finish_completes [OF assms(5,8-12), of utcnow] by blast
  have "verified E None now_ms rq" by (simp add: verified_def)
  from callback_finish [OF this assms(6,7) h] t show ?thesis
    by (simp add: app_request_def la st)
qed

theorem unconfigured_server_takes_unsigned_callbacks_witness:
  "\<exists>la ap. main toy_trunc toy_file [] \<lparr>ar_config = None, ar_host = None, ar_port = None\<rparr> = Inr la \<and>
     app_request toy_prims toy_env toy_sql toy_sdk (Callback 0 toy_times toy_callback)
       (startup toy_env toy_boot (Some (la_config la)) (toy_tables PENDING_SECOND_REVIEW [toy_approval 1]) []) = (SUCCESS_ANSWER, ap) \<and>
     map or_state (tb_orders (ap_db ap)) = [state_value SECOND_APPROVED]"
proof -
  let ?t = "toy_tables PENDING_SECOND_REVIEW [toy_approval 1]" and ?args = "\<lparr>ar_config = None, ar_host = None, ar_port = None\<rparr>"
  obtain c where "apply_env [] default_config = Inr c" using apply_env_ok [of "[]" default_config] by auto
  then obtain la where la: "main toy_trunc toy_file [] ?args = Inr la" by (auto simp: main_def load_config_def)
  have q: "sql_approvals toy_sql (or_id (toy_row PENDING_SECOND_REVIEW)) (Some (lit ''PENDING'')) ?t = Inr [toy_approval 1]"
    using toy_queries(2) [of PENDING_SECOND_REVIEW 1] by (simp add: toy_row_def)
  have e: "setting toy_trunc toy_file [] (ar_config ?args) a = getattr default_config a" for a
    by (simp add: setting_def env_value_def file_value_def)
  have "\<exists>ap. app_request toy_prims toy_env toy_sql toy_sdk (Callback 0 toy_times toy_callback)
      (startup toy_env toy_boot (Some (la_config la)) ?t []) = (SUCCESS_ANSWER, ap) \<and>
    id (ap_db ap) = set_order (snd toy_times) (or_id (toy_row PENDING_SECOND_REVIEW)) (approval_target (JStr (lit ''agree'')) (pr_review_type (toy_approval 1)))
      (set_approval (fst toy_times) (pr_id (toy_approval 1)) (approval_status (JStr (lit ''agree''))) (id ?t))"
    by (rule unconfigured_server_takes_unsigned_callbacks
        [OF la _ _ _ toy_sql_ok toy_callback_event _ toy_queries(1) _ q, where s = PENDING_SECOND_REVIEW])
      (simp_all only: e, simp_all add: default_config_def toy_boot_def py_truthy_def toy_row_def toy_approval_def approval_target_def can_to toy_sql_def)
  then show ?thesis using la
    by (auto simp: set_order_def set_approval_def toy_tables_def toy_row_def toy_approval_def approval_target_def)
qed

end
