(* ===== verification/Concurrent_Callbacks.thy ===== *)
theory Concurrent_Callbacks
  imports Forwarder_App
begin

text \<open>
  Callbacks that overlap. \<open>_handle_approval_finish\<close> of forwarder/app/api/dingtalk.py awaits the database between reading a work order
  and committing its new state, and it takes no lock on the row: here a callback is its two halves, what it decides from the tables it
  reads and the commit, and any number of callbacks interleave between them.
\<close>

section \<open>The two halves of a callback\<close>

text \<open>A callback is answered without touching the tables, or goes on to commit its changes. Each half has its own reading of the clock:
  the decision for \<open>responded_at\<close>, the commit for \<open>updated_at\<close>.\<close>

datatype callback_progress = Answered http | Committing "change list"

definition finish_decide :: "'db sql \<Rightarrow> datetime \<Rightarrow> json \<Rightarrow> json \<Rightarrow> 'db \<Rightarrow> callback_progress" where
  "finish_decide D utcnow biz_id result db =
     (case read_order D biz_id db of
        Inl e \<Rightarrow> Answered (Unhandled e)
      | Inr None \<Rightarrow> Answered SUCCESS_ANSWER
      | Inr (Some (wo, approval)) \<Rightarrow>
          (case parse_state (or_state wo) of
             Inl e \<Rightarrow> Answered (Unhandled e)
           | Inr current \<Rightarrow>
               (let review_type = (case approval of None \<Rightarrow> lit ''first'' | Some p \<Rightarrow> pr_review_type p)
                in case transition current (approval_target result review_type) of
                     Inl _ \<Rightarrow> Answered SUCCESS_ANSWER
                   | Inr new_state \<Rightarrow>
                       Committing
                         ((case approval of
                             None \<Rightarrow> []
                           | Some p \<Rightarrow> [SetApproval (pr_id p) (approval_status result) utcnow]) @
                          [SetOrderState (or_id wo) (state_value new_state)]))))"

definition callback_decide ::
    "py_env \<Rightarrow> 'db sql \<Rightarrow> bool \<Rightarrow> dingtalk option \<Rightarrow> int \<Rightarrow> datetime \<Rightarrow> callback_request \<Rightarrow> 'db \<Rightarrow> callback_progress" where
  "callback_decide E D ready dt_svc now_ms utcnow rq db =
     (if \<not> ready then Answered (Unhandled RuntimeError)
      else
        (case rbind (callback_body rq) (\<lambda>body. rbind (callback_authentic E dt_svc now_ms rq) (\<lambda>_. Inr body)) of
           Inl answer \<Rightarrow> Answered answer
         | Inr (JObj kvs) \<Rightarrow>
             (if jget kvs (lit ''type'') (JStr []) = JStr (lit ''FINISH'') \<and> py_truthy E (jget kvs (lit ''businessId'') (JStr []))
              then finish_decide D utcnow (jget kvs (lit ''businessId'') (JStr [])) (jget kvs (lit ''result'') (JStr [])) db
              else Answered SUCCESS_ANSWER)
         | Inr _ \<Rightarrow> Answered (Unhandled AttributeError)))"

definition callback_commit :: "'db sql \<Rightarrow> datetime \<Rightarrow> change list \<Rightarrow> 'db \<Rightarrow> http \<times> 'db" where
  "callback_commit D utcnow chs db =
     (case sql_commit D (fold (apply_change utcnow) chs) db of
        (Inl e, db') \<Rightarrow> (Unhandled e, db')
      | (Inr _, db') \<Rightarrow> (SUCCESS_ANSWER, db'))"

section \<open>Callbacks in flight\<close>

text \<open>The database, and the changes that callbacks in flight are about to commit.\<close>

record 'db in_flight =
  fl_db :: 'db
  fl_open :: "change list list"

inductive flight_step :: "py_env \<Rightarrow> 'db sql \<Rightarrow> 'db in_flight \<Rightarrow> 'db in_flight \<Rightarrow> bool" for E D where
  flight_decides: "callback_decide E D ready dt_svc now_ms utcnow rq (fl_db fl) = Committing chs \<Longrightarrow>
    flight_step E D fl (fl\<lparr>fl_open := fl_open fl @ [chs]\<rparr>)"
| flight_commits: "fl_open fl = before @ chs # after \<Longrightarrow>
    flight_step E D fl (fl\<lparr>fl_db := snd (callback_commit D utcnow chs (fl_db fl)), fl_open := before @ after\<rparr>)"

inductive_cases flight_stepE: "flight_step E D fl fl'"

definition flight_run :: "py_env \<Rightarrow> 'db sql \<Rightarrow> 'db in_flight \<Rightarrow> 'db in_flight \<Rightarrow> bool" where
  "flight_run E D = (flight_step E D)\<^sup>*\<^sup>*"

definition flight_start :: "'db \<Rightarrow> 'db in_flight" where
  "flight_start db = \<lparr>fl_db = db, fl_open = []\<rparr>"

section \<open>The halves are the handler\<close>

text \<open>Committing a session that has changes.\<close>

lemma session_commit_halves:
  assumes "session_commit D now se = (r, se')" and "se_changes se = chs" and "chs \<noteq> []"
  shows "(case r of Inl e \<Rightarrow> Unhandled e | Inr _ \<Rightarrow> SUCCESS_ANSWER, se_db se') = callback_commit D now chs (se_db se)"
  using assms by (auto simp: session_commit_def callback_commit_def split: prod.splits sum.splits)

lemma finish_halves:
  assumes run: "handle_approval_finish D utcnow biz_id result \<lparr>se_db = db, se_changes = []\<rparr> = (r, se')"
  shows "(case r of Inl e \<Rightarrow> Unhandled e | Inr _ \<Rightarrow> SUCCESS_ANSWER, se_db se') =
    (case finish_decide D (fst utcnow) biz_id result db of Answered a \<Rightarrow> (a, db) | Committing chs \<Rightarrow> callback_commit D (snd utcnow) chs db)"
proof (cases "read_order D biz_id db")
  case (Inr x)
  show ?thesis
  proof (cases x)
    case (Some y)
    obtain wo ap where y: "y = (wo, ap)" by (cases y)
    let ?se = "mark_approval result (fst utcnow) ap \<lparr>se_db = db, se_changes = []\<rparr>"
    let ?rev = "case ap of None \<Rightarrow> lit ''first'' | Some p \<Rightarrow> pr_review_type p"
    let ?marks = "case ap of None \<Rightarrow> [] | Some p \<Rightarrow> [SetApproval (pr_id p) (approval_status result) (fst utcnow)]"
    have se: "se_db ?se = db" "se_changes ?se = ?marks"
      by (simp_all add: mark_approval_def session_change_def split: option.split)
    show ?thesis
    proof (cases "parse_state (or_state wo)")
      case Inl
      then show ?thesis using run Inr se by (auto simp: Some y handle_approval_finish_def finish_decide_def)
    next
      case st: (Inr s)
      show ?thesis
      proof (cases "transition s (approval_target result ?rev)")
        case Inl
        then show ?thesis using run Inr st se by (auto simp: Some y handle_approval_finish_def finish_decide_def session_rollback_def)
      next
        case tr: (Inr u)
        let ?se2 = "session_change (SetOrderState (or_id wo) (state_value u)) ?se"
        have c: "session_commit D (snd utcnow) ?se2 = (r, se')"
          using run Inr st tr by (simp add: Some y handle_approval_finish_def)
        have d: "finish_decide D (fst utcnow) biz_id result db = Committing (?marks @ [SetOrderState (or_id wo) (state_value u)])"
          using Inr st tr by (simp add: Some y finish_decide_def)
        have "se_changes ?se2 = ?marks @ [SetOrderState (or_id wo) (state_value u)]" "se_db ?se2 = db"
          using se by (simp_all add: session_change_def)
        from session_commit_halves [OF c this(1)] this(2) show ?thesis by (simp add: d)
      qed
    qed
  qed (use run Inr in \<open>auto simp: handle_approval_finish_def finish_decide_def\<close>)
qed (use run in \<open>auto simp: handle_approval_finish_def finish_decide_def\<close>)

text \<open>A callback that runs alone is its two halves: the endpoint answers as the decision says, without touching the tables, or commits the
  changes that the decision made of the tables it read; so all that other callbacks can interfere with lies between the two.\<close>

lemma callback_halves:
  "dingtalk_callback E D ready dt_svc now_ms utcnow rq db =
    (case callback_decide E D ready dt_svc now_ms (fst utcnow) rq db of
       Answered a \<Rightarrow> (a, db) | Committing chs \<Rightarrow> callback_commit D (snd utcnow) chs db)"
proof (cases "rbind (callback_body rq) (\<lambda>body. rbind (callback_authentic E dt_svc now_ms rq) (\<lambda>_. Inr body))")
  case (Inr body)
  show ?thesis
  proof (cases "\<exists>kvs. body = JObj kvs \<and> jget kvs (lit ''type'') (JStr []) = JStr (lit ''FINISH'') \<and>
      py_truthy E (jget kvs (lit ''businessId'') (JStr []))")
    case True
    then obtain kvs where b: "body = JObj kvs" "jget kvs (lit ''type'') (JStr []) = JStr (lit ''FINISH'')"
      "py_truthy E (jget kvs (lit ''businessId'') (JStr []))" by blast
    obtain r se' where h: "handle_approval_finish D utcnow (jget kvs (lit ''businessId'') (JStr [])) (jget kvs (lit ''result'') (JStr []))
        \<lparr>se_db = db, se_changes = []\<rparr> = (r, se')" by fastforce
    have "dingtalk_callback E D ready dt_svc now_ms utcnow rq db =
        (if ready then (case r of Inl e \<Rightarrow> Unhandled e | Inr _ \<Rightarrow> SUCCESS_ANSWER, se_db se') else (Unhandled RuntimeError, db))"
      using Inr b h by (cases r) (simp_all add: dingtalk_callback_def get_db_session_def callback_event_def session_rollback_def)
    then show ?thesis using Inr b by (simp add: finish_halves [OF h] callback_decide_def)
  next
    case False
    then show ?thesis using Inr
      by (cases body) (auto simp: dingtalk_callback_def get_db_session_def callback_event_def callback_decide_def session_rollback_def Let_def)
  qed
qed (simp add: dingtalk_callback_def get_db_session_def callback_decide_def session_rollback_def)

text \<open>What a commit may make of one row, given its changes.\<close>

definition row_set :: "change list \<Rightarrow> order_row \<Rightarrow> order_row \<Rightarrow> bool" where
  "row_set chs r r' \<longleftrightarrow>
     or_id r' = or_id r \<and> or_order_no r' = or_order_no r \<and>
     (or_state r' = or_state r \<or> SetOrderState (or_id r) (or_state r') \<in> set chs)"

lemma row_set_trans: "row_set [ch] x y \<Longrightarrow> row_set chs y z \<Longrightarrow> row_set (ch # chs) x z"
  unfolding row_set_def by (elim conjE disjE) simp_all

lemma row_set_change: "list_all2 (row_set [ch]) (tb_orders t) (tb_orders (apply_change now ch t))"
  by (cases ch) (simp_all add: apply_change_def list.rel_map row_set_def list.rel_refl)

lemma row_set_commit: "list_all2 (row_set chs) (tb_orders t) (tb_orders (fold (apply_change now) chs t))"
proof (induction chs arbitrary: t)
  case (Cons ch chs)
  have "list_all2 (row_set chs) (tb_orders (apply_change now ch t)) (tb_orders (fold (apply_change now) (ch # chs) t))"
    using Cons.IH by simp
  from list_all2_trans [OF row_set_trans row_set_change this] show ?case .
qed (simp add: list_all2_refl row_set_def)

section \<open>Any interleaving\<close>

text \<open>What a callback is about to write is where the machine leads to from the order's state at the start.\<close>

definition flights_ok :: "order_row list \<Rightarrow> change list \<Rightarrow> bool" where
  "flights_ok rs chs \<longleftrightarrow> (\<forall>r \<in> set rs. \<forall>st. SetOrderState (or_id r) st \<in> set chs \<longrightarrow> row_moved r (r\<lparr>or_state := st\<rparr>))"

lemma row_moved_set:
  assumes "row_moved r x" and "row_set chs x y" and "flights_ok rs chs" and "r \<in> set rs"
  shows "row_moved r y"
proof (cases "or_state y = or_state x")
  case True
  then show ?thesis using assms(1,2) by (simp add: row_moved_def row_set_def)
next
  case False
  then have "SetOrderState (or_id r) (or_state y) \<in> set chs" using assms(1,2) by (auto simp: row_moved_def row_set_def)
  with assms(3,4) have "row_moved r (r\<lparr>or_state := or_state y\<rparr>)" by (simp add: flights_ok_def)
  then show ?thesis using assms(1,2) by (simp add: row_moved_def row_set_def)
qed

lemma decide_effect:
  assumes "callback_decide E D ready dt_svc now_ms utcnow rq db = Committing chs" and "db_ok tb D"
  shows "\<exists>wo s u. wo \<in> set (tb_orders (tb db)) \<and> or_state wo = state_value s \<and> transition s u = Inr u \<and> u \<in> decided \<and>
    (\<forall>i st. SetOrderState i st \<in> set chs \<longrightarrow> i = or_id wo \<and> st = state_value u)"
proof -
  obtain biz_id result where "finish_decide D utcnow biz_id result db = Committing chs"
    using assms(1) by (auto simp: callback_decide_def split: if_splits sum.splits json.splits)
  then obtain wo ap s u where r: "read_order D biz_id db = Inr (Some (wo, ap))" and s: "parse_state (or_state wo) = Inr s"
    and t: "transition s (approval_target result (case ap of None \<Rightarrow> lit ''first'' | Some p \<Rightarrow> pr_review_type p)) = Inr u"
    and c: "chs = (case ap of None \<Rightarrow> [] | Some p \<Rightarrow> [SetApproval (pr_id p) (approval_status result) utcnow]) @
      [SetOrderState (or_id wo) (state_value u)]"
    by (auto simp: finish_decide_def Let_def split: sum.splits option.splits)
  have "wo \<in> set (tb_orders (tb db))" using r order_answer_one [OF assms(2)] by (auto simp: read_order_Some)
  moreover have "transition s u = Inr u" "u \<in> decided" using t approval_target_decided by (auto simp: outcome_iff)
  ultimately show ?thesis using parse_state_Inr [OF s] c
    by (intro exI [of _ wo] exI [of _ s] exI [of _ u]) (auto split: option.splits)
qed

text \<open>The rows now, and the commits to come, in terms of the rows at the start.\<close>

definition flight_inv :: "('db \<Rightarrow> tables) \<Rightarrow> order_row list \<Rightarrow> 'db in_flight \<Rightarrow> bool" where
  "flight_inv tb rs fl \<longleftrightarrow>
     list_all2 row_moved rs (tb_orders (tb (fl_db fl))) \<and> (\<forall>chs \<in> set (fl_open fl). flights_ok rs chs)"

lemma decide_flights_ok:
  assumes "callback_decide E D ready dt_svc now_ms utcnow rq db = Committing chs" and "db_ok tb D"
    and "list_all2 row_moved rs (tb_orders (tb db))" and "distinct (map or_id rs)"
  shows "flights_ok rs chs"
proof -
  obtain wo s u where wo: "wo \<in> set (tb_orders (tb db))" "or_state wo = state_value s" "transition s u = Inr u" "u \<in> decided"
    and c: "\<forall>i st. SetOrderState i st \<in> set chs \<longrightarrow> i = or_id wo \<and> st = state_value u"
    using decide_effect [OF assms(1,2)] by blast
  obtain r where r: "r \<in> set rs" "row_moved r wo"
    using assms(3) wo(1) by (metis in_set_conv_nth list_all2_lengthD list_all2_nthD2)
  have "wo_path s [u] u" using wo(3) by (simp add: wo_path_Cons_iff)
  then have "row_moved wo (wo\<lparr>or_state := state_value u\<rparr>)"
    using wo(2,4) unfolding row_moved_def by (intro conjI disjI2 exI [of _ s] exI [of _ "[u]"] exI [of _ u]) simp_all
  from row_moved_trans [OF r(2) this] have "row_moved r (r\<lparr>or_state := state_value u\<rparr>)"
    by (simp add: row_moved_def)
  moreover have "r' = r" if "r' \<in> set rs" "or_id r' = or_id wo" for r'
    using that r assms(4) by (metis distinct_map inj_onD row_moved_def)
  ultimately show ?thesis using c unfolding flights_ok_def by blast
qed

lemma flight_inv_step:
  assumes "flight_step E D fl fl'" and "db_ok tb D" and "flight_inv tb rs fl" and "distinct (map or_id rs)"
  shows "flight_inv tb rs fl'"
  using assms(1)
proof (rule flight_stepE, goal_cases)
  case (1 ready dt_svc now_ms utcnow rq chs)
  then show ?thesis
    using assms(3) decide_flights_ok [OF 1(2) assms(2) _ assms(4)] by (auto simp: flight_inv_def)
next
  case (2 before chs after utcnow)
  let ?db' = "snd (callback_commit D utcnow chs (fl_db fl))"
  have "tb ?db' = tb (fl_db fl) \<or> tb ?db' = fold (apply_change utcnow) chs (tb (fl_db fl))"
    using assms(2) by (auto simp: callback_commit_def db_ok_def split: prod.split sum.split) blast+
  then have "list_all2 row_moved rs (tb_orders (tb ?db'))"
  proof
    assume e: "tb ?db' = fold (apply_change utcnow) chs (tb (fl_db fl))"
    have "row_moved r z" if "r \<in> set rs" "row_moved r x" "row_set chs x z" for r x z
      using row_moved_set [OF that(2,3) _ that(1)] assms(3) 2(2) by (auto simp: flight_inv_def)
    with assms(3) row_set_commit [of chs "tb (fl_db fl)" utcnow] show ?thesis
      unfolding e flight_inv_def list_all2_conv_all_nth by (metis nth_mem)
  qed (use assms(3) in \<open>simp add: flight_inv_def\<close>)
  then show ?thesis using assms(3) 2 by (auto simp: flight_inv_def)
qed

interpretation flights: order_history "\<lambda>fl. tb_orders (tb (fl_db fl))"
    "\<lambda>fl fl'. db_ok tb D \<and> fl_open fl = [] \<and> flight_run E D fl fl'" for tb E D
proof
  fix fl fl'
  assume r: "db_ok tb D \<and> fl_open fl = [] \<and> flight_run E D fl fl'" and d: "distinct (map or_id (tb_orders (tb (fl_db fl))))"
  then have "(flight_step E D)\<^sup>*\<^sup>* fl fl'" by (simp add: flight_run_def)
  then have "flight_inv tb (tb_orders (tb (fl_db fl))) fl'"
  proof (induction rule: rtranclp_induct)
    case base
    show ?case using r by (simp add: flight_inv_def list_all2_refl row_moved_refl)
  next
    case (step y z)
    then show ?case using flight_inv_step [OF _ _ _ d] r by blast
  qed
  then show "list_all2 row_moved (tb_orders (tb (fl_db fl))) (tb_orders (tb (fl_db fl')))" by (simp add: flight_inv_def)
qed

section \<open>Two decisions at once\<close>

lemma decide_committing:
  assumes "verified E dt_svc now_ms rq" and "finish_event (cb_body rq) biz_id result" and "py_truthy E biz_id"
    and "sql_orders D (ByOrderNo biz_id) db = Inr [wo]" and "or_state wo = state_value s"
    and "sql_approvals D (or_id wo) (Some (lit ''PENDING'')) db = Inr [p]"
    and "can_transition s (approval_target result (pr_review_type p))"
  shows "callback_decide E D True dt_svc now_ms utcnow rq db =
    Committing [SetApproval (pr_id p) (approval_status result) utcnow,
                SetOrderState (or_id wo) (state_value (approval_target result (pr_review_type p)))]"
proof -
  obtain kvs where k: "loads_bytes (cb_body rq) = Inr (JObj kvs)" "map_of kvs (lit ''type'') = Some (JStr (lit ''FINISH''))"
    "map_of kvs (lit ''businessId'') = Some biz_id" "jget kvs (lit ''result'') (JStr []) = result"
    using assms(2) by (auto simp: finish_event_def)
  have j: "jget kvs (lit ''type'') (JStr []) = JStr (lit ''FINISH'')" "jget kvs (lit ''businessId'') (JStr []) = biz_id"
    using k by (simp_all add: jget_def)
  have "read_order D biz_id db = Inr (Some (wo, Some p))" using assms(4,6) by (simp add: read_order_Some)
  then have "finish_decide D utcnow biz_id result db = Committing [SetApproval (pr_id p) (approval_status result) utcnow,
      SetOrderState (or_id wo) (state_value (approval_target result (pr_review_type p)))]"
    using assms(7) by (simp add: finish_decide_def assms(5) transition_def)
  then show ?thesis using k j assms(3) callback_authentic_iff [of E dt_svc now_ms rq] assms(1)
    by (simp add: callback_decide_def callback_body_def)
qed

lemma commit_effect:
  assumes "db_ok tb D" and "\<forall>f db. fst (sql_commit D f db) = Inr ()"
  shows "\<exists>db'. callback_commit D now [SetApproval i st t, SetOrderState j (state_value u)] db = (SUCCESS_ANSWER, db') \<and>
    tb db' = set_order now j u (set_approval t i st (tb db))"
proof -
  obtain db' where c: "sql_commit D (fold (apply_change now) [SetApproval i st t, SetOrderState j (state_value u)]) db = (Inr (), db')"
    using assms(2) by (metis prod.collapse)
  then have "tb db' = fold (apply_change now) [SetApproval i st t, SetOrderState j (state_value u)] (tb db)"
    using assms(1) unfolding db_ok_def by blast
  then show ?thesis using c
    by (auto simp: callback_commit_def apply_change_def set_order_def set_approval_def)
qed

text \<open>Two callbacks that read the same tables, committed one after the other: the run in which both decide before the first commits.\<close>

lemma overlapping_run:
  assumes "callback_decide E D ready1 svc1 m1 t1 rq1 db = Committing chs1" and "callback_decide E D ready2 svc2 m2 t2 rq2 db = Committing chs2"
    and "callback_commit D t1' chs1 db = (a1, db1)" and "callback_commit D t2' chs2 db1 = (a2, db2)"
  shows "flight_run E D (flight_start db) \<lparr>fl_db = db, fl_open = [chs1, chs2]\<rparr>"
    and "flight_step E D \<lparr>fl_db = db, fl_open = [chs1, chs2]\<rparr> \<lparr>fl_db = db1, fl_open = [chs2]\<rparr>"
    and "flight_step E D \<lparr>fl_db = db1, fl_open = [chs2]\<rparr> \<lparr>fl_db = db2, fl_open = []\<rparr>"
proof -
  let ?a = "\<lparr>fl_db = db, fl_open = [chs1]\<rparr>" and ?b = "\<lparr>fl_db = db, fl_open = [chs1, chs2]\<rparr>"
  let ?c = "\<lparr>fl_db = db1, fl_open = [chs2]\<rparr>"
  have "flight_step E D (flight_start db) ?a"
    using flight_decides [where fl = "flight_start db", of E D ready1 svc1 m1 t1 rq1 chs1] assms(1) by (simp add: flight_start_def)
  moreover have "flight_step E D ?a ?b"
    using flight_decides [where fl = ?a, of E D ready2 svc2 m2 t2 rq2 chs2] assms(2) by simp
  ultimately show "flight_run E D (flight_start db) ?b" unfolding flight_run_def by simp
  show "flight_step E D ?b ?c"
    using flight_commits [where fl = ?b and E = E and D = D and before = "[]" and utcnow = t1' and chs = chs1] assms(3) by simp
  show "flight_step E D ?c \<lparr>fl_db = db2, fl_open = []\<rparr>"
    using flight_commits [where fl = ?c and E = E and D = D and before = "[]" and utcnow = t2' and chs = chs2] assms(4) by simp
qed

text \<open>An order that waits for its first approval, with its record.\<close>

definition toy_first :: approval_row where
  "toy_first = (toy_approval 1)\<lparr>pr_review_type := lit ''first''\<rparr>"

lemma toy_first_query:
  "sql_approvals toy_sql (or_id (toy_row st)) (Some (lit ''PENDING'')) (toy_tables st [toy_first]) = Inr [toy_first]"
  by (simp add: toy_sql_def toy_tables_def toy_first_def toy_approval_def toy_row_def toy_eq_def)

section \<open>Properties\<close>

text \<open>C5. Overlapping decisions take a closed order back to approved: when a refusing and an agreeing callback for an order in its first review
  both read it before either commits, the refusal's commit is answered with success and closes the order, and the agreement's commit is answered
  with success too and approves the order that is closed by then, a transition the state machine has from no closed order; the
  order's record ends as approved. The run that does it takes the steps of the interleaved machine.\<close>

theorem overlapping_decisions_reopen_closed_order:
  assumes "db_ok tb D" and "verified E svc1 m1 rq1" and "verified E svc2 m2 rq2"
    and "finish_event (cb_body rq1) biz_id refusal" and "refusal \<noteq> JStr (lit ''agree'')"
    and "finish_event (cb_body rq2) biz_id (JStr (lit ''agree''))" and "py_truthy E biz_id"
    and "sql_orders D (ByOrderNo biz_id) db = Inr [wo]" and "or_state wo = state_value PENDING_APPROVAL"
    and "sql_approvals D (or_id wo) (Some (lit ''PENDING'')) db = Inr [p]" and "pr_review_type p \<noteq> lit ''second''"
    and "\<forall>f db. fst (sql_commit D f db) = Inr ()"
  shows "\<exists>chs1 chs2 db1 db2.
    callback_decide E D True svc1 m1 t1 rq1 db = Committing chs1 \<and> callback_decide E D True svc2 m2 t2 rq2 db = Committing chs2 \<and>
    callback_commit D t1' chs1 db = (SUCCESS_ANSWER, db1) \<and> callback_commit D t2' chs2 db1 = (SUCCESS_ANSWER, db2) \<and>
    tb db1 = set_order t1' (or_id wo) CLOSED (set_approval t1 (pr_id p) (lit ''REJECTED'') (tb db)) \<and>
    tb db2 = set_order t2' (or_id wo) APPROVED (set_approval t2 (pr_id p) (lit ''APPROVED'') (tb db1)) \<and>
    (\<forall>ts. \<not> wo_path CLOSED ts APPROVED) \<and>
    flight_run E D (flight_start db) \<lparr>fl_db = db, fl_open = [chs1, chs2]\<rparr> \<and>
    flight_step E D \<lparr>fl_db = db, fl_open = [chs1, chs2]\<rparr> \<lparr>fl_db = db1, fl_open = [chs2]\<rparr> \<and>
    flight_step E D \<lparr>fl_db = db1, fl_open = [chs2]\<rparr> \<lparr>fl_db = db2, fl_open = []\<rparr>"
proof -
  let ?c1 = "[SetApproval (pr_id p) (lit ''REJECTED'') t1, SetOrderState (or_id wo) (state_value CLOSED)]"
  let ?c2 = "[SetApproval (pr_id p) (lit ''APPROVED'') t2, SetOrderState (or_id wo) (state_value APPROVED)]"
  have n: "\<not> wo_path CLOSED ts APPROVED" for ts
    by (cases ts) (simp_all add: wo_path_Cons_can can_transition_def)
  have c1: "callback_decide E D True svc1 m1 t1 rq1 db = Committing ?c1"
    using decide_committing [OF assms(2,4,7,8,9,10), of t1] assms(5,11)
    by (simp add: approval_target_def approval_status_def can_to del: state_value.simps)
  have c2: "callback_decide E D True svc2 m2 t2 rq2 db = Committing ?c2"
    using decide_committing [OF assms(3,6,7,8,9,10), of t2] assms(11)
    by (simp add: approval_target_def approval_status_def can_to del: state_value.simps)
  obtain db1 where d1: "callback_commit D t1' ?c1 db = (SUCCESS_ANSWER, db1)"
    "tb db1 = set_order t1' (or_id wo) CLOSED (set_approval t1 (pr_id p) (lit ''REJECTED'') (tb db))"
    using commit_effect [OF assms(1,12)] by blast
  obtain db2 where d2: "callback_commit D t2' ?c2 db1 = (SUCCESS_ANSWER, db2)"
    "tb db2 = set_order t2' (or_id wo) APPROVED (set_approval t2 (pr_id p) (lit ''APPROVED'') (tb db1))"
    using commit_effect [OF assms(1,12)] by blast
  show ?thesis
    by (intro exI conjI) (rule c1 c2 d1 d2 n allI overlapping_run [OF c1 c2 d1(1) d2(1)])+
qed

theorem overlapping_decisions_reopen_closed_order_witness:
  "\<exists>chs1 chs2 db1 db2.
     callback_commit toy_sql (toy_time 8) chs1 (toy_tables PENDING_APPROVAL [toy_first]) = (SUCCESS_ANSWER, db1) \<and>
     callback_commit toy_sql (toy_time 9) chs2 db1 = (SUCCESS_ANSWER, db2) \<and>
     flight_run toy_env toy_sql (flight_start (toy_tables PENDING_APPROVAL [toy_first]))
       \<lparr>fl_db = toy_tables PENDING_APPROVAL [toy_first], fl_open = [chs1, chs2]\<rparr> \<and>
     map or_state (tb_orders db1) = [state_value CLOSED] \<and> map or_state (tb_orders db2) = [state_value APPROVED]"
proof -
  let ?t = "toy_tables PENDING_APPROVAL [toy_first]"
  have v: "verified toy_env None 0 rq" for rq by (simp add: verified_def)
  have b: "py_truthy toy_env (JStr (lit ''WO-1''))" by (simp add: py_truthy_def)
  have s: "or_state (toy_row PENDING_APPROVAL) = state_value PENDING_APPROVAL" by (simp add: toy_row_def)
  have t: "pr_review_type toy_first \<noteq> lit ''second''" "JStr (lit ''refuse'') \<noteq> JStr (lit ''agree'')" by (simp_all add: toy_first_def)
  have c: "\<forall>f db. fst (sql_commit toy_sql f db) = Inr ()" by (simp add: toy_sql_def)
  have e: "finish_event (cb_body (toy_decision ''refuse'')) (JStr (lit ''WO-1'')) (JStr (lit ''refuse''))" by (rule toy_decision_event) simp
  obtain chs1 chs2 db1 db2 where f: "callback_commit toy_sql (toy_time 8) chs1 ?t = (SUCCESS_ANSWER, db1)"
    "callback_commit toy_sql (toy_time 9) chs2 db1 = (SUCCESS_ANSWER, db2)"
    "flight_run toy_env toy_sql (flight_start ?t) \<lparr>fl_db = ?t, fl_open = [chs1, chs2]\<rparr>"
    "id db1 = set_order (toy_time 8) (or_id (toy_row PENDING_APPROVAL)) CLOSED
      (set_approval (toy_time 7) (pr_id toy_first) (lit ''REJECTED'') (id ?t))"
    "id db2 = set_order (toy_time 9) (or_id (toy_row PENDING_APPROVAL)) APPROVED
      (set_approval (toy_time 7) (pr_id toy_first) (lit ''APPROVED'') (id db1))"
    using overlapping_decisions_reopen_closed_order [OF toy_sql_ok v v e t(2) toy_callback_event b toy_queries(1) s toy_first_query t(1) c,
        of "toy_time 7" "toy_time 7" "toy_time 8" "toy_time 9"] by blast
  then have "map or_state (tb_orders db1) = [state_value CLOSED]" "map or_state (tb_orders db2) = [state_value APPROVED]"
    by (simp_all add: set_order_def set_approval_def toy_tables_def del: state_value.simps)
  with f(1-3) show ?thesis by (intro exI [of _ chs1] exI [of _ chs2] exI [of _ db1] exI [of _ db2] conjI)
qed

end
