(* ===== verification/Busy_App.thy ===== *)
theory Busy_App
  imports Concurrent_Callbacks Busy_Server
begin

text \<open>
  The application with callbacks and connections in flight: the machine of Forwarder_App in which a callback is its two halves and a connection of an agent its pieces
  (Busy_Server), so that requests of every kind, other callbacks and the events of all connections come in between. Every run of the application with
  undivided requests and connections is a run of this machine; every run of this machine is one of the callbacks in flight and one of the divided connections.
\<close>

section \<open>The machine\<close>

record ('sk, 'pk, 'db, 's) busy_app =
  bz_app :: "('sk, 'pk, 'db, 's) app"
  bz_joining :: "(nat, ('sk, 'pk) handshake \<times> pystr list) dict"
  bz_leaving :: "(nat, ('sk, 'pk) session) dict"
  bz_open :: "change list list"

text \<open>Callbacks are divided, and a build goes through the divided connections.\<close>

definition divided :: "request \<Rightarrow> bool" where
  "divided rq = (case rq of Callback _ _ _ \<Rightarrow> True | TriggerBuild _ _ _ \<Rightarrow> True | _ \<Rightarrow> False)"

definition set_db :: "'db \<Rightarrow> ('sk, 'pk, 'db, 's) app \<Rightarrow> ('sk, 'pk, 'db, 's) app" where
  "set_db db ap = ap\<lparr>ap_db := db\<rparr>"

definition connections_of :: "('sk, 'pk, 'db, 's) busy_app \<Rightarrow> ('sk, 'pk) busy_server" where
  "connections_of bz = \<lparr>bs_server = ap_server (bz_app bz), bs_joining = bz_joining bz, bs_leaving = bz_leaving bz\<rparr>"

definition set_connections :: "('sk, 'pk) busy_server \<Rightarrow> ('sk, 'pk, 'db, 's) busy_app \<Rightarrow> ('sk, 'pk, 'db, 's) busy_app" where
  "set_connections bs bz =
     bz\<lparr>bz_app := (bz_app bz)\<lparr>ap_server := bs_server bs\<rparr>, bz_joining := bs_joining bs, bz_leaving := bs_leaving bs\<rparr>"

inductive busy_step ::
    "('sk, 'pk) prims \<Rightarrow> py_env \<Rightarrow> files \<Rightarrow> pystr \<Rightarrow> pystr \<Rightarrow> bool \<Rightarrow> 'db sql \<Rightarrow> 's sdk \<Rightarrow>
     ('sk, 'pk, 'db, 's) busy_app \<Rightarrow> ('sk, 'pk, 'db, 's) busy_app \<Rightarrow> bool"
  for P E fs priv pub has_cb D sdk where
  busy_request: "\<not> divided rq \<Longrightarrow>
    busy_step P E fs priv pub has_cb D sdk bz (bz\<lparr>bz_app := snd (app_request P E D sdk rq (bz_app bz))\<rparr>)"
| busy_connections: "connection_step P E fs priv pub has_cb (connections_of bz) bs \<Longrightarrow>
    busy_step P E fs priv pub has_cb D sdk bz (set_connections bs bz)"
| busy_decides: "callback_decide E D (ap_ready (bz_app bz)) (ap_service (bz_app bz)) now_ms utcnow crq (ap_db (bz_app bz)) = Committing chs \<Longrightarrow>
    busy_step P E fs priv pub has_cb D sdk bz (bz\<lparr>bz_open := bz_open bz @ [chs]\<rparr>)"
| busy_commits: "bz_open bz = before @ chs # after \<Longrightarrow>
    busy_step P E fs priv pub has_cb D sdk bz
      (bz\<lparr>bz_app := set_db (snd (callback_commit D utcnow chs (ap_db (bz_app bz)))) (bz_app bz), bz_open := before @ after\<rparr>)"

inductive_cases busy_stepE: "busy_step P E fs priv pub has_cb D sdk bz bz'"

definition busy_run ::
    "('sk, 'pk) prims \<Rightarrow> py_env \<Rightarrow> files \<Rightarrow> pystr \<Rightarrow> pystr \<Rightarrow> bool \<Rightarrow> 'db sql \<Rightarrow> 's sdk \<Rightarrow>
     ('sk, 'pk, 'db, 's) busy_app \<Rightarrow> ('sk, 'pk, 'db, 's) busy_app \<Rightarrow> bool" where
  "busy_run P E fs priv pub has_cb D sdk = (busy_step P E fs priv pub has_cb D sdk)\<^sup>*\<^sup>*"

definition idle_app :: "('sk, 'pk, 'db, 's) app \<Rightarrow> ('sk, 'pk, 'db, 's) busy_app" where
  "idle_app ap = \<lparr>bz_app = ap, bz_joining = [], bz_leaving = [], bz_open = []\<rparr>"

lemma connections_set [simp]:
  "connections_of (set_connections bs bz) = bs" "set_connections (connections_of bz) bz = bz"
  "set_connections bs' (set_connections bs bz) = set_connections bs' bz"
  "connections_of (idle_app ap) = idle_server (ap_server ap)"
  "set_connections (idle_server sv) (idle_app ap) = idle_app (ap\<lparr>ap_server := sv\<rparr>)"
  "ap_db (bz_app (set_connections bs bz)) = ap_db (bz_app bz)" "bz_open (set_connections bs bz) = bz_open bz"
  by (simp_all add: connections_of_def set_connections_def idle_app_def idle_server_def)

section \<open>Undivided runs are runs of it\<close>

lemma connections_run_busy:
  "connections_run P E fs priv pub has_cb (connections_of bz) bs \<Longrightarrow> busy_run P E fs priv pub has_cb D sdk bz (set_connections bs bz)"
  unfolding connections_run_def busy_run_def
proof (induction rule: rtranclp_induct)
  case (step bs bs')
  have "connection_step P E fs priv pub has_cb (connections_of (set_connections bs bz)) bs'" using step.hyps(2) by simp
  from busy_connections [OF this, of D sdk] step.IH show ?case by simp
qed simp

lemma app_step_busy:
  assumes "app_step P E fs priv pub has_cb D sdk ap ap'"
  shows "busy_run P E fs priv pub has_cb D sdk (idle_app ap) (idle_app ap')"
  using assms
proof (rule app_stepE)
  fix rq
  assume e: "ap' = snd (app_request P E D sdk rq ap)"
  consider "\<not> divided rq" | (build) d project payload where "rq = TriggerBuild d project payload"
    | (callback) now_ms utcnow crq where "rq = Callback now_ms utcnow crq"
    by (cases rq) (simp_all add: divided_def)
  then show ?thesis
  proof cases
    case 1
    then show ?thesis
      using busy_request [OF 1, where bz = "idle_app ap", of P E fs priv pub has_cb D sdk]
      unfolding busy_run_def e by (simp add: idle_app_def)
  next
    case build
    have "connections_run P E fs priv pub has_cb (connections_of (idle_app ap))
        (snd (busy_trigger_build P E d project payload (connections_of (idle_app ap))))"
      unfolding connections_run_def by (rule r_into_rtranclp [where r = "connection_step P E fs priv pub has_cb", OF conn_trigger])
    from connections_run_busy [OF this, of D sdk] show ?thesis
      by (auto simp: e build app_request_def trigger_idle split: prod.split)
  next
    case callback
    have ap': "ap' = set_db (snd (dingtalk_callback E D (ap_ready ap) (ap_service ap) now_ms utcnow crq (ap_db ap))) ap"
      by (simp add: e callback app_request_def set_db_def split: prod.split)
    show ?thesis
    proof (cases "callback_decide E D (ap_ready ap) (ap_service ap) now_ms (fst utcnow) crq (ap_db ap)")
      case (Answered a)
      then have "ap' = ap" by (simp add: ap' callback_halves set_db_def)
      then show ?thesis by (simp add: busy_run_def)
    next
      case (Committing chs)
      let ?bz = "(idle_app ap)\<lparr>bz_open := [chs]\<rparr>"
      have "busy_step P E fs priv pub has_cb D sdk (idle_app ap) ?bz"
        using busy_decides [where bz = "idle_app ap" and chs = chs, of E D now_ms "fst utcnow" crq P fs priv pub has_cb sdk] Committing
        by (simp add: idle_app_def)
      moreover have "busy_step P E fs priv pub has_cb D sdk ?bz (idle_app ap')"
        using busy_commits [where bz = ?bz and before = "[]" and utcnow = "snd utcnow" and chs = chs, of "[]" P E fs priv pub has_cb D sdk]
        by (simp add: idle_app_def ap' callback_halves Committing)
      ultimately show ?thesis by (simp add: busy_run_def)
    qed
  qed
next
  fix sv
  assume e: "ap' = ap\<lparr>ap_server := sv\<rparr>" and s: "server_step P E fs priv pub has_cb (ap_server ap) sv"
  have "connections_run P E fs priv pub has_cb (connections_of (idle_app ap)) (idle_server sv)"
    using server_step_divided [OF s] by simp
  from connections_run_busy [OF this, of D sdk] show ?thesis by (simp add: e)
qed

lemma app_run_busy:
  "app_run P E fs priv pub has_cb D sdk ap ap' \<Longrightarrow> busy_run P E fs priv pub has_cb D sdk (idle_app ap) (idle_app ap')"
proof (induction rule: app_run.induct)
  case (run_step ap ap' ap'')
  then show ?case using app_step_busy [OF run_step.hyps(2)] unfolding busy_run_def by (metis rtranclp_trans)
qed (simp add: busy_run_def)

section \<open>Its runs are runs of the callbacks in flight\<close>

definition flights_of :: "('sk, 'pk, 'db, 's) busy_app \<Rightarrow> 'db in_flight" where
  "flights_of bz = \<lparr>fl_db = ap_db (bz_app bz), fl_open = bz_open bz\<rparr>"

lemma request_keeps_db: "\<not> divided rq \<Longrightarrow> ap_db (snd (app_request P E D sdk rq ap)) = ap_db ap"
  by (cases rq) (simp_all add: divided_def app_request_def split: prod.split)

lemma busy_step_flights:
  assumes "busy_step P E fs priv pub has_cb D sdk bz bz'"
  shows "flights_of bz' = flights_of bz \<or> flight_step E D (flights_of bz) (flights_of bz')"
  using assms
proof (rule busy_stepE, goal_cases)
  case (1 rq)
  then show ?case using request_keeps_db [of rq P E D sdk "bz_app bz"] by (simp add: flights_of_def)
next
  case (2 bs)
  then show ?case by (simp add: flights_of_def)
next
  case (3 now_ms utcnow crq chs)
  then show ?case
    using flight_decides [where fl = "flights_of bz" and chs = chs, of E D "ap_ready (bz_app bz)" "ap_service (bz_app bz)" now_ms utcnow crq]
    by (simp add: flights_of_def)
next
  case (4 before chs after utcnow)
  then show ?case
    using flight_commits [where fl = "flights_of bz" and before = before and utcnow = utcnow and chs = chs and after = after and E = E and D = D]
    by (simp add: flights_of_def set_db_def)
qed

lemma busy_run_flights: "busy_run P E fs priv pub has_cb D sdk bz bz' \<Longrightarrow> flight_run E D (flights_of bz) (flights_of bz')"
  unfolding busy_run_def flight_run_def
proof (induction rule: rtranclp_induct)
  case (step y z)
  then show ?case using busy_step_flights [OF step.hyps(2)] by (metis rtranclp.rtrancl_into_rtrancl)
qed simp

text \<open>Its connections run as in Busy\_Server, so what holds of every run there holds of the application.\<close>

lemma request_keeps_connections: "\<not> divided rq \<Longrightarrow> ap_server (snd (app_request P E D sdk rq ap)) = ap_server ap"
  by (cases rq) (simp_all add: divided_def app_request_def split: prod.split)

lemma busy_run_connections:
  "busy_run P E fs priv pub has_cb D sdk bz bz' \<Longrightarrow> connections_run P E fs priv pub has_cb (connections_of bz) (connections_of bz')"
  unfolding busy_run_def connections_run_def
proof (induction rule: rtranclp_induct)
  case (step y z)
  have "connections_of z = connections_of y \<or> connection_step P E fs priv pub has_cb (connections_of y) (connections_of z)"
    using step.hyps(2)
  proof (rule busy_stepE, goal_cases)
    case (1 rq)
    then show ?case using request_keeps_connections [of rq P E D sdk "bz_app y"] by (simp add: connections_of_def)
  next
    case (2 bs)
    then show ?case by simp
  qed (simp_all add: connections_of_def set_db_def)
  with step.IH show ?case by (metis rtranclp.rtrancl_into_rtrancl)
qed simp

interpretation busy: order_history "\<lambda>bz. tb_orders (tb (ap_db (bz_app bz)))"
    "\<lambda>bz bz'. db_ok tb D \<and> bz_open bz = [] \<and> busy_run P E fs priv pub has_cb D sdk bz bz'" for tb P E fs priv pub has_cb D sdk
proof
  fix bz bz'
  assume r: "db_ok tb D \<and> bz_open bz = [] \<and> busy_run P E fs priv pub has_cb D sdk bz bz'"
    and d: "distinct (map or_id (tb_orders (tb (ap_db (bz_app bz)))))"
  have "flight_run E D (flights_of bz) (flights_of bz')" using r busy_run_flights by blast
  then have "db_ok tb D \<and> fl_open (flights_of bz) = [] \<and> flight_run E D (flights_of bz) (flights_of bz')"
    using r by (simp add: flights_of_def)
  from flights.run_moves [OF this] d show "list_all2 row_moved (tb_orders (tb (ap_db (bz_app bz)))) (tb_orders (tb (ap_db (bz_app bz'))))"
    by (simp add: flights_of_def)
qed

section \<open>Properties\<close>

text \<open>C4. Overlapping callbacks stay within the machine's reach: in any run of the application that starts with no callback in flight, however many
  callbacks, other requests and pieces of the agents' connections come between the decision and the commit of a callback, no order is added, removed or renamed, and each order is in the
  state it was in or in one that the machine leads to from there through approved, rejected and closed states.\<close>

theorem busy_application_stays_in_reach:
  assumes "db_ok tb D" and "bz_open bz = []" and "busy_run P E fs priv pub has_cb D sdk bz bz'"
    and "distinct (map or_id (tb_orders (tb (ap_db (bz_app bz)))))"
  shows "list_all2
    (\<lambda>r r'. or_id r' = or_id r \<and> or_order_no r' = or_order_no r \<and>
       (or_state r' = or_state r \<or>
        (\<exists>s ts u. or_state r = state_value s \<and> or_state r' = state_value u \<and> wo_path s ts u \<and>
           set ts \<subseteq> {APPROVED, CLOSED, SECOND_APPROVED, SECOND_REJECTED})))
    (tb_orders (tb (ap_db (bz_app bz)))) (tb_orders (tb (ap_db (bz_app bz'))))"
  using busy.run_moves [OF conjI [OF assms(1) conjI [OF assms(2,3)]] assms(4)] unfolding row_moved_def decided_def .

theorem busy_application_stays_in_reach_witness:
  "\<exists>bz. busy_run toy_prims toy_env (toy_files [7]) (lit ''priv'') (lit ''pub'') True toy_sql toy_sdk
       (idle_app (toy_app (toy_tables PENDING_SECOND_REVIEW [toy_approval 1]))) bz \<and>
     length (bz_open bz) = 2 \<and> length (tb_orders (ap_db (bz_app bz))) = 1"
proof -
  let ?t = "toy_tables PENDING_SECOND_REVIEW [toy_approval 1]"
  let ?step = "busy_step toy_prims toy_env (toy_files [7]) (lit ''priv'') (lit ''pub'') True toy_sql toy_sdk"
  have q: "sql_approvals toy_sql (or_id (toy_row PENDING_SECOND_REVIEW)) (Some (lit ''PENDING'')) ?t = Inr [toy_approval 1]"
    using toy_queries(2) [of PENDING_SECOND_REVIEW 1] by (simp add: toy_row_def)
  have v: "verified toy_env None 0 toy_callback" and b: "py_truthy toy_env (JStr (lit ''WO-1''))"
    by (simp_all add: verified_def py_truthy_def)
  obtain chs where c: "callback_decide toy_env toy_sql True None 0 (toy_time 9) toy_callback ?t = Committing chs"
    using decide_committing [OF v toy_callback_event b toy_queries(1) _ q, of PENDING_SECOND_REVIEW "toy_time 9"]
    by (simp add: toy_row_def toy_approval_def approval_target_def can_to del: state_value.simps)
  let ?i = "idle_app (toy_app ?t)"
  let ?a = "?i\<lparr>bz_open := [chs]\<rparr>" and ?b = "?i\<lparr>bz_open := [chs, chs]\<rparr>"
  have decide: "callback_decide toy_env toy_sql (ap_ready (toy_app ?t)) (ap_service (toy_app ?t)) 0 (toy_time 9) toy_callback (ap_db (toy_app ?t)) =
      Committing chs"
    using c by (simp add: toy_app_start)
  have "?step ?i ?a" "?step ?a ?b"
    using busy_decides [where bz = ?i and E = toy_env and D = toy_sql and utcnow = "toy_time 9" and chs = chs]
      busy_decides [where bz = ?a and E = toy_env and D = toy_sql and utcnow = "toy_time 9" and chs = chs] decide
    by (simp_all add: idle_app_def)
  then have r: "busy_run toy_prims toy_env (toy_files [7]) (lit ''priv'') (lit ''pub'') True toy_sql toy_sdk ?i ?b"
    by (simp add: busy_run_def)
  have "bz_open ?i = []" "distinct (map or_id (tb_orders (id (ap_db (bz_app ?i)))))"
    by (simp_all add: idle_app_def toy_app_start toy_tables_def)
  from list_all2_lengthD [OF busy_application_stays_in_reach [OF toy_sql_ok this(1) r this(2)]] r show ?thesis
    by (intro exI [of _ ?b]) (simp add: idle_app_def toy_app_start toy_tables_def)
qed

text \<open>C23. A draft never gets anywhere: along any run of the application, with any callbacks in flight in between, a work order stored as DRAFT stays DRAFT or becomes
  CLOSED, although approvals are started for it (\<open>create-approval\<close> records neither the order's state nor an approval).\<close>

theorem drafts_stay_drafts:
  assumes "db_ok tb D" and "bz_open bz = []" and "busy_run P E fs priv pub has_cb D sdk bz bz'"
    and "distinct (map or_id (tb_orders (tb (ap_db (bz_app bz)))))"
    and "i < length (tb_orders (tb (ap_db (bz_app bz))))" and "or_state (tb_orders (tb (ap_db (bz_app bz))) ! i) = state_value DRAFT"
  shows "or_state (tb_orders (tb (ap_db (bz_app bz'))) ! i) \<in> {state_value DRAFT, state_value CLOSED}"
  by (rule busy.drafts_wait [OF conjI [OF assms(1) conjI [OF assms(2,3)]] assms(4-6)])

theorem drafts_stay_drafts_witness:
  "\<exists>ap'. busy_run toy_prims toy_env (toy_files [7]) (lit ''priv'') (lit ''pub'') True toy_sql toy_sdk (idle_app (toy_app (toy_tables DRAFT []))) (idle_app ap') \<and>
     or_state (tb_orders (ap_db ap') ! 0) \<in> {state_value DRAFT, state_value CLOSED}"
proof -
  let ?ap = "toy_app (toy_tables DRAFT [])" and ?rq = "Callback 0 toy_times toy_callback"
  let ?ap' = "snd (app_request toy_prims toy_env toy_sql toy_sdk ?rq ?ap)"
  have run: "busy_run toy_prims toy_env (toy_files [7]) (lit ''priv'') (lit ''pub'') True toy_sql toy_sdk (idle_app ?ap) (idle_app ?ap')"
    by (rule app_step_busy [OF app_step_request])
  have d: "bz_open (idle_app ?ap) = []" "distinct (map or_id (tb_orders (id (ap_db (bz_app (idle_app ?ap))))))"
    "0 < length (tb_orders (id (ap_db (bz_app (idle_app ?ap)))))"
    "or_state (tb_orders (id (ap_db (bz_app (idle_app ?ap)))) ! 0) = state_value DRAFT"
    by (simp_all add: idle_app_def toy_app_start toy_tables_def toy_row_def)
  show ?thesis using run drafts_stay_drafts [OF toy_sql_ok d(1) run d(2-4)] by (intro exI [of _ ?ap'] conjI) (simp_all add: idle_app_def)
qed

end
