(* ===== verification/Db_Schema.thy ===== *)
theory Db_Schema
  imports Concurrent_Callbacks
begin

text \<open>
  alembic/versions/001\_initial\_schema.py and the tables of forwarder/app/models.py: the migration as the operations that \<open>upgrade\<close> and \<open>downgrade\<close>
  send, the models as what they declare, and that the one creates the other. What the database does with an operation is a
  parameter; \<open>ddl_ok\<close> says what the migration relies on, for databases that take a literal default on a TEXT column and for
  those that do not.
\<close>

section \<open>Tables\<close>

datatype sql_type = Integer | String nat | Text | DateTime | Boolean

datatype server_default = Fixed string | Now

record column_def =
  co_name :: string
  co_type :: sql_type
  co_autoincrement :: bool
  co_nullable :: bool
  co_server_default :: "server_default option"

definition column :: "string \<Rightarrow> sql_type \<Rightarrow> bool \<Rightarrow> bool \<Rightarrow> server_default option \<Rightarrow> column_def" where
  "column name ty autoincrement nullable dflt =
     \<lparr>co_name = name, co_type = ty, co_autoincrement = autoincrement, co_nullable = nullable, co_server_default = dflt\<rparr>"

record foreign_key =
  fk_columns :: "string list"
  fk_table :: string
  fk_target :: "string list"
  fk_on_delete :: "string option"

record table_def =
  ta_name :: string
  ta_columns :: "column_def list"
  ta_primary_key :: "string list"
  ta_unique :: "string list list"
  ta_foreign_keys :: "foreign_key list"

record index_def =
  ix_name :: string
  ix_table :: string
  ix_columns :: "string list"
  ix_unique :: bool

section \<open>The migration\<close>

datatype migration_op = CreateTable table_def | CreateIndex index_def | DropTable string

definition create_index :: "string \<Rightarrow> string \<Rightarrow> string list \<Rightarrow> migration_op" where
  "create_index name table columns = CreateIndex \<lparr>ix_name = name, ix_table = table, ix_columns = columns, ix_unique = False\<rparr>"

definition work_orders_table :: table_def where
  "work_orders_table =
     \<lparr>ta_name = ''work_orders'',
      ta_columns =
        [column ''id'' Integer True False None,
         column ''order_no'' (String 64) False False None,
         column ''issue'' (String 128) False False None,
         column ''project'' (String 128) False False None,
         column ''branch'' (String 256) False False None,
         column ''build_cmd'' Text False False (Some (Fixed '''')),
         column ''state'' (String 32) False False (Some (Fixed ''DRAFT'')),
         column ''created_at'' DateTime False False (Some Now),
         column ''updated_at'' DateTime False False (Some Now),
         column ''created_by'' (String 64) False False (Some (Fixed ''''))],
      ta_primary_key = [''id''], ta_unique = [[''order_no'']],
      ta_foreign_keys = []\<rparr>"

definition agents_table :: table_def where
  "agents_table =
     \<lparr>ta_name = ''agents'',
      ta_columns =
        [column ''id'' Integer True False None,
         column ''agent_id'' (String 64) False False None,
         column ''projects'' Text False False None,
         column ''ecdsa_pub_pem'' Text False False None,
         column ''is_online'' Boolean False False (Some (Fixed ''0'')),
         column ''last_seen_at'' DateTime False True None,
         column ''connected_at'' DateTime False True None,
         column ''created_at'' DateTime False False (Some Now)],
      ta_primary_key = [''id''], ta_unique = [[''agent_id'']],
      ta_foreign_keys = []\<rparr>"

definition approvals_table :: table_def where
  "approvals_table =
     \<lparr>ta_name = ''approvals'',
      ta_columns =
        [column ''id'' Integer True False None,
         column ''work_order_id'' Integer False False None,
         column ''approver'' (String 64) False False None,
         column ''status'' (String 16) False False (Some (Fixed ''PENDING'')),
         column ''comment'' Text False False (Some (Fixed '''')),
         column ''review_type'' (String 16) False False (Some (Fixed ''first'')),
         column ''created_at'' DateTime False False (Some Now),
         column ''responded_at'' DateTime False True None],
      ta_primary_key = [''id''], ta_unique = [],
      ta_foreign_keys = [\<lparr>fk_columns = [''work_order_id''], fk_table = ''work_orders'', fk_target = [''id''], fk_on_delete = Some ''CASCADE''\<rparr>]\<rparr>"

definition build_results_table :: table_def where
  "build_results_table =
     \<lparr>ta_name = ''build_results'',
      ta_columns =
        [column ''id'' Integer True False None,
         column ''work_order_id'' Integer False False None,
         column ''build_number'' Integer False True None,
         column ''status'' (String 16) False False (Some (Fixed ''PENDING'')),
         column ''log_url'' Text False False (Some (Fixed '''')),
         column ''duration_seconds'' Integer False True None,
         column ''started_at'' DateTime False True None,
         column ''finished_at'' DateTime False True None,
         column ''created_at'' DateTime False False (Some Now)],
      ta_primary_key = [''id''], ta_unique = [],
      ta_foreign_keys = [\<lparr>fk_columns = [''work_order_id''], fk_table = ''work_orders'', fk_target = [''id''], fk_on_delete = Some ''CASCADE''\<rparr>]\<rparr>"

definition upgrade_ops :: "migration_op list" where
  "upgrade_ops =
     [CreateTable work_orders_table,
      create_index ''ix_work_orders_order_no'' ''work_orders'' [''order_no''],
      create_index ''ix_work_orders_project'' ''work_orders'' [''project''],
      create_index ''ix_work_orders_state'' ''work_orders'' [''state''],
      CreateTable agents_table,
      create_index ''ix_agents_agent_id'' ''agents'' [''agent_id''],
      CreateTable approvals_table,
      create_index ''ix_approvals_work_order_id'' ''approvals'' [''work_order_id''],
      CreateTable build_results_table,
      create_index ''ix_build_results_work_order_id'' ''build_results'' [''work_order_id'']]"

definition downgrade_ops :: "migration_op list" where
  "downgrade_ops = map DropTable [''build_results'', ''approvals'', ''agents'', ''work_orders'']"

section \<open>The models\<close>

text \<open>A \<open>mapped_column\<close>: its type and nullability come from its arguments or else from the annotation; \<open>index=True\<close> makes the index \<open>ix_<table>_<column>\<close>,
  which is a unique one with \<open>unique=True\<close>.\<close>

record model_column =
  mo_name :: string
  mo_type :: sql_type
  mo_nullable :: bool
  mo_primary_key :: bool
  mo_unique :: bool
  mo_index :: bool
  mo_foreign_key :: "(string \<times> string) option"

definition mapped :: "string \<Rightarrow> sql_type \<Rightarrow> model_column" where
  "mapped name ty =
     \<lparr>mo_name = name, mo_type = ty, mo_nullable = False, mo_primary_key = False, mo_unique = False, mo_index = False, mo_foreign_key = None\<rparr>"

definition key_column :: model_column where
  "key_column = (mapped ''id'' Integer)\<lparr>mo_primary_key := True\<rparr>"

definition order_column :: model_column where
  "order_column = (mapped ''work_order_id'' Integer)\<lparr>mo_foreign_key := Some (''work_orders'', ''id''), mo_index := True\<rparr>"

definition WorkOrder_columns :: "model_column list" where
  "WorkOrder_columns =
     [key_column, (mapped ''order_no'' (String 64))\<lparr>mo_unique := True, mo_index := True\<rparr>, mapped ''issue'' (String 128),
      (mapped ''project'' (String 128))\<lparr>mo_index := True\<rparr>, mapped ''branch'' (String 256), mapped ''build_cmd'' Text,
      (mapped ''state'' (String 32))\<lparr>mo_index := True\<rparr>, mapped ''created_at'' DateTime, mapped ''updated_at'' DateTime,
      mapped ''created_by'' (String 64)]"

definition Agent_columns :: "model_column list" where
  "Agent_columns =
     [key_column, (mapped ''agent_id'' (String 64))\<lparr>mo_unique := True, mo_index := True\<rparr>, mapped ''projects'' Text,
      mapped ''ecdsa_pub_pem'' Text, mapped ''is_online'' Boolean, (mapped ''last_seen_at'' DateTime)\<lparr>mo_nullable := True\<rparr>,
      (mapped ''connected_at'' DateTime)\<lparr>mo_nullable := True\<rparr>, mapped ''created_at'' DateTime]"

definition Approval_columns :: "model_column list" where
  "Approval_columns =
     [key_column, order_column, mapped ''approver'' (String 64), mapped ''status'' (String 16), mapped ''comment'' Text,
      mapped ''review_type'' (String 16), mapped ''created_at'' DateTime, (mapped ''responded_at'' DateTime)\<lparr>mo_nullable := True\<rparr>]"

definition BuildResult_columns :: "model_column list" where
  "BuildResult_columns =
     [key_column, order_column, (mapped ''build_number'' Integer)\<lparr>mo_nullable := True\<rparr>, mapped ''status'' (String 16), mapped ''log_url'' Text,
      (mapped ''duration_seconds'' Integer)\<lparr>mo_nullable := True\<rparr>, (mapped ''started_at'' DateTime)\<lparr>mo_nullable := True\<rparr>,
      (mapped ''finished_at'' DateTime)\<lparr>mo_nullable := True\<rparr>, mapped ''created_at'' DateTime]"

definition models :: "(string \<times> model_column list) list" where
  "models =
     [(''work_orders'', WorkOrder_columns), (''agents'', Agent_columns), (''approvals'', Approval_columns),
      (''build_results'', BuildResult_columns)]"

text \<open>What a model and a table say of the rows: columns with type and nullability, the keys, what is unique.\<close>

type_synonym table_shape =
  "string \<times> (string \<times> sql_type \<times> bool) list \<times> string list \<times> string list list \<times> (string list \<times> string \<times> string list) list"

definition model_shape :: "string \<times> model_column list \<Rightarrow> table_shape" where
  "model_shape = (\<lambda>(name, cols).
     (name, map (\<lambda>c. (mo_name c, mo_type c, mo_nullable c)) cols, map mo_name (filter mo_primary_key cols),
      map (\<lambda>c. [mo_name c]) (filter mo_unique cols),
      concat (map (\<lambda>c. case mo_foreign_key c of None \<Rightarrow> [] | Some (t, k) \<Rightarrow> [([mo_name c], t, [k])]) cols)))"

definition shape_of :: "table_def \<Rightarrow> table_shape" where
  "shape_of t =
     (ta_name t, map (\<lambda>c. (co_name c, co_type c, co_nullable c)) (ta_columns t), ta_primary_key t, ta_unique t,
      map (\<lambda>k. (fk_columns k, fk_table k, fk_target k)) (ta_foreign_keys t))"

definition model_indexes :: "(string \<times> string \<times> string list) list" where
  "model_indexes =
     concat (map (\<lambda>(name, cols). map (\<lambda>c. (''ix_'' @ name @ ''_'' @ mo_name c, name, [mo_name c])) (filter mo_index cols)) models)"

section \<open>Well-formed statements\<close>

text \<open>Names and columns that any of the databases takes: short names of lower-case letters, digits and underscores (any case rules agree on them), defaults
  that fit the type. \<open>text_defaults\<close> says whether the database takes a literal default on a TEXT column.\<close>

definition name_ok :: "string \<Rightarrow> bool" where
  "name_ok n \<longleftrightarrow>
     0 < length n \<and> length n \<le> 63 \<and> hd n \<in> set ''abcdefghijklmnopqrstuvwxyz'' \<and>
     list_all (\<lambda>c. c \<in> set ''abcdefghijklmnopqrstuvwxyz0123456789_'') n"

fun default_ok :: "bool \<Rightarrow> sql_type \<Rightarrow> server_default option \<Rightarrow> bool" where
  "default_ok text_defaults ty None = True"
| "default_ok text_defaults DateTime (Some Now) = True"
| "default_ok text_defaults (String n) (Some (Fixed s)) = (length s \<le> n)"
| "default_ok text_defaults Boolean (Some (Fixed s)) = (s = ''0'' \<or> s = ''1'')"
| "default_ok text_defaults Text (Some (Fixed s)) = text_defaults"
| "default_ok text_defaults ty (Some d) = False"

definition column_ok :: "bool \<Rightarrow> column_def \<Rightarrow> bool" where
  "column_ok text_defaults c \<longleftrightarrow>
     name_ok (co_name c) \<and> default_ok text_defaults (co_type c) (co_server_default c) \<and>
     (case co_type c of String n \<Rightarrow> 0 < n \<and> n \<le> 256 | _ \<Rightarrow> True)"

text \<open>A column that may be a key or have an index: no TEXT, and short enough for every index format.\<close>

definition key_column_ok :: "table_def \<Rightarrow> string list \<Rightarrow> bool" where
  "key_column_ok t names \<longleftrightarrow>
     (\<exists>c \<in> set (ta_columns t). names = [co_name c] \<and> (case co_type c of String n \<Rightarrow> n \<le> 191 | Text \<Rightarrow> False | _ \<Rightarrow> True))"

definition table_ok :: "bool \<Rightarrow> table_def \<Rightarrow> bool" where
  "table_ok text_defaults t \<longleftrightarrow>
     name_ok (ta_name t) \<and> ta_columns t \<noteq> [] \<and> length (ta_columns t) \<le> 32 \<and> distinct (map co_name (ta_columns t)) \<and>
     list_all (column_ok text_defaults) (ta_columns t) \<and>
     key_column_ok t (ta_primary_key t) \<and>
     list_all (\<lambda>c. (co_autoincrement c \<longrightarrow> co_type c = Integer \<and> ta_primary_key t = [co_name c]) \<and>
                   (co_nullable c \<longrightarrow> ta_primary_key t \<noteq> [co_name c])) (ta_columns t) \<and>
     list_all (key_column_ok t) (ta_unique t) \<and> length (ta_unique t) \<le> 8 \<and> length (ta_foreign_keys t) \<le> 8"

section \<open>What the migration relies on\<close>

text \<open>The tables and the indexes a database was asked for (not those it makes itself for keys), names as it compares them.\<close>

record schema =
  sc_tables :: "table_def list"
  sc_indexes :: "index_def list"

definition relations :: "schema \<Rightarrow> string set" where
  "relations sc = ta_name ` set (sc_tables sc) \<union> ix_name ` set (sc_indexes sc)"

text \<open>A foreign key to the primary key of a table that exists, of the same type.\<close>

definition foreign_key_ok :: "schema \<Rightarrow> table_def \<Rightarrow> foreign_key \<Rightarrow> bool" where
  "foreign_key_ok sc t k \<longleftrightarrow>
     (\<exists>c \<in> set (ta_columns t). fk_columns k = [co_name c] \<and>
       (\<exists>t' \<in> set (sc_tables sc). ta_name t' = fk_table k \<and> ta_primary_key t' = fk_target k \<and>
         (\<exists>c' \<in> set (ta_columns t'). fk_target k = [co_name c'] \<and> co_type c' = co_type c))) \<and>
     fk_on_delete k \<in> {None, Some ''CASCADE''}"

text \<open>What an operation makes of a schema; \<open>None\<close> where a database may refuse it: a statement that is not well-formed, a table or index
  that exists, a key, an index or a drop that does not fit the other tables, an index too many.\<close>

definition ddl_effect :: "bool \<Rightarrow> migration_op \<Rightarrow> schema \<Rightarrow> schema option" where
  "ddl_effect text_defaults op sc =
     (case op of
        CreateTable t \<Rightarrow>
          if \<not> table_ok text_defaults t \<or> ta_name t \<in> relations sc \<or> \<not> list_all (foreign_key_ok sc t) (ta_foreign_keys t) then None
          else Some (sc\<lparr>sc_tables := sc_tables sc @ [t]\<rparr>)
      | CreateIndex ix \<Rightarrow>
          if \<not> name_ok (ix_name ix) \<or> ix_unique ix \<or> ix_name ix \<in> relations sc \<or>
            \<not> (\<exists>t \<in> set (sc_tables sc). ta_name t = ix_table ix \<and> key_column_ok t (ix_columns ix)) \<or>
            16 \<le> length (filter (\<lambda>i. ix_table i = ix_table ix) (sc_indexes sc)) then None
          else Some (sc\<lparr>sc_indexes := sc_indexes sc @ [ix]\<rparr>)
      | DropTable n \<Rightarrow>
          if n \<notin> ta_name ` set (sc_tables sc) \<or>
            (\<exists>t \<in> set (sc_tables sc). ta_name t \<noteq> n \<and> n \<in> fk_table ` set (ta_foreign_keys t)) then None
          else Some (sc\<lparr>sc_tables := filter (\<lambda>t. ta_name t \<noteq> n) (sc_tables sc),
                        sc_indexes := filter (\<lambda>i. ix_table i \<noteq> n) (sc_indexes sc)\<rparr>))"

text \<open>The contract of a database that has the room and grants the rights: it does what is well-formed and fits. PostgreSQL, SQLite and MariaDB keep it with
  \<open>text_defaults\<close>. MySQL keeps it without: there a BLOB or TEXT column takes no literal default, and in strict SQL mode, the default,
  the statement fails with error 1101 (\<open>refuses_text_defaults\<close>).\<close>

definition ddl_ok :: "bool \<Rightarrow> ('s \<Rightarrow> schema) \<Rightarrow> (migration_op \<Rightarrow> 's \<Rightarrow> 's res) \<Rightarrow> bool" where
  "ddl_ok text_defaults obs exec \<longleftrightarrow>
     (\<forall>op s sc. ddl_effect text_defaults op (obs s) = Some sc \<longrightarrow> (\<exists>s'. exec op s = Inr s' \<and> obs s' = sc))"

definition refuses_text_defaults :: "(migration_op \<Rightarrow> 's \<Rightarrow> 's res) \<Rightarrow> bool" where
  "refuses_text_defaults exec \<longleftrightarrow>
     (\<forall>t s. (\<exists>c \<in> set (ta_columns t). co_type c = Text \<and> (\<exists>d. co_server_default c = Some (Fixed d))) \<longrightarrow> \<not> res_ok (exec (CreateTable t) s))"

fun run_ops :: "(migration_op \<Rightarrow> 's \<Rightarrow> 's res) \<Rightarrow> migration_op list \<Rightarrow> 's \<Rightarrow> 's res" where
  "run_ops exec [] s = Inr s"
| "run_ops exec (op # ops) s = rbind (exec op s) (run_ops exec ops)"

text \<open>\<open>upgrade\<close> and \<open>downgrade\<close>.\<close>

definition upgrade_schema :: "(migration_op \<Rightarrow> 's \<Rightarrow> 's res) \<Rightarrow> 's \<Rightarrow> 's res" where
  "upgrade_schema exec s = run_ops exec upgrade_ops s"

definition downgrade_schema :: "(migration_op \<Rightarrow> 's \<Rightarrow> 's res) \<Rightarrow> 's \<Rightarrow> 's res" where
  "downgrade_schema exec s = run_ops exec downgrade_ops s"

fun effects :: "bool \<Rightarrow> migration_op list \<Rightarrow> schema \<Rightarrow> schema option" where
  "effects td [] sc = Some sc"
| "effects td (op # ops) sc = (case ddl_effect td op sc of None \<Rightarrow> None | Some sc' \<Rightarrow> effects td ops sc')"

lemma run_effects:
  "ddl_ok td obs exec \<Longrightarrow> effects td ops (obs s) = Some sc \<Longrightarrow> \<exists>s'. run_ops exec ops s = Inr s' \<and> obs s' = sc"
proof (induction ops arbitrary: s)
  case (Cons op ops)
  then obtain sc' where e: "ddl_effect td op (obs s) = Some sc'" "effects td ops sc' = Some sc" by (auto split: option.splits)
  then obtain s' where s': "exec op s = Inr s'" "obs s' = sc'" using Cons.prems(1) unfolding ddl_ok_def by blast
  with Cons.IH [of s'] Cons.prems(1) e(2) show ?case by simp
qed simp

text \<open>The tables and indexes of the migration.\<close>

definition new_tables :: "table_def list" where
  "new_tables = [work_orders_table, agents_table, approvals_table, build_results_table]"

definition new_indexes :: "index_def list" where
  "new_indexes = concat (map (\<lambda>op. case op of CreateIndex ix \<Rightarrow> [ix] | _ \<Rightarrow> []) upgrade_ops)"

text \<open>A schema that has none of them and refers to none of them.\<close>

definition schema_fresh :: "schema \<Rightarrow> bool" where
  "schema_fresh sc \<longleftrightarrow>
     (\<forall>t \<in> set (sc_tables sc). fk_table ` set (ta_foreign_keys t) \<inter> fst ` set models = {}) \<and>
     (\<forall>i \<in> set (sc_indexes sc). ix_table i \<notin> fst ` set models) \<and>
     relations sc \<inter> (fst ` set models \<union> fst ` set model_indexes) = {}"

lemmas table_defs = work_orders_table_def agents_table_def approvals_table_def build_results_table_def column_def
lemmas model_defs = models_def WorkOrder_columns_def Agent_columns_def Approval_columns_def BuildResult_columns_def mapped_def
  key_column_def order_column_def

lemma new_tables_are_models: "map shape_of new_tables = map model_shape models"
  by (simp add: new_tables_def shape_of_def table_defs model_shape_def model_defs)

lemma new_indexes_are_models: "map (\<lambda>i. (ix_name i, ix_table i, ix_columns i)) new_indexes = model_indexes"
  by (simp add: new_indexes_def upgrade_ops_def create_index_def model_indexes_def model_defs)

text \<open>Freshness, name by name.\<close>

lemma model_names: "fst ` set models = {''work_orders'', ''agents'', ''approvals'', ''build_results''}"
  by (simp add: models_def)

lemma index_names:
  "fst ` set model_indexes =
    {''ix_work_orders_order_no'', ''ix_work_orders_project'', ''ix_work_orders_state'', ''ix_agents_agent_id'', ''ix_approvals_work_order_id'',
     ''ix_build_results_work_order_id''}"
  by (simp add: model_indexes_def model_defs insert_commute)

lemma fresh_names:
  assumes "schema_fresh sc" and "n \<in> fst ` set models"
  shows "n \<notin> relations sc" and "filter (\<lambda>t. ta_name t \<noteq> n) (sc_tables sc) = sc_tables sc"
    and "filter (\<lambda>i. ix_table i \<noteq> n) (sc_indexes sc) = sc_indexes sc" and "filter (\<lambda>i. ix_table i = n) (sc_indexes sc) = []"
    and "\<forall>t \<in> set (sc_tables sc). n \<notin> fk_table ` set (ta_foreign_keys t)"
proof -
  show r: "n \<notin> relations sc" using assms unfolding schema_fresh_def by blast
  show "filter (\<lambda>t. ta_name t \<noteq> n) (sc_tables sc) = sc_tables sc"
    using r by (intro filter_True) (auto simp: relations_def)
  show "filter (\<lambda>i. ix_table i \<noteq> n) (sc_indexes sc) = sc_indexes sc" and "filter (\<lambda>i. ix_table i = n) (sc_indexes sc) = []"
    using assms unfolding schema_fresh_def by (auto intro!: filter_True filter_False)
  show "\<forall>t \<in> set (sc_tables sc). n \<notin> fk_table ` set (ta_foreign_keys t)"
    using assms unfolding schema_fresh_def by blast
qed

lemma fresh_indexes: "schema_fresh sc \<Longrightarrow> n \<in> fst ` set model_indexes \<Longrightarrow> n \<notin> relations sc"
  unfolding schema_fresh_def by blast

text \<open>The statements of the migration are well-formed, their TEXT defaults apart, and say what they say.\<close>

lemma migration_well_formed:
  "table_ok True work_orders_table" "table_ok True agents_table" "table_ok True approvals_table" "table_ok True build_results_table"
  "name_ok ''ix_work_orders_order_no''" "name_ok ''ix_work_orders_project''" "name_ok ''ix_work_orders_state''"
  "name_ok ''ix_agents_agent_id''" "name_ok ''ix_approvals_work_order_id''" "name_ok ''ix_build_results_work_order_id''"
  "key_column_ok work_orders_table [''order_no'']" "key_column_ok work_orders_table [''project'']" "key_column_ok work_orders_table [''state'']"
  "key_column_ok agents_table [''agent_id'']" "key_column_ok approvals_table [''work_order_id'']"
  "key_column_ok build_results_table [''work_order_id'']"
  by code_simp+

lemma migration_facts:
  "ta_name work_orders_table = ''work_orders''" "ta_name agents_table = ''agents''" "ta_name approvals_table = ''approvals''"
  "ta_name build_results_table = ''build_results''"
  "ta_foreign_keys work_orders_table = []" "ta_foreign_keys agents_table = []"
  "fk_table ` set (ta_foreign_keys approvals_table) = {''work_orders''}" "fk_table ` set (ta_foreign_keys build_results_table) = {''work_orders''}"
  by (simp_all add: table_defs)

lemma order_keys_ok:
  "work_orders_table \<in> set (sc_tables sc) \<Longrightarrow> list_all (foreign_key_ok sc approvals_table) (ta_foreign_keys approvals_table)"
  "work_orders_table \<in> set (sc_tables sc) \<Longrightarrow> list_all (foreign_key_ok sc build_results_table) (ta_foreign_keys build_results_table)"
  by (auto simp: foreign_key_ok_def table_defs intro!: bexI [of _ work_orders_table, unfolded table_defs])

lemma upgrade_effects:
  assumes "schema_fresh sc"
  shows "effects True upgrade_ops sc = Some \<lparr>sc_tables = sc_tables sc @ new_tables, sc_indexes = sc_indexes sc @ new_indexes\<rparr>"
proof -
  have n: "n \<notin> ta_name ` set (sc_tables sc)" "n \<notin> ix_name ` set (sc_indexes sc)"
    if "n \<in> fst ` set models \<union> fst ` set model_indexes" for n
    using that assms unfolding schema_fresh_def relations_def by blast+
  have c: "filter (\<lambda>i. ix_table i = n) (sc_indexes sc) = []" if "n \<in> fst ` set models" for n
    using fresh_names(4) [OF assms that] .
  note names = n [unfolded model_names index_names]
  note none = c [unfolded model_names]
  show ?thesis
    by (simp add: upgrade_ops_def create_index_def ddl_effect_def new_tables_def new_indexes_def migration_well_formed migration_facts
        order_keys_ok names none relations_def image_Un bex_Un)
qed

lemma downgrade_effects:
  assumes "schema_fresh sc"
  shows "effects td downgrade_ops \<lparr>sc_tables = sc_tables sc @ new_tables, sc_indexes = sc_indexes sc @ new_indexes\<rparr> = Some sc"
proof -
  have n: "n \<notin> ta_name ` set (sc_tables sc)" if "n \<in> fst ` set models" for n
    using fresh_names(1) [OF assms that] by (auto simp: relations_def)
  note f = fresh_names [OF assms, unfolded model_names]
  show ?thesis
    using n [unfolded model_names, of "''work_orders''"] n [unfolded model_names, of "''agents''"] n [unfolded model_names, of "''approvals''"]
      n [unfolded model_names, of "''build_results''"]
      f(5) [of "''work_orders''"] f(5) [of "''agents''"] f(5) [of "''approvals''"] f(5) [of "''build_results''"]
    by (simp add: downgrade_ops_def ddl_effect_def new_tables_def new_indexes_def upgrade_ops_def create_index_def migration_facts
        image_Un bex_Un f(2,3))
qed

text \<open>What the callbacks write fits the columns they write it to.\<close>

definition width :: "string \<Rightarrow> table_def \<Rightarrow> nat option" where
  "width name t = (case find (\<lambda>c. co_name c = name) (ta_columns t) of Some c \<Rightarrow> (case co_type c of String n \<Rightarrow> Some n | _ \<Rightarrow> None) | None \<Rightarrow> None)"

definition change_fits :: "change \<Rightarrow> bool" where
  "change_fits ch =
     (case ch of
        SetOrderState _ st \<Rightarrow> (\<exists>n. width ''state'' work_orders_table = Some n \<and> length st \<le> n)
      | SetApproval _ st _ \<Rightarrow> (\<exists>n. width ''status'' approvals_table = Some n \<and> length st \<le> n))"

lemma written_texts_fit:
  assumes "callback_decide E D ready dt_svc now_ms utcnow rq db = Committing chs" and "ch \<in> set chs"
  shows "change_fits ch"
proof -
  have s: "length (state_value st) \<le> 32" for st by (cases st) simp_all
  have a: "length (approval_status result) \<le> 16" for result by (simp add: approval_status_def)
  have w: "width ''state'' work_orders_table = Some 32" "width ''status'' approvals_table = Some 16"
    by (simp_all add: width_def table_defs)
  obtain biz_id result where "finish_decide D utcnow biz_id result db = Committing chs"
    using assms(1) by (auto simp: callback_decide_def split: if_splits sum.splits json.splits)
  then have "\<exists>i j st t res. ch = SetOrderState i (state_value st) \<or> ch = SetApproval j (approval_status res) t"
    using assms(2) by (auto simp: finish_decide_def Let_def simp del: state_value.simps split: sum.splits option.splits)
  then show ?thesis using s a w by (auto simp: change_fits_def simp del: state_value.simps)
qed

text \<open>An empty schema, and a database that is its schema.\<close>

definition toy_exec :: "bool \<Rightarrow> migration_op \<Rightarrow> schema \<Rightarrow> schema res" where
  "toy_exec text_defaults op sc = (case ddl_effect text_defaults op sc of None \<Rightarrow> Inl LibError | Some sc' \<Rightarrow> Inr sc')"

lemma toy_exec_ok: "ddl_ok td id (toy_exec td)"
  by (simp add: ddl_ok_def toy_exec_def)

lemma toy_exec_strict: "refuses_text_defaults (toy_exec False)"
proof -
  have "\<not> table_ok False t" if "c \<in> set (ta_columns t)" "co_type c = Text" "co_server_default c = Some (Fixed d)" for t c d
    using that by (fastforce simp: table_ok_def column_ok_def list_all_iff)
  then show ?thesis unfolding refuses_text_defaults_def by (auto simp: toy_exec_def ddl_effect_def res_ok_def)
qed

section \<open>Properties\<close>

text \<open>C32. The migration creates the models' tables and takes them back: on a database that takes literal defaults on TEXT columns, and on any schema
  without these tables and indexes, \<open>upgrade\<close> succeeds and adds exactly the tables
  that models.py declares, with the same columns, types, nullability, keys and unique columns, and for each index it declares one of that name, table and column; \<open>downgrade\<close> then
  succeeds, its drops coming in an order the foreign keys allow, and leaves the schema as it was. (The MySQL that docker-compose.yml runs is no such
  database: Migration\_Env.)\<close>

theorem migration_creates_models_and_reverts:
  assumes "ddl_ok True obs exec" and "schema_fresh (obs s)"
  shows "\<exists>s1 s2 ts ixs. upgrade_schema exec s = Inr s1 \<and> downgrade_schema exec s1 = Inr s2 \<and> obs s2 = obs s \<and>
    obs s1 = \<lparr>sc_tables = sc_tables (obs s) @ ts, sc_indexes = sc_indexes (obs s) @ ixs\<rparr> \<and>
    map shape_of ts = map model_shape models \<and> map (\<lambda>i. (ix_name i, ix_table i, ix_columns i)) ixs = model_indexes"
proof -
  obtain s1 where s1: "upgrade_schema exec s = Inr s1"
    "obs s1 = \<lparr>sc_tables = sc_tables (obs s) @ new_tables, sc_indexes = sc_indexes (obs s) @ new_indexes\<rparr>"
    using run_effects [OF assms(1) upgrade_effects [OF assms(2)]] unfolding upgrade_schema_def by blast
  moreover obtain s2 where "downgrade_schema exec s1 = Inr s2" "obs s2 = obs s"
    using run_effects [OF assms(1), of downgrade_ops s1] downgrade_effects [OF assms(2)] s1(2) unfolding downgrade_schema_def by auto
  ultimately show ?thesis using new_tables_are_models new_indexes_are_models by blast
qed

theorem migration_creates_models_and_reverts_witness:
  "\<exists>s1 s2. upgrade_schema (toy_exec True) \<lparr>sc_tables = [], sc_indexes = []\<rparr> = Inr s1 \<and>
     map shape_of (sc_tables s1) = map model_shape models \<and>
     downgrade_schema (toy_exec True) s1 = Inr s2 \<and> s2 = \<lparr>sc_tables = [], sc_indexes = []\<rparr>"
proof -
  have "schema_fresh (id \<lparr>sc_tables = [], sc_indexes = []\<rparr>)" by (simp add: schema_fresh_def relations_def)
  from migration_creates_models_and_reverts [OF toy_exec_ok this] show ?thesis by auto
qed

end
