(* ===== verification/Migration_Env.thy ===== *)
theory Migration_Env
  imports Db_Schema
begin

text \<open>
  alembic/env.py, the script in which Alembic runs the migrations, and \<open>init_db\<close> of forwarder/app/database.py, which every start of a server with a
  database runs: what each does with its connection and transaction, and what becomes of the schema when both are used. Alembic and
  SQLAlchemy are functions on a world; a call may raise, and \<open>with\<close> blocks are left in every case.
\<close>

section \<open>The script\<close>

text \<open>A call on the world, and \<open>with enter as x: body\<close>: \<open>leave\<close> learns whether the body raised, and its own exception comes first.\<close>

type_synonym ('a, 'w) call = "'w \<Rightarrow> 'a res \<times> 'w"

definition then_call :: "('a, 'w) call \<Rightarrow> ('a \<Rightarrow> ('b, 'w) call) \<Rightarrow> ('b, 'w) call" where
  "then_call f g w = (case f w of (Inl e, w1) \<Rightarrow> (Inl e, w1) | (Inr x, w1) \<Rightarrow> g x w1)"

definition with_block :: "('a, 'w) call \<Rightarrow> ('a \<Rightarrow> bool \<Rightarrow> (unit, 'w) call) \<Rightarrow> ('a \<Rightarrow> ('b, 'w) call) \<Rightarrow> ('b, 'w) call" where
  "with_block enter leave body =
     then_call enter (\<lambda>x w1.
       let (r, w2) = body x w1
       in case leave x (\<not> res_ok r) w2 of
            (Inl e, w3) \<Rightarrow> (Inl e, w3)
          | (Inr _, w3) \<Rightarrow> (r, w3))"

type_synonym metadata = "(string \<times> model_column list) list"

text \<open>The two ways \<open>context.configure\<close> is called: with a URL, literal binds and a paramstyle, or with a connection.\<close>

datatype 'c configuration = Offline "string option" metadata bool string | Online 'c metadata

record ('w, 'e, 'c) alembic =
  al_config_file :: "string option"
  al_file_config :: "string \<Rightarrow> (unit, 'w) call"
  al_is_offline :: bool
  al_main_option :: "string \<Rightarrow> string option"
  al_section :: "(string \<times> string) list"
  al_engine :: "(string \<times> string) list \<Rightarrow> string \<Rightarrow> ('e, 'w) call"
  al_connect :: "'e \<Rightarrow> ('c, 'w) call"
  al_close :: "'c \<Rightarrow> bool \<Rightarrow> (unit, 'w) call"
  al_configure :: "'c configuration \<Rightarrow> (unit, 'w) call"
  al_begin :: "(unit, 'w) call"
  al_end :: "bool \<Rightarrow> (unit, 'w) call"
  al_run :: "(unit, 'w) call"
  al_dispose :: "'e \<Rightarrow> (unit, 'w) call"

definition run_configured :: "('w, 'e, 'c) alembic \<Rightarrow> 'c configuration \<Rightarrow> (unit, 'w) call" where
  "run_configured A cfg =
     then_call (al_configure A cfg) (\<lambda>_. with_block (al_begin A) (\<lambda>_. al_end A) (\<lambda>_. al_run A))"

definition run_migrations_offline :: "('w, 'e, 'c) alembic \<Rightarrow> (unit, 'w) call" where
  "run_migrations_offline A = run_configured A (Offline (al_main_option A ''sqlalchemy.url'') models True ''named'')"

definition do_run_migrations :: "('w, 'e, 'c) alembic \<Rightarrow> 'c \<Rightarrow> (unit, 'w) call" where
  "do_run_migrations A connection = run_configured A (Online connection models)"

text \<open>The engine is disposed of only when the block has not raised.\<close>

definition run_async_migrations :: "('w, 'e, 'c) alembic \<Rightarrow> (unit, 'w) call" where
  "run_async_migrations A =
     then_call (al_engine A (al_section A) ''sqlalchemy.'') (\<lambda>connectable.
     then_call (with_block (al_connect A connectable) (al_close A) (do_run_migrations A)) (\<lambda>_.
       al_dispose A connectable))"

definition env_script :: "('w, 'e, 'c) alembic \<Rightarrow> (unit, 'w) call" where
  "env_script A =
     then_call (case al_config_file A of None \<Rightarrow> Pair (Inr ()) | Some f \<Rightarrow> al_file_config A f) (\<lambda>_.
       if al_is_offline A then run_migrations_offline A else run_async_migrations A)"

section \<open>The start of a server\<close>

text \<open>\<open>async with engine.begin() as conn: await conn.run_sync(Base.metadata.create_all)\<close>.\<close>

record ('w, 'c) db_engine =
  en_begin :: "('c, 'w) call"
  en_end :: "'c \<Rightarrow> bool \<Rightarrow> (unit, 'w) call"
  en_create_all :: "'c \<Rightarrow> metadata \<Rightarrow> (unit, 'w) call"

definition init_db :: "('w, 'c) db_engine \<Rightarrow> (unit, 'w) call" where
  "init_db engine = with_block (en_begin engine) (en_end engine) (\<lambda>conn. en_create_all engine conn models)"

section \<open>What they rely on\<close>

text \<open>\<open>view\<close> is what a world says of the database: its state, without Alembic's own table, and whether that table records no revision. Calls that are not about
  the schema leave it alone when they succeed.\<close>

definition keeps :: "('w \<Rightarrow> 'v) \<Rightarrow> ('a, 'w) call \<Rightarrow> bool" where
  "keeps view f \<longleftrightarrow> (\<forall>w x w'. f w = (Inr x, w') \<longrightarrow> view w' = view w)"

text \<open>Under \<open>alembic upgrade\<close>, Alembic applies the revision to a database that has not recorded it, and fails when its statements fail.\<close>

definition alembic_ok :: "('w \<Rightarrow> 's \<times> bool) \<Rightarrow> (migration_op \<Rightarrow> 's \<Rightarrow> 's res) \<Rightarrow> ('w, 'e, 'c) alembic \<Rightarrow> bool" where
  "alembic_ok view exec A \<longleftrightarrow>
     (\<forall>f. keeps view (al_file_config A f)) \<and> (\<forall>sec pre. keeps view (al_engine A sec pre)) \<and> (\<forall>e. keeps view (al_connect A e)) \<and>
     (\<forall>c. keeps view (al_close A c False)) \<and> (\<forall>cfg. keeps view (al_configure A cfg)) \<and> keeps view (al_begin A) \<and>
     keeps view (al_end A False) \<and> (\<forall>e. keeps view (al_dispose A e)) \<and>
     (\<forall>w r w'. snd (view w) \<longrightarrow> al_run A w = (r, w') \<longrightarrow>
        (case upgrade_schema exec (fst (view w)) of
           Inl _ \<Rightarrow> \<not> res_ok r
         | Inr s \<Rightarrow> res_ok r \<longrightarrow> fst (view w') = s))"

text \<open>\<open>create_all\<close> makes the tables that do not exist and records no revision; with all of them there it does nothing.\<close>

definition table_names :: "schema \<Rightarrow> string set" where
  "table_names sc = ta_name ` set (sc_tables sc)"

definition engine_ok :: "('s \<Rightarrow> schema) \<Rightarrow> ('w \<Rightarrow> 's \<times> bool) \<Rightarrow> ('w, 'c) db_engine \<Rightarrow> bool" where
  "engine_ok obs view engine \<longleftrightarrow>
     keeps view (en_begin engine) \<and> (\<forall>c. keeps view (en_end engine c False)) \<and>
     (\<forall>c md w w'. en_create_all engine c md w = (Inr (), w') \<longrightarrow>
        snd (view w') = snd (view w) \<and> fst ` set md \<subseteq> table_names (obs (fst (view w'))) \<and>
        (fst ` set md \<subseteq> table_names (obs (fst (view w))) \<longrightarrow> obs (fst (view w')) = obs (fst (view w))))"

text \<open>A statement that succeeds has made its table, or left the tables as they are; a database refuses a table that exists.\<close>

definition makes_tables :: "('s \<Rightarrow> schema) \<Rightarrow> (migration_op \<Rightarrow> 's \<Rightarrow> 's res) \<Rightarrow> bool" where
  "makes_tables obs exec \<longleftrightarrow>
     (\<forall>t s s'. exec (CreateTable t) s = Inr s' \<longrightarrow> table_names (obs s') = insert (ta_name t) (table_names (obs s))) \<and>
     (\<forall>ix s s'. exec (CreateIndex ix) s = Inr s' \<longrightarrow> table_names (obs s') = table_names (obs s))"

definition refuses_existing :: "('s \<Rightarrow> schema) \<Rightarrow> (migration_op \<Rightarrow> 's \<Rightarrow> 's res) \<Rightarrow> bool" where
  "refuses_existing obs exec \<longleftrightarrow> (\<forall>t s. ta_name t \<in> table_names (obs s) \<longrightarrow> \<not> res_ok (exec (CreateTable t) s))"

section \<open>Lemmas\<close>

lemma then_call_Inr [outcome_iff]:
  "then_call f g w = (Inr y, w') \<longleftrightarrow> (\<exists>x w1. f w = (Inr x, w1) \<and> g x w1 = (Inr y, w'))"
  by (auto simp: then_call_def split: prod.splits sum.splits)

lemma with_block_Inr [outcome_iff]:
  "with_block enter leave body w = (Inr y, w') \<longleftrightarrow>
    (\<exists>x w1 w2. enter w = (Inr x, w1) \<and> body x w1 = (Inr y, w2) \<and> leave x False w2 = (Inr (), w'))"
proof -
  have "(case b of (r, w2) \<Rightarrow> case leave x (\<not> res_ok r) w2 of (Inl e, w3) \<Rightarrow> (Inl e, w3) | (Inr _, w3) \<Rightarrow> (r, w3)) = (Inr y, w') \<longleftrightarrow>
      (\<exists>w2. b = (Inr y, w2) \<and> leave x False w2 = (Inr (), w'))" for b x
    by (cases b; cases "leave x (\<not> res_ok (fst b)) (snd b)"; cases "fst (leave x (\<not> res_ok (fst b)) (snd b))") auto
  then show ?thesis by (simp add: with_block_def then_call_Inr)
qed

lemma keepsD: "keeps view f \<Longrightarrow> f w = (Inr x, w') \<Longrightarrow> view w' = view w"
  by (simp add: keeps_def)

lemma alembic_keeps:
  assumes "alembic_ok view exec A"
  shows "keeps view (al_file_config A f)" "keeps view (al_engine A sec pre)" "keeps view (al_connect A e)"
    "keeps view (al_close A c False)" "keeps view (al_configure A cfg)" "keeps view (al_begin A)" "keeps view (al_end A False)"
    "keeps view (al_dispose A e)"
  using assms by (simp_all add: alembic_ok_def)

lemma run_configured_success:
  assumes A: "alembic_ok view exec A" and base: "snd (view w)" and run: "run_configured A cfg w = (Inr (), w')"
  shows "upgrade_schema exec (fst (view w)) = Inr (fst (view w'))"
proof -
  obtain w1 w2 w3 where c: "al_configure A cfg w = (Inr (), w1)" "al_begin A w1 = (Inr (), w2)"
    "al_run A w2 = (Inr (), w3)" "al_end A False w3 = (Inr (), w')"
    using run unfolding run_configured_def outcome_iff by auto
  have k: "view w1 = view w" "view w2 = view w1" "view w' = view w3"
    using keepsD [OF alembic_keeps(5) [OF A] c(1)] keepsD [OF alembic_keeps(6) [OF A] c(2)] keepsD [OF alembic_keeps(7) [OF A] c(4)]
    by simp_all
  have "\<forall>w r w'. snd (view w) \<longrightarrow> al_run A w = (r, w') \<longrightarrow>
      (case upgrade_schema exec (fst (view w)) of Inl _ \<Rightarrow> \<not> res_ok r | Inr s \<Rightarrow> res_ok r \<longrightarrow> fst (view w') = s)"
    using A by (simp add: alembic_ok_def)
  from this [THEN spec, of w2, THEN spec, of "Inr ()", THEN spec, of w3] show ?thesis
    using base c(3) by (simp add: k split: sum.splits)
qed

lemma env_success:
  assumes A: "alembic_ok view exec A" and online: "\<not> al_is_offline A" and base: "snd (view w)"
    and run: "env_script A w = (Inr (), w')"
  shows "upgrade_schema exec (fst (view w)) = Inr (fst (view w'))"
proof -
  obtain w1 where f: "(case al_config_file A of None \<Rightarrow> Pair (Inr ()) | Some f \<Rightarrow> al_file_config A f) w = (Inr (), w1)"
    and m: "run_async_migrations A w1 = (Inr (), w')"
    using run online unfolding env_script_def outcome_iff by auto
  obtain e w2 c w3 w4 w5 where r: "al_engine A (al_section A) ''sqlalchemy.'' w1 = (Inr e, w2)" "al_connect A e w2 = (Inr c, w3)"
    "do_run_migrations A c w3 = (Inr (), w4)" "al_close A c False w4 = (Inr (), w5)" "al_dispose A e w5 = (Inr (), w')"
    using m unfolding run_async_migrations_def outcome_iff by auto
  have k: "view w2 = view w1" "view w3 = view w2" "view w5 = view w4" "view w' = view w5"
    using keepsD [OF alembic_keeps(2) [OF A] r(1)] keepsD [OF alembic_keeps(3) [OF A] r(2)] keepsD [OF alembic_keeps(4) [OF A] r(4)]
      keepsD [OF alembic_keeps(8) [OF A] r(5)]
    by simp_all
  have k1: "view w1 = view w"
    using f keepsD [OF alembic_keeps(1) [OF A]] by (cases "al_config_file A") simp_all
  show ?thesis
    using run_configured_success [OF A _ r(3) [unfolded do_run_migrations_def]] base by (simp add: k k1)
qed

lemma engine_keeps:
  "engine_ok obs view engine \<Longrightarrow> keeps view (en_begin engine)" "engine_ok obs view engine \<Longrightarrow> keeps view (en_end engine c False)"
  by (simp_all add: engine_ok_def)

lemma init_success:
  assumes eng: "engine_ok obs view engine" and run: "init_db engine w = (Inr (), w')"
  shows "snd (view w') = snd (view w)" and "fst ` set models \<subseteq> table_names (obs (fst (view w')))"
    and "fst ` set models \<subseteq> table_names (obs (fst (view w))) \<Longrightarrow> obs (fst (view w')) = obs (fst (view w))"
proof -
  obtain c w1 w2 where r: "en_begin engine w = (Inr c, w1)" "en_create_all engine c models w1 = (Inr (), w2)"
    "en_end engine c False w2 = (Inr (), w')"
    using run unfolding init_db_def outcome_iff by auto
  have k: "view w1 = view w" "view w' = view w2"
    using keepsD [OF engine_keeps(1) [OF eng] r(1)] keepsD [OF engine_keeps(2) [OF eng] r(3)] by simp_all
  have e: "snd (view w2) = snd (view w1) \<and> fst ` set models \<subseteq> table_names (obs (fst (view w2))) \<and>
      (fst ` set models \<subseteq> table_names (obs (fst (view w1))) \<longrightarrow> obs (fst (view w2)) = obs (fst (view w1)))"
    using eng r(2) unfolding engine_ok_def by blast
  show "snd (view w') = snd (view w)" and "fst ` set models \<subseteq> table_names (obs (fst (view w')))"
    and "fst ` set models \<subseteq> table_names (obs (fst (view w))) \<Longrightarrow> obs (fst (view w')) = obs (fst (view w))"
    using e by (simp_all add: k)
qed

lemma upgrade_refused:
  assumes "refuses_existing obs exec" and "fst ` set models \<subseteq> table_names (obs s)"
  shows "upgrade_schema exec s \<noteq> Inr s'"
proof -
  have "ta_name work_orders_table \<in> table_names (obs s)" using assms(2) by (simp add: models_def work_orders_table_def)
  then have "\<not> res_ok (exec (CreateTable work_orders_table) s)" using assms(1) unfolding refuses_existing_def by blast
  then show ?thesis by (auto simp: upgrade_schema_def upgrade_ops_def rbind_Inr_iff res_ok_iff)
qed

lemma upgrade_makes_tables:
  assumes "makes_tables obs exec" and "upgrade_schema exec s = Inr s'"
  shows "fst ` set models \<subseteq> table_names (obs s')"
proof -
  have "table_names (obs s2) = set (concat (map (\<lambda>op. case op of CreateTable t \<Rightarrow> [ta_name t] | _ \<Rightarrow> []) ops)) \<union> table_names (obs s1)"
    if "run_ops exec ops s1 = Inr s2" "\<forall>n. DropTable n \<notin> set ops" for ops s1 s2
    using that
  proof (induction ops arbitrary: s1)
    case (Cons op ops)
    then obtain s0 where s0: "exec op s1 = Inr s0" "run_ops exec ops s0 = Inr s2" by (auto simp: rbind_Inr_iff)
    show ?case
    proof (cases op)
      case (CreateTable t)
      then have "table_names (obs s0) = insert (ta_name t) (table_names (obs s1))" using assms(1) s0(1) by (simp add: makes_tables_def)
      with Cons.IH [OF s0(2)] Cons.prems(2) show ?thesis by (auto simp: CreateTable)
    next
      case (CreateIndex ix)
      then have "table_names (obs s0) = table_names (obs s1)" using assms(1) s0(1) by (simp add: makes_tables_def)
      with Cons.IH [OF s0(2)] Cons.prems(2) show ?thesis by (auto simp: CreateIndex)
    next
      case (DropTable n)
      then show ?thesis using Cons.prems(2) by auto
    qed
  qed simp
  from this [of upgrade_ops s s'] assms(2) show ?thesis
    by (simp add: upgrade_schema_def upgrade_ops_def create_index_def models_def migration_facts)
qed

text \<open>A world that is its schema and the mark of the revision, with an Alembic and an engine that do what they should.\<close>

definition toy_view :: "schema \<times> bool \<Rightarrow> schema \<times> bool" where
  "toy_view w = w"

definition toy_alembic :: "bool \<Rightarrow> (schema \<times> bool, unit, unit) alembic" where
  "toy_alembic text_defaults =
     \<lparr>al_config_file = Some ''alembic.ini'', al_file_config = (\<lambda>_. Pair (Inr ())), al_is_offline = False, al_main_option = (\<lambda>_. None),
      al_section = [], al_engine = (\<lambda>_ _. Pair (Inr ())), al_connect = (\<lambda>_. Pair (Inr ())), al_close = (\<lambda>_ _. Pair (Inr ())),
      al_configure = (\<lambda>_. Pair (Inr ())), al_begin = Pair (Inr ()), al_end = (\<lambda>_. Pair (Inr ())),
      al_run = (\<lambda>(sc, base). if \<not> base then (Inr (), (sc, base))
        else (case upgrade_schema (toy_exec text_defaults) sc of Inl e \<Rightarrow> (Inl e, (sc, base)) | Inr sc' \<Rightarrow> (Inr (), (sc', False)))),
      al_dispose = (\<lambda>_. Pair (Inr ()))\<rparr>"

definition bare_table :: "string \<times> model_column list \<Rightarrow> table_def" where
  "bare_table = (\<lambda>(name, cols).
     \<lparr>ta_name = name, ta_columns = map (\<lambda>c. column (mo_name c) (mo_type c) False (mo_nullable c) None) cols, ta_primary_key = [''id''],
      ta_unique = [], ta_foreign_keys = []\<rparr>)"

definition toy_engine :: "(schema \<times> bool, unit) db_engine" where
  "toy_engine =
     \<lparr>en_begin = Pair (Inr ()), en_end = (\<lambda>_ _. Pair (Inr ())),
      en_create_all = (\<lambda>_ md (sc, base).
        (Inr (), (sc\<lparr>sc_tables := sc_tables sc @ map bare_table (filter (\<lambda>m. fst m \<notin> table_names sc) md)\<rparr>, base)))\<rparr>"

lemma toy_alembic_ok: "alembic_ok toy_view (toy_exec td) (toy_alembic td)"
  by (auto simp: alembic_ok_def keeps_def toy_alembic_def toy_view_def split: sum.splits)

lemma toy_engine_ok: "engine_ok id toy_view toy_engine"
proof -
  have f: "filter (\<lambda>m. fst m \<notin> table_names sc) md = []" if "fst ` set md \<subseteq> table_names sc" for md :: metadata and sc
    using that by (auto simp: filter_empty_conv)
  have n: "fst ` set md \<subseteq> table_names (sc\<lparr>sc_tables := sc_tables sc @ map bare_table (filter (\<lambda>m. fst m \<notin> table_names sc) md)\<rparr>)"
    for md and sc :: schema
  proof -
    have "ta_name (bare_table m) = fst m" for m by (simp add: bare_table_def split: prod.split)
    then have "table_names (sc\<lparr>sc_tables := sc_tables sc @ map bare_table ms\<rparr>) = table_names sc \<union> fst ` set ms" for ms
      by (simp add: table_names_def image_Un image_image)
    then show ?thesis by auto
  qed
  have "snd w' = snd w \<and> fst ` set md \<subseteq> table_names (fst w') \<and> (fst ` set md \<subseteq> table_names (fst w) \<longrightarrow> fst w' = fst w)"
    if "en_create_all toy_engine c md w = (Inr (), w')" for c md and w w' :: "schema \<times> bool"
    using that n [of md "fst w"] f [of md "fst w"] by (cases w) (simp add: toy_engine_def, clarsimp)
  then show ?thesis
    unfolding engine_ok_def toy_view_def id_def by (intro conjI allI impI) (simp_all add: keeps_def, simp_all add: toy_engine_def)
qed

lemma toy_exec_refuses: "refuses_existing id (toy_exec td)"
  by (simp add: refuses_existing_def table_names_def relations_def toy_exec_def ddl_effect_def)

lemma toy_exec_makes: "makes_tables id (toy_exec td)"
  by (auto simp: makes_tables_def table_names_def toy_exec_def ddl_effect_def split: if_splits)

section \<open>Properties\<close>

text \<open>C33. A server that starts before the migration keeps it from running: on a database with no revision recorded, once a server's start has gone through
  \<open>init_db\<close>, \<open>alembic upgrade\<close> ends in an exception, whatever the database held before; the other way round, after the script
  has gone through, \<open>init_db\<close> leaves the schema as it finds it. (On a MySQL in strict mode the script never goes through: the migration's first statement fails.)\<close>

theorem start_before_migration_blocks_it:
  assumes "alembic_ok view exec A" and "\<not> al_is_offline A" and "engine_ok obs view engine"
    and "refuses_existing obs exec" and "makes_tables obs exec" and "snd (view w)"
  shows "(init_db engine w = (Inr (), w1) \<longrightarrow> \<not> res_ok (fst (env_script A w1))) \<and>
    (env_script A w = (Inr (), w1) \<and> init_db engine w1 = (Inr (), w2) \<longrightarrow> obs (fst (view w2)) = obs (fst (view w1)))"
proof (intro conjI impI)
  assume i: "init_db engine w = (Inr (), w1)"
  note s = init_success [OF assms(3) i]
  show "\<not> res_ok (fst (env_script A w1))"
  proof
    assume "res_ok (fst (env_script A w1))"
    then obtain w' where "env_script A w1 = (Inr (), w')" by (auto simp: res_ok_iff prod_eq_iff)
    from env_success [OF assms(1,2) _ this] s(1) assms(6) upgrade_refused [OF assms(4) s(2)] show False by simp
  qed
next
  assume a: "env_script A w = (Inr (), w1) \<and> init_db engine w1 = (Inr (), w2)"
  then have "upgrade_schema exec (fst (view w)) = Inr (fst (view w1))" using env_success [OF assms(1,2,6)] by blast
  then have "fst ` set models \<subseteq> table_names (obs (fst (view w1)))" by (rule upgrade_makes_tables [OF assms(5)])
  then show "obs (fst (view w2)) = obs (fst (view w1))" using init_success(3) [OF assms(3)] a by blast
qed

theorem start_before_migration_blocks_it_witness:
  "\<exists>w1 w2 w3. init_db toy_engine (\<lparr>sc_tables = [], sc_indexes = []\<rparr>, True) = (Inr (), w1) \<and>
     \<not> res_ok (fst (env_script (toy_alembic True) w1)) \<and>
     env_script (toy_alembic True) (\<lparr>sc_tables = [], sc_indexes = []\<rparr>, True) = (Inr (), w2) \<and> init_db toy_engine w2 = (Inr (), w3) \<and>
     fst w3 = fst w2 \<and> length (sc_tables (fst w3)) = 4"
proof -
  let ?sc = "\<lparr>sc_tables = [], sc_indexes = []\<rparr> :: schema"
  have run: "\<exists>w'. init_db toy_engine w = (Inr (), w')" for w
    by (cases w) (simp add: init_db_def with_block_def then_call_def toy_engine_def)
  obtain w1 where i: "init_db toy_engine (?sc, True) = (Inr (), w1)" using run by blast
  have "schema_fresh (id ?sc)" by (simp add: schema_fresh_def relations_def)
  from run_effects [OF toy_exec_ok upgrade_effects [OF this]] have
    "upgrade_schema (toy_exec True) ?sc = Inr \<lparr>sc_tables = new_tables, sc_indexes = new_indexes\<rparr>" by (simp add: upgrade_schema_def)
  then have e: "env_script (toy_alembic True) (?sc, True) = (Inr (), (\<lparr>sc_tables = new_tables, sc_indexes = new_indexes\<rparr>, False))"
    by (simp add: env_script_def run_async_migrations_def do_run_migrations_def run_configured_def with_block_def then_call_def toy_alembic_def)
  obtain w3 where j: "init_db toy_engine (\<lparr>sc_tables = new_tables, sc_indexes = new_indexes\<rparr>, False) = (Inr (), w3)" using run by blast
  have "\<not> al_is_offline (toy_alembic True)" "snd (toy_view (?sc, True))" by (simp_all add: toy_alembic_def toy_view_def)
  note c = start_before_migration_blocks_it [OF toy_alembic_ok this(1) toy_engine_ok toy_exec_refuses toy_exec_makes this(2)]
  have "fst w3 = \<lparr>sc_tables = new_tables, sc_indexes = new_indexes\<rparr>" using c [THEN conjunct2] e j by (simp add: toy_view_def)
  then show ?thesis using c [THEN conjunct1, rule_format, OF i] i e j
    by (intro exI [of _ w1] exI [of _ "(\<lparr>sc_tables = new_tables, sc_indexes = new_indexes\<rparr>, False)"] exI [of _ w3])
      (simp add: new_tables_def)
qed

text \<open>C34. The migration cannot run on the database the project deploys: on one that refuses a literal default on a TEXT column, as MySQL does in strict mode,
  \<open>upgrade\<close> fails at its first statement, the CREATE TABLE of \<open>work_orders\<close> with its \<open>build_cmd TEXT DEFAULT ''\<close>, whatever is in the database, so that none of
  the four tables is created; and \<open>alembic upgrade\<close> on a database with no revision recorded ends in an exception.\<close>

theorem text_default_stops_migration:
  assumes "refuses_text_defaults exec" and "alembic_ok view exec A" and "\<not> al_is_offline A" and "snd (view w)"
  shows "upgrade_schema exec s = exec (CreateTable work_orders_table) s \<and> \<not> res_ok (exec (CreateTable work_orders_table) s) \<and>
    \<not> res_ok (fst (env_script A w))"
proof -
  have "\<exists>c \<in> set (ta_columns work_orders_table). co_type c = Text \<and> (\<exists>d. co_server_default c = Some (Fixed d))"
    by (simp add: table_defs)
  then have no: "\<not> res_ok (exec (CreateTable work_orders_table) s)" for s using assms(1) unfolding refuses_text_defaults_def by blast
  have up: "upgrade_schema exec s = exec (CreateTable work_orders_table) s" for s
    using no [of s] by (cases "exec (CreateTable work_orders_table) s") (simp_all add: upgrade_schema_def upgrade_ops_def res_ok_def)
  have "\<not> res_ok (fst (env_script A w))"
  proof
    assume "res_ok (fst (env_script A w))"
    then obtain w' where "env_script A w = (Inr (), w')" by (auto simp: res_ok_iff prod_eq_iff)
    from env_success [OF assms(2,3,4) this] no [of "fst (view w)"] show False by (simp add: up res_ok_def)
  qed
  with no up show ?thesis by blast
qed

theorem text_default_stops_migration_witness:
  "\<not> res_ok (upgrade_schema (toy_exec False) \<lparr>sc_tables = [], sc_indexes = []\<rparr>) \<and>
   \<not> res_ok (fst (env_script (toy_alembic False) (\<lparr>sc_tables = [], sc_indexes = []\<rparr>, True)))"
proof -
  have "\<not> al_is_offline (toy_alembic False)" "snd (toy_view (\<lparr>sc_tables = [], sc_indexes = []\<rparr>, True))"
    by (simp_all add: toy_alembic_def toy_view_def)
  from text_default_stops_migration [OF toy_exec_strict toy_alembic_ok this] show ?thesis by metis
qed

end
