(* ===== verification/Spec2Isabelle.thy ===== *)
theory Spec2Isabelle
  imports Ws_Accept_Sample Manual_Lifecycle Busy_Server Busy_App Migration_Env
begin

text \<open>
  A verification library for the JD-Relay forwarder (src/forwarder/app), the Python service between DingTalk and the build agents: DingTalk's
  approvals reach it as HTTP callbacks and move work orders, stored in a database, through a state machine; agents connect over WebSocket, agree
  on a session key in a signed ECDH handshake and exchange signed, AES-GCM encrypted JSON envelopes; an approved work order is sent to the agent that serves its
  project; an administration API reads the database and the registry of agents.

  The parts and where they are modelled (paths are under src/forwarder/app):

  \<^item> Relay\_Prelude, Py\_Text, Py\_Int, Py\_Json, Py\_Json\_Facts, Py\_Json\_Bytes, Py\_Hash: what the program uses of Python. Exceptions are the
    values of \<open>exc\<close>, a call that may raise gives \<open>exc + 'a\<close>; a \<open>str\<close> is a list of code points, \<open>bytes\<close> a list of 8-bit words, a dict an
    association list in insertion order. UTF-8, \<open>int(text)\<close>, \<open>json.dumps\<close> and \<open>json.loads\<close> (with the proof that a written value is read
    back), SHA-1, SHA-256, HMAC and base64 are written out.
  \<^item> Work\_Order\_State (state.py): the states, the transition table, \<open>transition\<close>; paths of the machine by an inductive relation.
  \<^item> Base64\_Hex (crypto/base64.py), Replay\_Guard (crypto/replay\_guard.py), Crypto\_Primitives (crypto/aes\_gcm.py, ecdsa.py, ecdh.py),
    Crypto\_Envelope (crypto/envelope.py and the JSON side of crypto/codec.py), Crypto\_Codec (crypto/codec.py): the cryptographic layer. The cryptography package is
    the record \<open>prims\<close>; \<open>crypto_ok\<close> and \<open>gcm_ok\<close> state what is documented of it (a signature of a key verifies under its public key, a ciphertext decrypts under its key and
    iv, ECDH commutes, PEM and DER load what they store), and \<open>toy_prims\<close> is an instance.
  \<^item> Agent\_Manager (ws/agent\_manager.py): the registry of agents and the projects they serve; its clients see it through the locale \<open>agent_registry\<close>.
  \<^item> Agent\_Handler (ws/agent\_handler.py): the handshake, and the I/O loop of one connection as a machine over the events of its session.
    Forwarder\_Server (ws/server.py): the server with all its connections, whose events interleave; Busy\_Server: the same with the handler of a connection divided
    at its awaits (handshake, connect callback, registration, I/O loop, end of the heartbeat task, clean-up), which has the runs of Forwarder\_Server among its own.
  \<^item> Ws\_Framing, Ws\_Accept\_Sample (ws/raw\_ws.py): the upgrade, the frame encoder and decoder, reading over a stream in chunks.
    Manual\_Server, Manual\_Server\_Facts (ws/manual\_server.py): a connection of the thread-based server, compared with agent\_handler.py, and the coroutines it hands to the event
    loop without waiting for them; Manual\_Lifecycle: its start and stop, the accept loop and the event loop that runs these coroutines as a machine of threads.
  \<^item> Relay\_Service (services/relay.py): the life of a work order. DingTalk\_Service (services/dingtalk.py): the token cache as a machine over its concurrent
    callers, approvals, notifications, callback signatures; the SDK is the record \<open>sdk\<close> of functions on a world.
  \<^item> Forwarder\_Config (config.py, main.py): settings from the file, the environment and the command line.
  \<^item> Relay\_Db (models.py, database.py): rows, statements and the session of a request; the database is the record \<open>sql\<close> with the contract \<open>db_ok\<close> (an answer is the matching rows in
    the order asked for, a commit writes everything or fails), and \<open>toy_sql\<close> is an instance.
  \<^item> DingTalk\_Api, DingTalk\_Api\_Facts (api/dingtalk.py), Admin\_Api (api/admin.py): the HTTP endpoints. Forwarder\_App (\<open>lifespan\<close> and the routes of ws/server.py): start-up and the running
    application as a machine over requests and agent events, in any order. The locale \<open>order_history\<close> is what its clients know of a run (orders move along the state machine);
    \<open>order_keeper\<close> is the same contract for one step and a sublocale of it; the callback endpoint, the application, overlapping callbacks and the application with callbacks in flight are interpretations.
  \<^item> Concurrent\_Callbacks: a callback as its decision and its commit, and any number of them interleaved; Busy\_App: the application with callbacks and connections in flight, which simulates
    the application of Forwarder\_App and is simulated by the interleaved callbacks and by the divided connections.
  \<^item> Db\_Schema (alembic/versions/001\_initial\_schema.py of src, and the columns of models.py): the migration, against the models; \<open>ddl_ok\<close> is the contract of a database for well-formed
    statements, \<open>refuses_text_defaults\<close> what MySQL documents of a literal default on a TEXT column. Migration\_Env (alembic/env.py, and
    \<open>init_db\<close> of database.py): the script that runs it, and the tables that a start of the server makes.
  \<^item> This theory: from a work order to the agent that decrypts its build.

  The collection \<open>outcome_iff\<close> of Relay\_Prelude says of each fallible step when it succeeds; the proofs about handlers run on it.

  What the lemmas show: the codec round trip and that no accepted message is accepted twice; that the registry routes a project to the agent that
  claimed it last, every message for an agent goes to a connection of that agent, and an agent that has its id for itself stays reachable; that the two server implementations handle the same traffic in the same way; that
  the relay service builds approved work orders only, and that orders follow the state machine along every run of the application, also when callbacks overlap; that every caller of the token cache ends; that the migration
  creates the tables of the models on a database that takes its TEXT defaults, which the MySQL of docker-compose.yml does not, and only before the first start of a server; that settings follow their order of precedence and keep their types; and
  the places where the code falls short of what it means to do, as theorems about the code as it is (a captured callback signature, an open callback
  without credentials, stale disconnects, lost frames, lost approvals, builds without one, decisions that overwrite each other, agents stranded by a stop, a reconnected agent cut off by its old connection).

  Bounds and fuel: \<open>loads\<close> runs the parser with fuel \<open>2 * length s + 2\<close>, which \<open>pvalue_fuel\<close> shows to be enough; \<open>recv_loop\<close> consumes the chunks of its stream and \<open>io_loop\<close> the iterations it is given
  (\<open>connection_loop_ends\<close> shows that a connection with finitely many bytes ends). Clock readings and random draws are arguments.

  Not modelled: the import lists of the packages, the templates, the C++ agent (another language), the
  build script, sockets below \<open>recv\<close>, \<open>sendall\<close> and \<open>accept\<close>, and starting uvicorn. Requests of the application run in one step each, apart from the callbacks of
  Busy\_App; a send and the handling of a received text are one step each, also where the socket makes them wait; a decision reads its rows at one time, as under a snapshot. The asyncio lock of the registry is taken by two event loops when the thread-based server shares it; that is outside, as are the digit limit and
  recursion limit of the JSON reader, the conversion of JSON floats to doubles, and Python's equality of numbers that are written differently (\<open>True\<close>, \<open>1\<close> and \<open>1.0\<close>) as dict keys. Each theory says what it leaves to a parameter.
\<close>

section \<open>From the work order to the agent\<close>

text \<open>The relay service on top of a running server: its forwarder is the server, and a send draws \<open>d\<close>.\<close>

definition relay_on_server ::
    "('sk, 'pk) prims \<Rightarrow> py_env \<Rightarrow> send_draws \<Rightarrow> ('sk, 'pk) server relay" where
  "relay_on_server P E d =
     \<lparr>rs_dt = None, rs_fwd = Some (\<lambda>project ty payload sv. server_send_to_project P E d project ty payload sv)\<rparr>"

lemma dumps_default_encode:
  assumes "json_ok True v"
  shows "utf8_encode (dumps_default v) = Inr (map of_nat (dumps_default v))"
proof -
  have "\<forall>c \<in> set (dumps True (lit '', '') (lit '': '') v). c < 128"
    by (rule dumps_ascii [OF _ _ assms]) (simp_all add: lit_def)
  then show ?thesis unfolding dumps_default_def by (rule utf8_encode_ascii)
qed

lemma build_payload_text:
  assumes "build_payload wo = Inr payload" and "\<forall>k v. map_of wo k = Some v \<longrightarrow> json_ok True v"
  shows "\<exists>no iss br. map_of wo (lit ''order_no'') = Some no \<and> map_of wo (lit ''issue'') = Some iss \<and>
    map_of wo (lit ''branch'') = Some br \<and>
    loads payload = Inr (JObj
      [(lit ''work_order_id'', no), (lit ''issue'', iss), (lit ''project'', jget wo (lit ''project'') (JStr [])),
       (lit ''branch'', br), (lit ''build_cmd'', jget wo (lit ''build_cmd'') (JStr []))]) \<and>
    utf8_encode payload = Inr (map of_nat payload)"
proof -
  obtain no iss br where w: "map_of wo (lit ''order_no'') = Some no" "map_of wo (lit ''issue'') = Some iss"
    "map_of wo (lit ''branch'') = Some br"
    and p: "payload = dumps_default (JObj
      [(lit ''work_order_id'', no), (lit ''issue'', iss), (lit ''project'', jget wo (lit ''project'') (JStr [])),
       (lit ''branch'', br), (lit ''build_cmd'', jget wo (lit ''build_cmd'') (JStr []))])"
    using assms(1) unfolding build_payload_Inr by blast
  have g: "json_ok True (jget wo k (JStr []))" for k
    using assms(2) by (auto simp: jget_def text_ok_def split: option.split)
  let ?j = "JObj
      [(lit ''work_order_id'', no), (lit ''issue'', iss), (lit ''project'', jget wo (lit ''project'') (JStr [])),
       (lit ''branch'', br), (lit ''build_cmd'', jget wo (lit ''build_cmd'') (JStr []))]"
  have j: "json_ok True ?j"
    using w assms(2) g by simp
  show ?thesis using w loads_dumps_default [OF j] dumps_default_encode [OF j] by (simp add: p)
qed

text \<open>A text sent to a project of an agent that has just connected arrives: it goes to that agent's connection and to no other, and the
  agent decrypts it.\<close>

lemma project_send_reaches_agent:
  assumes "crypto_ok P" "gcm_ok P" "server_keys P fs priv pub skf" "text_manager (sv_manager sv)"
    and "agent_hello P E raw (JStr a) (JArr (map JStr ps)) eska ska"
    and "sv1 = connect P E fs priv pub cid now rnd rnd' True raw sv"
    and "p \<in> set ps" "utf8_encode payload = Inr (map of_nat payload)" "length payload < 2 ^ 31"
    and "sd_ok d" "length (dw_iv (sd_draws d)) = 12" "scalar_text (dw_uuid (sd_draws d))"
    and "is_within_window (new_guard 300) t1 (sd_now d)"
  shows "\<exists>key ack sent sv2 ac' r s2.
    server_send_to_project P E d (JStr p) ty payload sv1 = (Inr True, sv2) \<and>
    map_of (sv_sessions sv2) cid = Some s2 \<and> ss_sent s2 = [ack, sent] \<and>
    (\<forall>c. c \<noteq> cid \<longrightarrow> map_of (sv_sessions sv2) c = map_of (sv_sessions sv) c) \<and>
    derive_shared_secret_pem P \<lparr>ecdh_private = eska\<rparr> (p_pub_pem P (p_public P (p_generate P rnd))) = Inr key \<and>
    decrypt P E (agent_codec P ska key (p_public P skf)) t1 t2 sent = (Inr r, ac') \<and> dr_ok r \<and>
    rbind (from_json sent) (\<lambda>env. parse_type (etype env)) = Inr ty \<and>
    utf8_decode (dr_plaintext r) = Inr payload"
proof -
  have P': "ecdsa_ok P" "sign_total P" using assms(1) by (simp_all add: crypto_ok_def)
  have run: "\<not> stopped (sv_manager sv)" using assms(4) by (simp add: text_manager_def)
  obtain hk ack where hs: "do_handshake P E fs priv pub rnd rnd' True raw = (Inr hk, [ack])"
    and c: "connect P E fs priv pub cid now rnd rnd' True raw sv =
       sv\<lparr>sv_notices := sv_notices sv @ [(JStr a, True)],
          sv_manager := register_agent (sv_manager sv) a ps (now, cid),
          sv_sessions := AList.update cid
            \<lparr>ss_agent_id = JStr a, ss_codec = hk_codec hk, ss_sent = [ack], ss_dispatched = []\<rparr> (sv_sessions sv)\<rparr>"
    using connect_registers [OF assms(1,3,5) run, of rnd rnd' cid now] by blast
  obtain key where key: "derive_shared_secret_pem P \<lparr>ecdh_private = eska\<rparr> (p_pub_pem P (p_public P (p_generate P rnd))) = Inr key"
    and pair: "paired P (hk_codec hk) (agent_codec P ska key (p_public P skf))"
    using handshake_sessions [OF assms(1,3,5), of rnd rnd'] hs by auto
  let ?ac = "agent_codec P ska key (p_public P skf)"
  have g: "cd_guard ?ac = new_guard 300" by (simp add: agent_codec_def new_codec_def)
  have total: "\<forall>r x. \<exists>s. signer_sign P (cd_signer (hk_codec hk)) r x = Inr s"
    using pair P'(2) by (auto simp: paired_def signer_sign_def sign_total_def)
  have len: "length (map of_nat payload :: bytes) < 2 ^ 31" using assms(9) by simp
  have win: "is_within_window (cd_guard ?ac) t1 (sd_now d)" using assms(13) by (simp add: g)
  have fresh: "\<not> is_replay (cd_guard ?ac) (b64_encode (dw_nonce (sd_draws d)))" by (simp add: g)
  obtain sent ac' where sent: "encrypt P E (hk_codec hk) (sd_now d) (sd_draws d) (map of_nat payload) ty = Inr sent"
    and type: "rbind (from_json sent) (\<lambda>env. parse_type (etype env)) = Inr ty"
    and dec: "decrypt P E ?ac t1 t2 sent = (Inr \<lparr>dr_plaintext = map of_nat payload, dr_ok = True, dr_error = NoDecryptError\<rparr>, ac')"
    using encrypt_decrypt [OF assms(2) P'(1) pair total assms(11) len assms(12) win win fresh refl, where E = E and ?t2.0 = t2 and ty = ty] by fastforce
  let ?s = "\<lparr>ss_agent_id = JStr a, ss_codec = hk_codec hk, ss_sent = [ack], ss_dispatched = []\<rparr>"
  let ?s2 = "?s\<lparr>ss_sent := [ack, sent]\<rparr>"
  let ?sv2 = "sv1\<lparr>sv_sessions := AList.update cid ?s2 (sv_sessions sv1)\<rparr>"
  have send: "send_encrypted P E d ty payload ?s = (True, ?s2)"
    by (simp add: send_encrypted_def assms(8,10) sent)
  have m: "text_manager (sv_manager sv1)" "routed_to (sv_manager sv1) p = Some a"
    "session_of (sv_manager sv1) a = Some (now, cid)"
    using assms(7) unfolding assms(6) c
    by (simp_all add: registry.ok_register [OF assms(4)] registry.route_register [OF assms(4)]
        registry.agent_register [OF assms(4)])
  have "map_of (sv_sessions sv1) cid = Some ?s" unfolding assms(6) c by simp
  then have "server_send_to_project P E d (JStr p) ty payload sv1 = (Inr True, ?sv2)"
    by (simp add: server_send_to_project_def send_to_project_eq [OF m(1)] m(2,3) call_back_def send)
  moreover have "\<forall>c. c \<noteq> cid \<longrightarrow> map_of (sv_sessions ?sv2) c = map_of (sv_sessions sv) c"
    unfolding assms(6) c by simp
  moreover have "utf8_decode (map of_nat payload) = Inr payload"
    using utf8_decode_encode [OF assms(8)] by simp
  moreover have "map_of (sv_sessions ?sv2) cid = Some ?s2" "ss_sent ?s2 = [ack, sent]" by simp_all
  ultimately show ?thesis
    using key dec type by (intro exI conjI) (assumption | simp)+
qed

text \<open>C6. End to end: an agent that has connected for a project receives the build of an approved work order of that
  project. \<open>trigger_build\<close> succeeds, its message goes to that agent's connection and to no other, and what the agent decrypts from
  this BUILD_TRIGGER with its side of the session is a JSON text with the work order's number, issue, project, branch and command.\<close>

theorem triggered_build_reaches_agent:
  assumes "crypto_ok P" "gcm_ok P" "server_keys P fs priv pub skf" "text_manager (sv_manager sv)"
    and "agent_hello P E raw (JStr a) (JArr (map JStr ps)) eska ska"
    and "sv1 = connect P E fs priv pub cid now rnd rnd' True raw sv"
    and "current_state wo = Inr st" "st \<in> {APPROVED, FAILED, SECOND_APPROVED}"
    and "build_payload wo = Inr payload" "\<forall>k v. map_of wo k = Some v \<longrightarrow> json_ok True v"
    and "map_of wo (lit ''project'') = Some (JStr p)" "p \<in> set ps" "length payload < 2 ^ 31"
    and "sd_ok d" "length (dw_iv (sd_draws d)) = 12" "scalar_text (dw_uuid (sd_draws d))"
    and "is_within_window (new_guard 300) t1 (sd_now d)"
  shows "\<exists>key ack sent sv2 ac' r no iss br s2.
    trigger_build (relay_on_server P E d) wo sv1 = (Inr True, sv2) \<and>
    map_of (sv_sessions sv2) cid = Some s2 \<and> ss_sent s2 = [ack, sent] \<and>
    (\<forall>c. c \<noteq> cid \<longrightarrow> map_of (sv_sessions sv2) c = map_of (sv_sessions sv) c) \<and>
    derive_shared_secret_pem P \<lparr>ecdh_private = eska\<rparr> (p_pub_pem P (p_public P (p_generate P rnd))) = Inr key \<and>
    decrypt P E (agent_codec P ska key (p_public P skf)) t1 t2 sent = (Inr r, ac') \<and> dr_ok r \<and>
    rbind (from_json sent) (\<lambda>env. parse_type (etype env)) = Inr BUILD_TRIGGER \<and>
    map_of wo (lit ''order_no'') = Some no \<and> map_of wo (lit ''issue'') = Some iss \<and>
    map_of wo (lit ''branch'') = Some br \<and>
    rbind (utf8_decode (dr_plaintext r)) loads = Inr (JObj
      [(lit ''work_order_id'', no), (lit ''issue'', iss), (lit ''project'', JStr p),
       (lit ''branch'', br), (lit ''build_cmd'', jget wo (lit ''build_cmd'') (JStr []))])"
proof -
  have enc: "utf8_encode payload = Inr (map of_nat payload)"
    and wo: "\<exists>no iss br. map_of wo (lit ''order_no'') = Some no \<and> map_of wo (lit ''issue'') = Some iss \<and>
    map_of wo (lit ''branch'') = Some br \<and>
    loads payload = Inr (JObj
      [(lit ''work_order_id'', no), (lit ''issue'', iss), (lit ''project'', jget wo (lit ''project'') (JStr [])),
       (lit ''branch'', br), (lit ''build_cmd'', jget wo (lit ''build_cmd'') (JStr []))])"
    using build_payload_text [OF assms(9,10)] by blast+
  have proj: "jget wo (lit ''project'') (JStr []) = JStr p" by (simp add: jget_def assms(11))
  have "trigger_build (relay_on_server P E d) wo sv1 = (Inr True, sv2)"
    if "server_send_to_project P E d (JStr p) BUILD_TRIGGER payload sv1 = (Inr True, sv2)" for sv2
    using trigger_build_sends [OF assms(7,8,9), of "relay_on_server P E d"] that by (simp add: relay_on_server_def proj)
  moreover note project_send_reaches_agent [OF assms(1-6,12) enc assms(13-17), of BUILD_TRIGGER t2]
  ultimately show ?thesis using wo unfolding proj by fastforce
qed

theorem triggered_build_reaches_agent_witness:
  "\<exists>sv2 ac sent r ac' s2.
    trigger_build (relay_on_server toy_prims toy_env toy_send) (toy_order APPROVED)
      (toy_connect 1 (lit ''a1'') [lit ''p''] [5] new_server) = (Inr True, sv2) \<and>
    map_of (sv_sessions sv2) 1 = Some s2 \<and> sent \<in> set (ss_sent s2) \<and>
    decrypt toy_prims toy_env ac 2000 2001 sent = (Inr r, ac') \<and> dr_ok r \<and>
    rbind (utf8_decode (dr_plaintext r)) loads = Inr (JObj
      [(lit ''work_order_id'', JStr (lit ''WO-1'')), (lit ''issue'', JStr (lit ''J-1'')), (lit ''project'', JStr (lit ''p'')),
       (lit ''branch'', JStr (lit ''main'')), (lit ''build_cmd'', JStr [])])"
proof -
  let ?wo = "toy_order APPROVED"
  have hello: "agent_hello toy_prims toy_env (toy_hello (lit ''a1'') (JArr (map JStr [lit ''p''])) [4] [5]) (JStr (lit ''a1''))
      (JArr (map JStr [lit ''p''])) [4] [5]"
    by (rule toy_agent_hello) (simp_all add: lit_def)
  have fields: "map_of ?wo (lit ''order_no'') = Some (JStr (lit ''WO-1''))" "map_of ?wo (lit ''issue'') = Some (JStr (lit ''J-1''))"
    "map_of ?wo (lit ''branch'') = Some (JStr (lit ''main''))" "map_of ?wo (lit ''project'') = Some (JStr (lit ''p''))"
    "jget ?wo (lit ''build_cmd'') (JStr []) = JStr []" "jget ?wo (lit ''project'') (JStr []) = JStr (lit ''p'')"
    by (simp_all add: toy_order_def jget_def)
  have ok: "\<forall>k v. map_of ?wo k = Some v \<longrightarrow> json_ok True v"
    by (auto simp: toy_order_def split: if_splits)
  let ?j = "JObj [(lit ''work_order_id'', JStr (lit ''WO-1'')), (lit ''issue'', JStr (lit ''J-1'')), (lit ''project'', JStr (lit ''p'')),
     (lit ''branch'', JStr (lit ''main'')), (lit ''build_cmd'', JStr [])]"
  have pl: "build_payload ?wo = Inr (dumps_default ?j)"
    using fields by (simp add: build_payload_Inr)
  have len: "length (dumps_default ?j) < 2 ^ 31"
    by (simp add: dumps_default_def json_quote_def json_escape_def lit_def)
  have p: "lit ''p'' \<in> set [lit ''p'']" by simp
  have d: "sd_ok toy_send" "length (dw_iv (sd_draws toy_send)) = 12" "scalar_text (dw_uuid (sd_draws toy_send))"
    "is_within_window (new_guard 300) 2000 (sd_now toy_send)"
    by (simp_all add: toy_send_def is_within_window_def)
  have st: "APPROVED \<in> {APPROVED, FAILED, SECOND_APPROVED}" by simp
  have "\<exists>key ack sent sv2 ac' r no iss br s2.
    trigger_build (relay_on_server toy_prims toy_env toy_send) ?wo
      (toy_connect 1 (lit ''a1'') [lit ''p''] [5] new_server) = (Inr True, sv2) \<and>
    map_of (sv_sessions sv2) 1 = Some s2 \<and> ss_sent s2 = [ack, sent] \<and>
    (\<forall>c. c \<noteq> 1 \<longrightarrow> map_of (sv_sessions sv2) c = map_of (sv_sessions new_server) c) \<and>
    derive_shared_secret_pem toy_prims \<lparr>ecdh_private = [4]\<rparr>
      (p_pub_pem toy_prims (p_public toy_prims (p_generate toy_prims [3]))) = Inr key \<and>
    decrypt toy_prims toy_env (agent_codec toy_prims [5] key (p_public toy_prims [7])) 2000 2001 sent = (Inr r, ac') \<and>
    dr_ok r \<and>
    rbind (from_json sent) (\<lambda>env. parse_type (etype env)) = Inr BUILD_TRIGGER \<and>
    map_of ?wo (lit ''order_no'') = Some no \<and> map_of ?wo (lit ''issue'') = Some iss \<and>
    map_of ?wo (lit ''branch'') = Some br \<and>
    rbind (utf8_decode (dr_plaintext r)) loads = Inr (JObj
      [(lit ''work_order_id'', no), (lit ''issue'', iss), (lit ''project'', JStr (lit ''p'')),
       (lit ''branch'', br), (lit ''build_cmd'', jget ?wo (lit ''build_cmd'') (JStr []))])"
    unfolding toy_connect_def
    by (rule triggered_build_reaches_agent [OF toy_crypto_ok toy_gcm_ok toy_server_keys text_manager_new_server hello refl
        toy_order_state st pl ok fields(4) p len d])
  then obtain key ack sent sv2 ac' r no iss br s2 where
    "trigger_build (relay_on_server toy_prims toy_env toy_send) ?wo
      (toy_connect 1 (lit ''a1'') [lit ''p''] [5] new_server) = (Inr True, sv2)"
    "map_of (sv_sessions sv2) 1 = Some s2" "ss_sent s2 = [ack, sent]"
    "decrypt toy_prims toy_env (agent_codec toy_prims [5] key (p_public toy_prims [7])) 2000 2001 sent = (Inr r, ac')" "dr_ok r"
    "map_of ?wo (lit ''order_no'') = Some no" "map_of ?wo (lit ''issue'') = Some iss" "map_of ?wo (lit ''branch'') = Some br"
    "rbind (utf8_decode (dr_plaintext r)) loads = Inr (JObj
      [(lit ''work_order_id'', no), (lit ''issue'', iss), (lit ''project'', JStr (lit ''p'')),
       (lit ''branch'', br), (lit ''build_cmd'', jget ?wo (lit ''build_cmd'') (JStr []))])"
    by blast
  moreover from this have "no = JStr (lit ''WO-1'')" "iss = JStr (lit ''J-1'')" "br = JStr (lit ''main'')"
    using fields by auto
  moreover have "sent \<in> set [ack, sent]" by simp
  ultimately show ?thesis unfolding fields by metis
qed

text \<open>C7. A build needs no approval: whatever work orders the database holds, \<open>POST /api/build/trigger\<close>, which asks for no credentials, sends any JSON object as
  BUILD_TRIGGER to the agent of the named project, which decrypts and accepts it; and it is the only request that does: no other one, the callback that approves a work
  order included, changes what any agent is sent.\<close>

theorem builds_bypass_approvals:
  assumes "crypto_ok P" "gcm_ok P" "server_keys P fs priv pub skf" "text_manager (sv_manager sv)"
    and "agent_hello P E raw (JStr a) (JArr (map JStr ps)) eska ska"
    and "ap_server ap = connect P E fs priv pub cid now rnd rnd' True raw sv" "p \<in> set ps"
    and "json_ok True (JObj payload)" "length (dumps_default (JObj payload)) < 2 ^ 31"
    and "sd_ok d" "length (dw_iv (sd_draws d)) = 12" "scalar_text (dw_uuid (sd_draws d))"
    and "is_within_window (new_guard 300) t1 (sd_now d)"
  shows "(\<exists>key ack sent sv2 ac' r s2.
      app_request P E D sdk (TriggerBuild d p (JObj payload)) ap =
        (Answer (JObj [(lit ''status'', JStr (lit ''sent'')), (lit ''project'', JStr p)]), ap\<lparr>ap_server := sv2\<rparr>) \<and>
      map_of (sv_sessions sv2) cid = Some s2 \<and> ss_sent s2 = [ack, sent] \<and>
      derive_shared_secret_pem P \<lparr>ecdh_private = eska\<rparr> (p_pub_pem P (p_public P (p_generate P rnd))) = Inr key \<and>
      decrypt P E (agent_codec P ska key (p_public P skf)) t1 t2 sent = (Inr r, ac') \<and> dr_ok r \<and>
      rbind (from_json sent) (\<lambda>env. parse_type (etype env)) = Inr BUILD_TRIGGER \<and>
      rbind (utf8_decode (dr_plaintext r)) loads = Inr (JObj payload)) \<and>
    ((\<forall>d p pl. rq \<noteq> TriggerBuild d p pl) \<longrightarrow> ap_server (snd (app_request P E D sdk rq ap)) = ap_server ap)"
proof (intro conjI impI)
  let ?text = "dumps_default (JObj payload)"
  have "app_request P E D sdk (TriggerBuild d p (JObj payload)) ap =
      (Answer (JObj [(lit ''status'', JStr (lit ''sent'')), (lit ''project'', JStr p)]), ap\<lparr>ap_server := sv2\<rparr>)"
    if "server_send_to_project P E d (JStr p) BUILD_TRIGGER ?text (ap_server ap) = (Inr True, sv2)" for sv2
    using that by (simp add: app_request_def trigger_build_api_def build_answer_def)
  moreover note project_send_reaches_agent [OF assms(1-7) dumps_default_encode [OF assms(8)] assms(9-13), of BUILD_TRIGGER t2]
  moreover note loads_dumps_default [OF assms(8)]
  ultimately show "\<exists>key ack sent sv2 ac' r s2.
      app_request P E D sdk (TriggerBuild d p (JObj payload)) ap =
        (Answer (JObj [(lit ''status'', JStr (lit ''sent'')), (lit ''project'', JStr p)]), ap\<lparr>ap_server := sv2\<rparr>) \<and>
      map_of (sv_sessions sv2) cid = Some s2 \<and> ss_sent s2 = [ack, sent] \<and>
      derive_shared_secret_pem P \<lparr>ecdh_private = eska\<rparr> (p_pub_pem P (p_public P (p_generate P rnd))) = Inr key \<and>
      decrypt P E (agent_codec P ska key (p_public P skf)) t1 t2 sent = (Inr r, ac') \<and> dr_ok r \<and>
      rbind (from_json sent) (\<lambda>env. parse_type (etype env)) = Inr BUILD_TRIGGER \<and>
      rbind (utf8_decode (dr_plaintext r)) loads = Inr (JObj payload)"
    by fastforce
next
  assume "\<forall>d p pl. rq \<noteq> TriggerBuild d p pl"
  then show "ap_server (snd (app_request P E D sdk rq ap)) = ap_server ap"
    by (cases rq) (simp_all add: app_request_def split: prod.split)
qed

theorem builds_bypass_approvals_witness:
  "\<exists>sv2 s2 ack sent.
     app_request toy_prims toy_env toy_sql toy_sdk (TriggerBuild toy_send (lit ''p'') (JObj []))
       ((toy_app (toy_tables DRAFT []))\<lparr>ap_server := toy_connect 1 (lit ''a1'') [lit ''p''] [5] new_server\<rparr>) =
     (Answer (JObj [(lit ''status'', JStr (lit ''sent'')), (lit ''project'', JStr (lit ''p''))]),
      (toy_app (toy_tables DRAFT []))\<lparr>ap_server := sv2\<rparr>) \<and>
     map_of (sv_sessions sv2) 1 = Some s2 \<and> ss_sent s2 = [ack, sent]"
proof -
  let ?ap = "(toy_app (toy_tables DRAFT []))\<lparr>ap_server := toy_connect 1 (lit ''a1'') [lit ''p''] [5] new_server\<rparr>"
  have hello: "agent_hello toy_prims toy_env (toy_hello (lit ''a1'') (JArr (map JStr [lit ''p''])) [4] [5]) (JStr (lit ''a1''))
      (JArr (map JStr [lit ''p''])) [4] [5]"
    by (rule toy_agent_hello) (simp_all add: lit_def)
  have ap: "ap_server ?ap = connect toy_prims toy_env (toy_files [7]) (lit ''priv'') (lit ''pub'') 1 (int 1) [3] [] True
      (toy_hello (lit ''a1'') (JArr (map JStr [lit ''p''])) [4] [5]) new_server"
    by (simp add: toy_connect_def)
  have p: "lit ''p'' \<in> set [lit ''p'']" and j: "json_ok True (JObj [])" "length (dumps_default (JObj [])) < 2 ^ 31"
    and d: "sd_ok toy_send" "length (dw_iv (sd_draws toy_send)) = 12" "scalar_text (dw_uuid (sd_draws toy_send))"
      "is_within_window (new_guard 300) 2000 (sd_now toy_send)"
    by (simp_all add: dumps_default_def toy_send_def is_within_window_def)
  from builds_bypass_approvals [OF toy_crypto_ok toy_gcm_ok toy_server_keys text_manager_new_server hello ap p j d,
      of toy_sql toy_sdk 0 Health, THEN conjunct1]
  show ?thesis by (auto simp: toy_app_def)
qed

end
